(* ===== verification/Prelude.thy ===== *)
theory Prelude
  imports Main
begin

text \<open>
  Shared vocabulary of the development: JavaScript strings and the string operations the
  Yatay front end calls, results that may be a thrown value, and decimal numerals.

  A JavaScript string is a HOL \<^typ>\<open>string\<close>; a character is a code unit below 256, which
  covers ASCII and Latin-1 (all string constants of the modelled sources but the three arrows
  of the comparison menu). \<open>null\<close> or \<open>undefined\<close> is \<^const>\<open>None\<close>.
\<close>

named_theorems js_simps \<open>rewrite rules for the JavaScript string operations\<close>

subsection \<open>Thrown values\<close>

text \<open>A computation that throws has the thrown text on the left of the sum.\<close>

type_synonym 'a res = "string + 'a"

fun map_res :: "('a \<Rightarrow> 'b) \<Rightarrow> 'a res \<Rightarrow> 'b res" where
  "map_res f (Inl e) = Inl e"
| "map_res f (Inr x) = Inr (f x)"

lemma map_res_comp [simp]: "map_res f (map_res g r) = map_res (\<lambda>x. f (g x)) r"
  by (cases r) simp_all

lemma map_res_ident [simp]: "map_res (\<lambda>x. x) r = r"
  by (cases r) simp_all

subsection \<open>Strings\<close>

fun is_prefix :: "string \<Rightarrow> string \<Rightarrow> bool" where
  "is_prefix [] s = True"
| "is_prefix (p # ps) [] = False"
| "is_prefix (p # ps) (c # cs) = (p = c \<and> is_prefix ps cs)"

lemma is_prefix_iff: "is_prefix p s \<longleftrightarrow> (\<exists>r. s = p @ r)"
  by (induction p s rule: is_prefix.induct) auto

lemma is_prefix_append [simp]: "is_prefix p (p @ r)"
  by (auto simp: is_prefix_iff)

text \<open>\<open>s.indexOf(p)\<close>: the first position, \<^const>\<open>None\<close> for -1.\<close>

fun js_indexOf :: "string \<Rightarrow> string \<Rightarrow> nat option" where
  "js_indexOf p [] = (if p = [] then Some 0 else None)"
| "js_indexOf p (c # cs) =
     (if is_prefix p (c # cs) then Some 0 else map_option Suc (js_indexOf p cs))"

text \<open>The text before and after the first occurrence of a separator.\<close>

fun break_at :: "string \<Rightarrow> string \<Rightarrow> (string \<times> string) option" where
  "break_at p [] = (if p = [] then Some ([], []) else None)"
| "break_at p (c # cs) =
     (if is_prefix p (c # cs) then Some ([], drop (length p) (c # cs))
      else map_option (\<lambda>(a, b). (c # a, b)) (break_at p cs))"

lemma break_at_Some: "break_at p s = Some (a, b) \<Longrightarrow> s = a @ p @ b"
  by (induction p s arbitrary: a rule: break_at.induct)
     (auto simp: is_prefix_iff split: if_splits)

lemma break_at_length: "break_at p s = Some (a, b) \<Longrightarrow> p \<noteq> [] \<Longrightarrow> length b < length s"
  using break_at_Some by fastforce

text \<open>\<open>s.split(p)\<close> for a string separator.\<close>

function js_split :: "string \<Rightarrow> string \<Rightarrow> string list" where
  "js_split p s =
     (if p = [] then map (\<lambda>c. [c]) s
      else case break_at p s of None \<Rightarrow> [s] | Some (a, b) \<Rightarrow> a # js_split p b)"
  by pat_completeness auto
termination
  by (relation "measure (\<lambda>(p, s). length s)") (auto dest: break_at_length)

declare js_split.simps [simp del]

fun js_join :: "string \<Rightarrow> string list \<Rightarrow> string" where
  "js_join sep [] = []"
| "js_join sep [x] = x"
| "js_join sep (x # y # ys) = x @ sep @ js_join sep (y # ys)"

text \<open>\<open>s.replace(p, r)\<close> with a string or a regular expression without the \<open>g\<close> flag.\<close>

definition js_replace1 :: "string \<Rightarrow> string \<Rightarrow> string \<Rightarrow> string" where
  "js_replace1 p r s = (case break_at p s of None \<Rightarrow> s | Some (a, b) \<Rightarrow> a @ r @ b)"

text \<open>\<open>s.replace(/p/g, r)\<close> for a literal, non-empty \<open>p\<close>.\<close>

definition js_replaceAll :: "string \<Rightarrow> string \<Rightarrow> string \<Rightarrow> string" where
  "js_replaceAll p r s = js_join r (js_split p s)"

text \<open>White space as \<open>trim\<close> and the class \<open>\s\<close> see it.\<close>

definition js_space :: "char \<Rightarrow> bool" where
  "js_space c \<longleftrightarrow> of_char c \<in> {9, 10, 11, 12, 13, 32, 160 :: nat}"

definition js_trimLeft :: "string \<Rightarrow> string" where
  "js_trimLeft s = dropWhile js_space s"

definition js_trim :: "string \<Rightarrow> string" where
  "js_trim s = rev (dropWhile js_space (rev (dropWhile js_space s)))"

text \<open>\<open>a || d\<close> on strings: the empty string is falsy.\<close>

definition js_or :: "string \<Rightarrow> string \<Rightarrow> string" where
  "js_or a d = (if a = [] then d else a)"

text \<open>String concatenation coerces \<open>null\<close> to text.\<close>

definition js_str :: "string option \<Rightarrow> string" where
  "js_str v = (case v of None \<Rightarrow> ''null'' | Some s \<Rightarrow> s)"

text \<open>\<open>toLowerCase\<close> on Latin-1.\<close>

definition js_lower1 :: "char \<Rightarrow> char" where
  "js_lower1 c = (let n = of_char c :: nat in
     if (65 \<le> n \<and> n \<le> 90) \<or> (192 \<le> n \<and> n \<le> 222 \<and> n \<noteq> 215) then char_of (n + 32) else c)"

definition js_toLowerCase :: "string \<Rightarrow> string" where
  "js_toLowerCase s = map js_lower1 s"

subsubsection \<open>Laws of splitting, joining and replacing\<close>

lemma break_at_singleton: "break_at [p] s =
    (if p \<in> set s then Some (takeWhile (\<lambda>c. c \<noteq> p) s, tl (dropWhile (\<lambda>c. c \<noteq> p) s)) else None)"
  by (induction s) auto

lemma break_at_None_singleton [simp]: "p \<notin> set s \<Longrightarrow> break_at [p] s = None"
  by (simp add: break_at_singleton)

lemma break_at_append_singleton: "p \<notin> set a \<Longrightarrow> break_at [p] (a @ p # b) = Some (a, b)"
  by (induction a) auto

lemma js_split_None: "p \<noteq> [] \<Longrightarrow> break_at p s = None \<Longrightarrow> js_split p s = [s]"
  by (subst js_split.simps) simp

lemma js_split_Some: "p \<noteq> [] \<Longrightarrow> break_at p s = Some (a, b) \<Longrightarrow> js_split p s = a # js_split p b"
  by (subst js_split.simps) simp

lemma js_split_notNil [simp]: "p \<noteq> [] \<Longrightarrow> js_split p s \<noteq> []"
  by (subst js_split.simps) (auto split: option.splits)

lemma js_join_Cons: "xs \<noteq> [] \<Longrightarrow> js_join sep (x # xs) = x @ sep @ js_join sep xs"
  by (cases xs) auto

lemma js_join_split: "p \<noteq> [] \<Longrightarrow> js_join p (js_split p s) = s"
proof (induction p s rule: js_split.induct)
  case (1 p s)
  show ?case
  proof (cases "break_at p s")
    case None
    with "1.prems" show ?thesis by (simp add: js_split_None)
  next
    case (Some ab)
    obtain a b where ab: "ab = (a, b)" by (cases ab)
    have "js_join p (js_split p b) = b"
      using "1.IH" "1.prems" Some ab by simp
    with Some ab "1.prems" have "js_join p (js_split p s) = a @ p @ b"
      by (simp add: js_split_Some js_join_Cons)
    moreover have "s = a @ p @ b" using Some ab by (intro break_at_Some) simp
    ultimately show ?thesis by (simp only:)
  qed
qed

lemma js_split_single: "js_split [p] [] = [[]]"
  "p \<noteq> c \<Longrightarrow> js_split [p] (c # s) = (c # hd (js_split [p] s)) # tl (js_split [p] s)"
  "js_split [p] (p # s) = [] # js_split [p] s"
proof -
  show "js_split [p] [] = [[]]" by (simp add: js_split_None)
  show "js_split [p] (p # s) = [] # js_split [p] s"
    by (rule js_split_Some) auto
  assume "p \<noteq> c"
  then show "js_split [p] (c # s) = (c # hd (js_split [p] s)) # tl (js_split [p] s)"
    by (cases "break_at [p] s")
       (auto simp: js_split_None js_split_Some split: prod.splits)
qed

lemma js_split_clean: "p \<notin> set s \<Longrightarrow> js_split [p] s = [s]"
  by (simp add: js_split_None)

lemma js_split_append: "p \<notin> set a \<Longrightarrow> js_split [p] (a @ p # b) = a # js_split [p] b"
  by (simp add: js_split_Some break_at_append_singleton)

lemma js_split_prepend:
  "p \<notin> set a \<Longrightarrow> js_split [p] (a @ b) = (a @ hd (js_split [p] b)) # tl (js_split [p] b)"
  by (induction a) (auto simp: js_split_single(2))

lemma js_join_hd_app: "xs \<noteq> [] \<Longrightarrow> js_join r ((c @ hd xs) # tl xs) = c @ js_join r xs"
  by (cases xs; cases "tl xs") auto

lemma js_replaceAll_single:
  "js_replaceAll [p] r s = concat (map (\<lambda>c. if c = p then r else [c]) s)"
proof (induction s)
  case Nil
  then show ?case by (simp add: js_replaceAll_def js_split_single)
next
  case (Cons c s)
  show ?case
  proof (cases "c = p")
    case True
    with Cons show ?thesis
      by (simp add: js_replaceAll_def js_split_single js_join_Cons)
  next
    case False
    with Cons show ?thesis
      using js_join_hd_app [of "js_split [p] s" r "[c]"]
      by (simp add: js_replaceAll_def js_split_single)
  qed
qed

lemma js_replaceAll_clean: "p \<notin> set s \<Longrightarrow> js_replaceAll [p] r s = s"
  by (simp add: js_replaceAll_def js_split_clean)

lemma dropWhile_hd: "s = [] \<or> \<not> P (hd s) \<Longrightarrow> dropWhile P s = s"
  by (cases s) auto

lemma js_trim_id:
  assumes "s = [] \<or> (\<not> js_space (hd s) \<and> \<not> js_space (last s))"
  shows "js_trim s = s"
proof -
  have "dropWhile js_space s = s" using assms by (auto intro: dropWhile_hd)
  moreover have "dropWhile js_space (rev s) = rev s"
    using assms by (intro dropWhile_hd) (auto simp: hd_rev)
  ultimately show ?thesis by (simp add: js_trim_def)
qed

lemma js_trim_space [simp]: "js_space c \<Longrightarrow> js_trim (c # s) = js_trim s"
  by (simp add: js_trim_def)

lemma js_indexOf_0: "js_indexOf p s = Some 0 \<longleftrightarrow> is_prefix p s"
  by (cases s) (auto, (cases p; auto)+)

lemma js_split_join:
  assumes "p \<notin> set q" and "\<forall>x \<in> set xs. p \<notin> set x" and "xs \<noteq> []"
  shows "js_split [p] (js_join (p # q) xs) = hd xs # map ((@) q) (tl xs)"
  using assms(3,2)
proof (induction xs rule: list_nonempty_induct)
  case (single x)
  then show ?case by (simp add: js_split_clean)
next
  case (cons x xs)
  let ?rest = "js_join (p # q) xs"
  have "js_split [p] (q @ ?rest) = (q @ hd xs) # map ((@) q) (tl xs)"
    using cons assms(1) js_split_prepend [of p q ?rest] by simp
  with cons show ?case by (cases xs) (simp_all add: js_join_Cons js_split_append)
qed

subsection \<open>Decimal numerals\<close>

definition digit :: "nat \<Rightarrow> char" where
  "digit n = ''0123456789'' ! n"

text \<open>\<open>n.toString()\<close> for a natural number.\<close>

fun nat_str :: "nat \<Rightarrow> string" where
  "nat_str n = (if n < 10 then [digit n] else nat_str (n div 10) @ [digit (n mod 10)])"

declare nat_str.simps [simp del]

definition digit_val :: "char \<Rightarrow> nat option" where
  "digit_val c = (let n = of_char c :: nat in if 48 \<le> n \<and> n \<le> 57 then Some (n - 48) else None)"

lemma digit_val_digit [simp]: "n < 10 \<Longrightarrow> digit_val (digit n) = Some n"
proof -
  assume "n < 10"
  then have "n \<in> {0, 1, 2, 3, 4, 5, 6, 7, 8, 9}" by auto
  then show ?thesis by (auto simp: digit_val_def digit_def)
qed

fun dec_val :: "nat \<Rightarrow> string \<Rightarrow> nat option" where
  "dec_val acc [] = Some acc"
| "dec_val acc (c # cs) =
     (case digit_val c of None \<Rightarrow> None | Some d \<Rightarrow> dec_val (10 * acc + d) cs)"

lemma dec_val_append: "dec_val a (xs @ ys) = (case dec_val a xs of None \<Rightarrow> None | Some b \<Rightarrow> dec_val b ys)"
  by (induction a xs rule: dec_val.induct) (auto split: option.splits)

lemma dec_val_nat_str: "dec_val 0 (nat_str n) = Some n"
proof (induction n rule: nat_str.induct)
  case (1 n)
  show ?case
  proof (cases "n < 10")
    case True
    then show ?thesis by (simp add: nat_str.simps)
  next
    case False
    with "1.IH" show ?thesis
      by (subst nat_str.simps) (simp add: dec_val_append)
  qed
qed

lemma nat_str_inject [simp]: "nat_str m = nat_str n \<longleftrightarrow> m = n"
  by (metis dec_val_nat_str option.inject)

lemma nat_str_notNil [simp]: "nat_str n \<noteq> []"
  by (subst nat_str.simps) simp

text \<open>The longest decimal prefix, and \<open>parseInt(s, 10)\<close> (\<^const>\<open>None\<close> is NaN).\<close>

definition dec_prefix :: "string \<Rightarrow> string" where
  "dec_prefix s = takeWhile (\<lambda>c. digit_val c \<noteq> None) s"

definition js_parseInt :: "string \<Rightarrow> int option" where
  "js_parseInt s0 = (let s = js_trimLeft s0;
       neg = is_prefix ''-'' s;
       s' = (if neg \<or> is_prefix ''+'' s then tl s else s);
       ds = dec_prefix s'
     in if ds = [] then None
        else map_option (\<lambda>n. if neg then - int n else int n) (dec_val 0 ds))"

lemma digits_nat_str: "c \<in> set (nat_str n) \<Longrightarrow> digit_val c \<noteq> None"
proof (induction n rule: nat_str.induct)
  case (1 n)
  then show ?case by (cases "n < 10") (auto simp: nat_str.simps [of n])
qed

lemma digit_not_space: "digit_val c \<noteq> None \<Longrightarrow> \<not> js_space c"
  by (auto simp: digit_val_def js_space_def Let_def split: if_splits)

lemma js_parseInt_nat_str [simp]: "js_parseInt (nat_str n) = Some (int n)"
proof -
  obtain c s where cs: "nat_str n = c # s" by (cases "nat_str n") auto
  then have c: "digit_val c \<noteq> None" using digits_nat_str [of c n] by simp
  then have "js_trimLeft (nat_str n) = nat_str n" "c \<noteq> CHR ''-''" "c \<noteq> CHR ''+''"
    using digit_not_space by (auto simp: cs js_trimLeft_def digit_val_def)
  moreover have "dec_prefix (nat_str n) = nat_str n"
    using digits_nat_str by (simp add: dec_prefix_def takeWhile_eq_all_conv)
  ultimately show ?thesis
    using dec_val_nat_str [of n] by (simp add: js_parseInt_def cs Let_def)
qed

subsection \<open>Looking up a key of a long table, one entry at a time\<close>

lemma lookup_hit: "map_of ((k, v) # l) k = Some v"
  by simp

lemma lookup_miss: "k \<noteq> a \<Longrightarrow> map_of l k = r \<Longrightarrow> map_of ((a, v) # l) k = r"
  by simp

subsection \<open>Lists updated by position\<close>

text \<open>\<open>xs.splice(i, 1)\<close>.\<close>

definition splice1 :: "nat \<Rightarrow> 'a list \<Rightarrow> 'a list" where
  "splice1 i xs = take i xs @ drop (Suc i) xs"

lemma length_splice1: "i < length xs \<Longrightarrow> length (splice1 i xs) = length xs - 1"
  by (simp add: splice1_def)

lemma splice1_append [simp]: "splice1 (length xs) (xs @ y # ys) = xs @ ys"
  by (simp add: splice1_def)

end
