(* ===== verification/Transport.thy ===== *)
theory Transport
  imports Prelude
begin

text \<open>
  How a task's code travels from the browser to the robot: \<open>sendTasks\<close>, \<open>testRobot\<close>,
  \<open>saveTask\<close>, \<open>toXml\<close> and \<open>saveEditedCode\<close> of \<open>js/common.js\<close> percent-encode it by hand,
  jQuery encodes the form field once more, and the server (\<open>tasks/Httpserver.lua\<close>) decodes
  it twice. The relation \<open>enc_of\<close> says when one text is a percent-encoding of
  another; every step of the chain is shown to keep it.
\<close>

subsection \<open>The encoders\<close>

definition hex_digit :: "nat \<Rightarrow> char" where
  "hex_digit n = ''0123456789ABCDEF'' ! n"

definition pct :: "char \<Rightarrow> string" where
  "pct c = [CHR ''%'', hex_digit (of_char c div 16), hex_digit (of_char c mod 16)]"

definition alnum :: "char \<Rightarrow> bool" where
  "alnum c = (let n = of_char c :: nat in
     48 \<le> n \<and> n \<le> 57 \<or> 65 \<le> n \<and> n \<le> 90 \<or> 97 \<le> n \<and> n \<le> 122)"

text \<open>The global function \<open>escape\<close>: it leaves letters, digits and \<open>@*_+-./\<close> alone.\<close>

definition js_escape :: "string \<Rightarrow> string" where
  "js_escape s = concat (map (\<lambda>c. if alnum c \<or> c \<in> set ''@*_+-./'' then [c] else pct c) s)"

text \<open>
  \<open>escape(code).replace(/\./g, "%2E").replace(/\*/g,"%2A").replace(/\+/,"%2B")\<close>;
  the last replacement has no \<open>g\<close> flag.
\<close>

definition encode_code :: "string \<Rightarrow> string" where
  "encode_code code =
     js_replace1 ''+'' ''%2B''
       (js_replaceAll ''*'' ''%2A''
         (js_replaceAll ''.'' ''%2E'' (js_escape code)))"

text \<open>
  A field of \<open>$.ajax\<close>: \<open>encodeURIComponent\<close> (UTF-8, two bytes from 128 on), then every
  \<open>%20\<close> is written as a plus sign.
\<close>

definition utf8 :: "char \<Rightarrow> char list" where
  "utf8 c = (let n = of_char c :: nat in
     if n < 128 then [c] else [char_of (192 + n div 64), char_of (128 + n mod 64)])"

definition uri_component :: "string \<Rightarrow> string" where
  "uri_component s = concat (map (\<lambda>c. if alnum c \<or> c \<in> set ''-_.!~*'' \<or> c \<in> {CHR 39, CHR 40, CHR 41}
      then [c] else concat (map pct (utf8 c))) s)"

definition form_field :: "string \<Rightarrow> string" where
  "form_field s = js_replaceAll ''%20'' ''+'' (uri_component s)"

subsection \<open>The server's decoder\<close>

definition hex_val :: "char \<Rightarrow> nat option" where
  "hex_val c = (let n = of_char c :: nat in
     if 48 \<le> n \<and> n \<le> 57 then Some (n - 48)
     else if 65 \<le> n \<and> n \<le> 70 then Some (n - 55)
     else if 97 \<le> n \<and> n \<le> 102 then Some (n - 87) else None)"

text \<open>
  \<open>url_decode\<close> of \<open>Httpserver.lua\<close>: \<open>string.gsub(s, "%%(%x%x)", ...)\<close> replaces each percent
  sign followed by two hexadecimal digits, from left to right, by the byte it names.
\<close>

fun url_decode :: "string \<Rightarrow> string" where
  "url_decode [] = []"
| "url_decode (c # s) =
     (if c = CHR ''%'' then
        (case s of
           a # b # t \<Rightarrow>
             (case (hex_val a, hex_val b) of
                (Some x, Some y) \<Rightarrow> char_of (16 * x + y) # url_decode t
              | _ \<Rightarrow> c # url_decode s)
         | _ \<Rightarrow> c # url_decode s)
      else c # url_decode s)"

text \<open>What the server makes of the field: \<open>initTask\<close> decodes it twice.\<close>

definition server_receive :: "string \<Rightarrow> string" where
  "server_receive field = url_decode (url_decode field)"

subsection \<open>Percent encodings\<close>

inductive enc_of :: "string \<Rightarrow> string \<Rightarrow> bool" where
  enc_Nil: "enc_of [] []"
| enc_keep: "c \<noteq> CHR ''%'' \<Longrightarrow> enc_of s t \<Longrightarrow> enc_of (c # s) (c # t)"
| enc_pct: "enc_of s t \<Longrightarrow> enc_of (c # s) (pct c @ t)"

inductive_cases enc_of_NilE: "enc_of [] t"
inductive_cases enc_of_ConsE: "enc_of (c # s) t"


lemma less_16: "n < (16 :: nat) \<Longrightarrow> n \<in> {0, 1, 2, 3, 4, 5, 6, 7, 8, 9, 10, 11, 12, 13, 14, 15}"
  by (simp only: insert_iff empty_iff) presburger

lemma hex_val_digit [js_simps]: "n < 16 \<Longrightarrow> hex_val (hex_digit n) = Some n"
  by (drule less_16) (auto simp: hex_val_def hex_digit_def)

lemma url_decode_pct [js_simps]: "url_decode (pct c @ t) = c # url_decode t"
proof -
  have "of_char c div 16 < (16 :: nat)" using nat_of_char_less_256 [of c] by linarith
  then show ?thesis by (simp add: pct_def js_simps)
qed

lemma enc_of_decode: "enc_of s t \<Longrightarrow> url_decode t = s"
  by (induction rule: enc_of.induct) (auto simp: js_simps)

lemma enc_of_concat:
  "\<forall>c \<in> set s. f c = pct c \<or> (f c = [c] \<and> c \<noteq> CHR ''%'') \<Longrightarrow> enc_of s (concat (map f s))"
proof (induction s)
  case Nil
  then show ?case by (simp add: enc_of.enc_Nil)
next
  case (Cons c s)
  then have IH: "enc_of s (concat (map f s))" by simp
  from Cons.prems have "f c = pct c \<or> (f c = [c] \<and> c \<noteq> CHR ''%'')" by simp
  then show ?case
    using enc_of.enc_pct [OF IH, of c] enc_of.enc_keep [OF _ IH, of c] by auto
qed

text \<open>The characters that occur in the two digits of an escape.\<close>

lemma hex_digit_alnum: "n < 16 \<Longrightarrow> alnum (hex_digit n)"
  by (drule less_16) (auto simp: alnum_def hex_digit_def)

lemma pct_shape: "\<exists>a b. pct c = [CHR ''%'', a, b] \<and> alnum a \<and> alnum b"
proof -
  have "of_char c div 16 < (16 :: nat)" using nat_of_char_less_256 [of c] by linarith
  then show ?thesis by (auto simp: pct_def hex_digit_alnum)
qed

lemma pct_clean: "\<not> alnum p \<Longrightarrow> p \<noteq> CHR ''%'' \<Longrightarrow> p \<notin> set (pct c)"
  using pct_shape [of c] by auto

subsection \<open>Every step of the chain keeps the encoding\<close>

lemma enc_of_escape: "enc_of s (js_escape s)"
  unfolding js_escape_def by (rule enc_of_concat) (auto simp: alnum_def)

lemma concat_map_clean: "p \<notin> set t \<Longrightarrow> concat (map (\<lambda>c. if c = p then r else [c]) t) = t"
  by (induction t) auto

lemma enc_of_replaceAll:
  assumes "enc_of s t" and p: "\<not> alnum p" "p \<noteq> CHR ''%''"
  shows "enc_of s (js_replaceAll [p] (pct p) t)"
  using assms(1) unfolding js_replaceAll_single
proof (induction rule: enc_of.induct)
  case (enc_pct s t c)
  then show ?case
    using pct_clean [OF p, of c] by (simp add: concat_map_clean enc_of.enc_pct)
qed (auto intro: enc_of.intros)

lemma enc_of_replace1:
  assumes "enc_of s t" and p: "\<not> alnum p" "p \<noteq> CHR ''%''"
  shows "enc_of s (js_replace1 [p] (pct p) t)"
  using assms(1)
proof (induction rule: enc_of.induct)
  case enc_Nil
  then show ?case by (simp add: js_replace1_def enc_of.enc_Nil)
next
  case (enc_keep c s t)
  then show ?case
    by (auto simp: js_replace1_def enc_of.intros split: option.splits)
next
  case (enc_pct s t c)
  obtain a b where ab: "pct c = [CHR ''%'', a, b]" "alnum a" "alnum b"
    using pct_shape by blast
  with p have "a \<noteq> p" "b \<noteq> p" by auto
  then have "js_replace1 [p] (pct p) (pct c @ t) = pct c @ js_replace1 [p] (pct p) t"
    using ab p by (simp add: js_replace1_def split: option.splits)
  with enc_pct.IH show ?case by (simp add: enc_of.enc_pct)
qed

lemma pct_consts: "pct CHR ''.'' = ''%2E''" "pct CHR ''*'' = ''%2A''" "pct CHR ''+'' = ''%2B''"
  by (simp_all add: pct_def hex_digit_def)

lemma enc_of_encode_code: "enc_of s (encode_code s)"
proof -
  let ?r = "\<lambda>p. js_replaceAll [p] (pct p)"
  have "enc_of s (?r CHR ''*'' (?r CHR ''.'' (js_escape s)))"
    by (intro enc_of_replaceAll enc_of_escape) (simp_all add: alnum_def)
  then have "enc_of s (js_replace1 [CHR ''+''] (pct CHR ''+'') (?r CHR ''*'' (?r CHR ''.'' (js_escape s))))"
    by (rule enc_of_replace1) (simp_all add: alnum_def)
  then show ?thesis by (simp add: encode_code_def pct_consts)
qed

text \<open>The characters that can occur in the encoded code: none of them is a space.\<close>

definition code_char :: "char \<Rightarrow> bool" where
  "code_char c \<longleftrightarrow> alnum c \<or> c \<in> set ''%@_+-/''"

lemma code_char_ascii: "code_char c \<Longrightarrow> of_char c < (128 :: nat) \<and> c \<noteq> CHR '' ''"
  by (auto simp: code_char_def alnum_def Let_def)

lemma all_replaceAll:
  "\<forall>x \<in> set t. P x \<or> x = p \<Longrightarrow> \<forall>x \<in> set r. P x \<Longrightarrow> \<forall>x \<in> set (js_replaceAll [p] r t). P x"
  by (auto simp: js_replaceAll_single split: if_splits)

lemma all_replace1:
  "\<forall>x \<in> set t. P x \<Longrightarrow> \<forall>x \<in> set r. P x \<Longrightarrow> \<forall>x \<in> set (js_replace1 p r t). P x"
  by (auto simp: js_replace1_def dest: break_at_Some split: option.splits)

lemma pct_chars: "x \<in> set (pct c) \<Longrightarrow> alnum x \<or> x = CHR ''%''"
  using pct_shape [of c] by auto

lemma set_escape: "x \<in> set (js_escape s) \<Longrightarrow> code_char x \<or> x = CHR ''.'' \<or> x = CHR ''*''"
  by (auto simp: js_escape_def code_char_def dest: pct_chars split: if_splits)

lemma set_encode_code: "\<forall>x \<in> set (encode_code s). code_char x"
proof -
  let ?t = "js_replaceAll ''.'' ''%2E'' (js_escape s)"
  have "\<forall>x \<in> set ?t. code_char x \<or> x = CHR ''*''"
    by (rule all_replaceAll) (auto simp: code_char_def alnum_def dest: set_escape)
  then have "\<forall>x \<in> set (js_replaceAll ''*'' ''%2A'' ?t). code_char x"
    by (rule all_replaceAll) (simp add: code_char_def alnum_def)
  then show ?thesis
    unfolding encode_code_def by (rule all_replace1) (simp add: code_char_def alnum_def)
qed

lemma enc_of_uri: "\<forall>c \<in> set s. of_char c < (128 :: nat) \<Longrightarrow> enc_of s (uri_component s)"
  unfolding uri_component_def
  by (rule enc_of_concat) (auto simp: alnum_def utf8_def Let_def)

lemma pct_inject: "pct c = pct d \<longleftrightarrow> c = d"
  by (metis append_Nil2 list.inject url_decode_pct)

lemma enc_of_no_space: "enc_of s u \<Longrightarrow> CHR '' '' \<notin> set s \<Longrightarrow> break_at ''%20'' u = None"
proof (induction rule: enc_of.induct)
  case (enc_pct s t c)
  have sp: "pct CHR '' '' = ''%20''" by (simp add: pct_def hex_digit_def)
  obtain a b where ab: "pct c = [CHR ''%'', a, b]" "alnum a" "alnum b"
    using pct_shape by blast
  have "pct c \<noteq> ''%20''" using enc_pct.prems sp pct_inject [of c "CHR '' ''"] by auto
  moreover have "a \<noteq> CHR ''%''" "b \<noteq> CHR ''%''" using ab(2,3) by (auto simp: alnum_def)
  ultimately show ?case using ab enc_pct by auto
qed auto

lemma form_field_no_space:
  assumes "\<forall>c \<in> set s. of_char c < (128 :: nat) \<and> c \<noteq> CHR '' ''"
  shows "form_field s = uri_component s"
proof -
  have "enc_of s (uri_component s)" using assms by (intro enc_of_uri) auto
  then have "break_at ''%20'' (uri_component s) = None"
    using assms by (intro enc_of_no_space) auto
  then show ?thesis by (simp add: form_field_def js_replaceAll_def js_split_None)
qed

subsection \<open>Encoders as codecs\<close>

text \<open>
  The interface the senders rely on: a decoder that inverts an encoder on the texts the
  encoder accepts. Two codecs compose when the inner one's output is accepted by the outer.
\<close>

locale codec =
  fixes enc :: "string \<Rightarrow> string" and dec :: "string \<Rightarrow> string" and ok :: "string \<Rightarrow> bool"
  assumes dec_enc: "ok s \<Longrightarrow> dec (enc s) = s"
begin

lemma enc_inject: "ok s \<Longrightarrow> ok t \<Longrightarrow> enc s = enc t \<longleftrightarrow> s = t"
  by (metis dec_enc)

lemma codec_compose:
  assumes "codec enc' dec' ok'" and "\<And>s. ok s \<Longrightarrow> ok' (enc s)"
  shows "codec (\<lambda>s. enc' (enc s)) (\<lambda>s. dec (dec' s)) ok"
  using assms dec_enc by (auto simp: codec_def)

end

interpretation code_codec: codec encode_code url_decode "\<lambda>_. True"
  by unfold_locales (simp add: enc_of_decode [OF enc_of_encode_code])

interpretation form_codec: codec form_field url_decode
    "\<lambda>s. \<forall>c \<in> set s. of_char c < (128 :: nat) \<and> c \<noteq> CHR '' ''"
  by unfold_locales (simp add: form_field_no_space enc_of_decode [OF enc_of_uri])

interpretation task_codec: codec "\<lambda>s. form_field (encode_code s)" server_receive "\<lambda>_. True"
  unfolding server_receive_def
  by (rule code_codec.codec_compose [OF form_codec.codec_axioms])
     (use set_encode_code code_char_ascii in blast)


end
