(* ===== verification/Cookies.thy ===== *)
theory Cookies
  imports Prelude
begin

text \<open>
  The cookies of the page: \<open>Yatay.Common.setCookie\<close> and \<open>Yatay.Common.getCookie\<close> of
  \<open>js/common.js\<close> over the browser's cookie jar, and the interface of a keyed store that the
  rest of the front end uses them through. The jar is an association list; reading
  \<open>document.cookie\<close> prints it, assigning to \<open>document.cookie\<close> adds or replaces one entry.
\<close>

subsection \<open>A keyed store\<close>

locale kv_store =
  fixes get :: "'k \<Rightarrow> 's \<Rightarrow> 'v"
    and put :: "'k \<Rightarrow> 'v \<Rightarrow> 's \<Rightarrow> 's"
    and key_ok :: "'k \<Rightarrow> bool" and val_ok :: "'v \<Rightarrow> bool" and inv :: "'s \<Rightarrow> bool"
  assumes inv_put: "inv s \<Longrightarrow> key_ok k \<Longrightarrow> val_ok v \<Longrightarrow> inv (put k v s)"
    and get_put: "inv s \<Longrightarrow> key_ok k \<Longrightarrow> val_ok v \<Longrightarrow> key_ok k' \<Longrightarrow>
      get k' (put k v s) = (if k' = k then v else get k' s)"
begin

lemma inv_puts:
  "inv s \<Longrightarrow> \<forall>(k, v) \<in> set kvs. key_ok k \<and> val_ok v \<Longrightarrow> inv (fold (\<lambda>(k, v). put k v) kvs s)"
  by (induction kvs arbitrary: s) (auto intro: inv_put)

text \<open>After any sequence of writes a key reads as its last write, or as before.\<close>

lemma get_puts:
  "inv s \<Longrightarrow> \<forall>(k, v) \<in> set kvs. key_ok k \<and> val_ok v \<Longrightarrow> key_ok k' \<Longrightarrow>
   get k' (fold (\<lambda>(k, v). put k v) kvs s) =
     (case map_of (rev kvs) k' of None \<Rightarrow> get k' s | Some v \<Rightarrow> v)"
proof (induction kvs arbitrary: s)
  case Nil
  then show ?case by simp
next
  case (Cons kv kvs)
  obtain k v where kv: "kv = (k, v)" by (cases kv)
  with Cons.prems have "inv (put k v s)" by (auto intro: inv_put)
  then show ?case
    using Cons kv by (auto simp: get_put map_add_def split: option.splits)
qed

end

subsection \<open>The jar and \<open>document.cookie\<close>\<close>

type_synonym jar = "(string \<times> string) list"

definition cookie_text :: "jar \<Rightarrow> string" where
  "cookie_text j = js_join ''; '' (map (\<lambda>(k, v). k @ ''='' @ v) j)"

fun jar_put :: "string \<Rightarrow> string \<Rightarrow> jar \<Rightarrow> jar" where
  "jar_put k v [] = [(k, v)]"
| "jar_put k v ((k', v') # j) = (if k' = k then (k, v) # j else (k', v') # jar_put k v j)"

text \<open>
  Assigning to \<open>document.cookie\<close>: the text up to the first semicolon is the pair, split at
  its first equals sign and trimmed; an expiry date in the past deletes the entry.
\<close>

definition cookie_assign :: "string \<Rightarrow> bool \<Rightarrow> jar \<Rightarrow> jar" where
  "cookie_assign text expired j =
     (let pair = (case break_at '';'' text of None \<Rightarrow> text | Some (a, _) \<Rightarrow> a);
          (k, v) = (case break_at ''='' pair of None \<Rightarrow> ([], js_trim pair)
                    | Some (a, b) \<Rightarrow> (js_trim a, js_trim b))
      in if expired then filter (\<lambda>e. fst e \<noteq> k) j else jar_put k v j)"

subsection \<open>\<open>setCookie\<close> and \<open>getCookie\<close>\<close>

text \<open>
  \<open>gmt\<close> is the text \<open>toGMTString\<close> gives for a time in milliseconds, \<open>now\<close> the current time.
\<close>

definition setCookie :: "(int \<Rightarrow> string) \<Rightarrow> int \<Rightarrow> string \<Rightarrow> string \<Rightarrow> int \<Rightarrow> jar \<Rightarrow> jar" where
  "setCookie gmt now cname cvalue exdays j =
     (let d = now + exdays * 24 * 60 * 60 * 1000;
          expires = ''expires='' @ gmt d
      in cookie_assign (cname @ ''='' @ cvalue @ ''; '' @ expires) (d \<le> now) j)"

text \<open>The value is nullable, as the callers compare it with \<open>null\<close>.\<close>

fun cookie_scan :: "string \<Rightarrow> string list \<Rightarrow> string option" where
  "cookie_scan name [] = Some []"
| "cookie_scan name (c0 # ca) =
     (let c = js_trim c0 in
      if js_indexOf name c = Some 0 then Some (drop (length name) c) else cookie_scan name ca)"

definition getCookie :: "string \<Rightarrow> jar \<Rightarrow> string option" where
  "getCookie cname j = cookie_scan (cname @ ''='') (js_split '';'' (cookie_text j))"

subsection \<open>Reading back what the jar holds\<close>

definition name_ok :: "string \<Rightarrow> bool" where
  "name_ok k \<longleftrightarrow> k \<noteq> [] \<and> CHR ''='' \<notin> set k \<and> CHR '';'' \<notin> set k \<and>
     \<not> js_space (hd k) \<and> \<not> js_space (last k)"

definition value_ok :: "string \<Rightarrow> bool" where
  "value_ok v \<longleftrightarrow> CHR '';'' \<notin> set v \<and> (v = [] \<or> (\<not> js_space (hd v) \<and> \<not> js_space (last v)))"

definition wf_jar :: "jar \<Rightarrow> bool" where
  "wf_jar j \<longleftrightarrow> (\<forall>(k, v) \<in> set j. name_ok k \<and> value_ok v)"

lemma not_space_eq [simp]: "\<not> js_space CHR ''=''"
  by (simp add: js_space_def)

lemma entry_prefix:
  assumes "CHR ''='' \<notin> set n" "CHR ''='' \<notin> set k"
  shows "is_prefix (n @ ''='') (k @ CHR ''='' # v) \<longleftrightarrow> n = k"
proof
  assume "is_prefix (n @ ''='') (k @ CHR ''='' # v)"
  then obtain r where "k @ CHR ''='' # v = n @ CHR ''='' # r" by (auto simp: is_prefix_iff)
  then show "n = k"
    using break_at_append_singleton [OF assms(1), of r] break_at_append_singleton [OF assms(2), of v]
    by simp
qed (simp add: is_prefix_iff)

lemma entry_trim:
  "name_ok k \<Longrightarrow> value_ok v \<Longrightarrow> js_trim (k @ CHR ''='' # v) = k @ CHR ''='' # v"
  by (rule js_trim_id) (auto simp: name_ok_def value_ok_def)

lemma cookie_scan_entries:
  assumes "wf_jar j" and n: "CHR ''='' \<notin> set n"
    and cs: "list_all2 (\<lambda>c (k, v). js_trim c = k @ CHR ''='' # v) cs j"
  shows "cookie_scan (n @ ''='') cs = Some (case map_of j n of None \<Rightarrow> [] | Some v \<Rightarrow> v)"
  using cs assms(1)
proof (induction rule: list_all2_induct)
  case Nil
  then show ?case by simp
next
  case (Cons c cs kv j)
  obtain k v where kv: "kv = (k, v)" by (cases kv)
  with Cons.prems have "CHR ''='' \<notin> set k" by (auto simp: wf_jar_def name_ok_def)
  moreover have "wf_jar j" using Cons.prems by (simp add: wf_jar_def)
  ultimately show ?case
    using Cons.hyps Cons.IH kv n by (auto simp: js_indexOf_0 entry_prefix Let_def)
qed

lemma list_all2_mono_set:
  "list_all2 P xs ys \<Longrightarrow> (\<And>x y. y \<in> set ys \<Longrightarrow> P x y \<Longrightarrow> Q x y) \<Longrightarrow> list_all2 Q xs ys"
  by (auto simp: list_all2_conv_all_nth)

lemma cookie_pieces_raw:
  assumes "wf_jar j" and "j \<noteq> []"
  shows "list_all2 (\<lambda>c (k, v). c = k @ CHR ''='' # v \<or> c = CHR 32 # k @ CHR ''='' # v) (js_split '';'' (cookie_text j)) j"
proof -
  let ?xs = "map (\<lambda>(k, v). k @ CHR ''='' # v) j"
  obtain e j' where j: "j = e # j'" using assms(2) by (cases j) auto
  have clean: "\<forall>x \<in> set ?xs. CHR '';'' \<notin> set x"
    using assms(1) by (fastforce simp: wf_jar_def name_ok_def value_ok_def)
  have "js_split '';'' (cookie_text j) = hd ?xs # map ((@) '' '') (tl ?xs)"
    using js_split_join [of "CHR '';''" "'' ''" ?xs] clean j by (simp add: cookie_text_def)
  then show ?thesis
    using j by (auto simp: list_all2_conv_all_nth nth_Cons split: nat.splits prod.splits)
qed

lemma cookie_pieces:
  assumes "wf_jar j" and "j \<noteq> []"
  shows "list_all2 (\<lambda>c (k, v). js_trim c = k @ CHR ''='' # v) (js_split '';'' (cookie_text j)) j"
  using cookie_pieces_raw [OF assms]
proof (rule list_all2_mono_set)
  fix c e
  assume "e \<in> set j" and c: "case e of (k, v) \<Rightarrow> c = k @ CHR ''='' # v \<or> c = CHR 32 # k @ CHR ''='' # v"
  then show "case e of (k, v) \<Rightarrow> js_trim c = k @ CHR ''='' # v"
    using assms(1) by (auto simp: wf_jar_def entry_trim js_space_def)
qed

lemma getCookie_lookup:
  assumes "wf_jar j" and "CHR ''='' \<notin> set n"
  shows "getCookie n j = Some (case map_of j n of None \<Rightarrow> [] | Some v \<Rightarrow> v)"
proof (cases "j = []")
  case True
  then show ?thesis
    by (simp add: getCookie_def cookie_text_def js_split_clean js_trim_def js_indexOf_0 is_prefix_iff)
next
  case False
  then show ?thesis
    using cookie_scan_entries [OF assms(1,2) cookie_pieces [OF assms(1)]]
    by (simp add: getCookie_def)
qed

subsection \<open>The jar is a keyed store\<close>

lemma map_of_jar_put: "map_of (jar_put k v j) = (map_of j)(k \<mapsto> v)"
  by (induction k v j rule: jar_put.induct) auto

lemma wf_jar_put: "wf_jar j \<Longrightarrow> name_ok k \<Longrightarrow> value_ok v \<Longrightarrow> wf_jar (jar_put k v j)"
  by (induction k v j rule: jar_put.induct) (auto simp: wf_jar_def)

lemma setCookie_put:
  assumes "name_ok k" and "value_ok v" and "0 < d"
  shows "setCookie gmt now k v d j = jar_put k v j"
proof -
  have "CHR '';'' \<notin> set (k @ CHR ''='' # v)"
    using assms by (auto simp: name_ok_def value_ok_def)
  then have "break_at '';'' ((k @ CHR ''='' # v) @ CHR '';'' # r) = Some (k @ CHR ''='' # v, r)" for r
    by (rule break_at_append_singleton)
  then have "break_at '';'' (k @ CHR ''='' # v @ CHR '';'' # r) = Some (k @ CHR ''='' # v, r)" for r
    by simp
  moreover have "break_at ''='' (k @ CHR ''='' # v) = Some (k, v)"
    using assms by (intro break_at_append_singleton) (simp add: name_ok_def)
  moreover have "js_trim k = k" "js_trim v = v"
    using assms by (auto intro!: js_trim_id simp: name_ok_def value_ok_def)
  ultimately show ?thesis
    using assms(3) by (simp add: setCookie_def cookie_assign_def Let_def)
qed

interpretation jar_store: kv_store getCookie "\<lambda>k v. setCookie gmt now k (js_str v) 1"
    name_ok "\<lambda>v. \<exists>s. v = Some s \<and> value_ok s" wf_jar
  for gmt now
proof unfold_locales
  fix j k v
  assume a: "wf_jar j" "name_ok k" "\<exists>s. v = Some s \<and> value_ok s"
  then obtain s where s: "v = Some s" "value_ok s" by blast
  with a show wf: "wf_jar (setCookie gmt now k (js_str v) 1 j)"
    by (simp add: setCookie_put wf_jar_put js_str_def)
  fix k'
  assume "name_ok k'"
  with a s wf show "getCookie k' (setCookie gmt now k (js_str v) 1 j) = (if k' = k then v else getCookie k' j)"
    by (simp add: getCookie_lookup setCookie_put wf_jar_put map_of_jar_put js_str_def name_ok_def)
qed

text \<open>C24. The cookies behave as a map: after the page has set any sequence of cookies, reading one
  gives the last value set for it, the value it had before if none was set, and the empty
  string if there was none. Names and values are those a cookie can carry (no semicolon, no
  outer white space, no equals sign in the name).
\<close>

theorem getCookie_after_setCookies:
  assumes "wf_jar j" and "\<forall>(k, v) \<in> set kvs. name_ok k \<and> value_ok v" and "name_ok n"
  shows "getCookie n (fold (\<lambda>(k, v). setCookie gmt now k v 1) kvs j) =
    Some (case map_of (rev kvs) n of Some v \<Rightarrow> v
          | None \<Rightarrow> (case map_of j n of Some v \<Rightarrow> v | None \<Rightarrow> []))"
proof -
  let ?some = "map (\<lambda>(k, v). (k, Some v))"
  have fold_eq: "fold (\<lambda>(k, v). setCookie gmt now k (js_str v) 1) (?some kvs) j =
      fold (\<lambda>(k, v). setCookie gmt now k v 1) kvs j"
    by (induction kvs arbitrary: j) (auto simp: js_str_def)
  have map_eq: "map_of (rev (?some kvs)) n = map_option Some (map_of (rev kvs) n)"
    by (simp add: rev_map map_of_map)
  have "\<forall>(k, v) \<in> set (?some kvs). name_ok k \<and> (\<exists>s. v = Some s \<and> value_ok s)"
    using assms(2) by auto
  then have "getCookie n (fold (\<lambda>(k, v). setCookie gmt now k (js_str v) 1) (?some kvs) j) =
      (case map_of (rev (?some kvs)) n of None \<Rightarrow> getCookie n j | Some v \<Rightarrow> v)"
    by (rule jar_store.get_puts [OF assms(1) _ assms(3)])
  then show ?thesis
    unfolding fold_eq map_eq using assms(1,3)
    by (simp add: getCookie_lookup name_ok_def split: option.splits)
qed

theorem getCookie_after_setCookies_witness:
  "getCookie ''idUser'' (fold (\<lambda>(k, v). setCookie (\<lambda>_. ''Thu'') 0 k v 1)
      [(''idUser'', ''3''), (''lang'', ''es''), (''idUser'', ''7'')] [(''idUser'', ''1'')]) = Some ''7''"
  using getCookie_after_setCookies
    [of "[(''idUser'', ''1'')]" "[(''idUser'', ''3''), (''lang'', ''es''), (''idUser'', ''7'')]"
        "''idUser''" "\<lambda>_. ''Thu''" 0]
  by (simp add: wf_jar_def name_ok_def value_ok_def js_space_def)

lemma getCookie_exists: "\<exists>v. getCookie n j = Some v"
proof -
  have "cookie_scan m cs \<noteq> None" for m cs
    by (induction m cs rule: cookie_scan.induct) (auto simp: Let_def)
  then show ?thesis by (simp add: getCookie_def)
qed

text \<open>\<open>getCookie\<close> never yields \<open>null\<close>: a missing cookie reads as the empty string. So the test
  \<open>idUser == null\<close> that guards \<open>sendTasks\<close>, \<open>testRobot\<close>, \<open>killTasks\<close> and both polls never
  fires, and a page without a user id goes on with an empty one.
\<close>

lemma getCookie_never_null: "getCookie n j \<noteq> None"
  using getCookie_exists [of n j] by auto

end
