(* ===== verification/Json.thy ===== *)
theory Json
  imports Prelude Transport
begin

text \<open>
  \<open>JSON.stringify\<close> and \<open>JSON.parse\<close> on the values the front end keeps in
  \<open>localStorage\<close> and receives from the server: arrays of strings, nested. The parser takes
  fuel; the length of its input is enough for every text that \<open>json_text\<close> prints.
\<close>

datatype json = JStr string | JArr "json list"

subsection \<open>Printing\<close>

definition lower_hex :: "nat \<Rightarrow> char" where
  "lower_hex n = ''0123456789abcdef'' ! n"

definition json_escape :: "char \<Rightarrow> string" where
  "json_escape c =
     (if c = CHR 34 then [CHR 92, CHR 34]
      else if c = CHR 92 then [CHR 92, CHR 92]
      else if c = CHR 8 then [CHR 92, CHR ''b'']
      else if c = CHR 12 then [CHR 92, CHR ''f'']
      else if c = CHR 10 then [CHR 92, CHR ''n'']
      else if c = CHR 13 then [CHR 92, CHR ''r'']
      else if c = CHR 9 then [CHR 92, CHR ''t'']
      else if of_char c < (32 :: nat)
        then [CHR 92, CHR ''u'', CHR ''0'', CHR ''0'', lower_hex (of_char c div 16), lower_hex (of_char c mod 16)]
      else [c])"

fun json_text :: "json \<Rightarrow> string" where
  "json_text (JStr s) = CHR 34 # concat (map json_escape s) @ [CHR 34]"
| "json_text (JArr vs) = CHR ''['' # js_join '','' (map json_text vs) @ '']''"

subsection \<open>Parsing\<close>

definition json_ws :: "char \<Rightarrow> bool" where
  "json_ws c \<longleftrightarrow> c \<in> {CHR 32, CHR 9, CHR 10, CHR 13}"

abbreviation skip_ws :: "string \<Rightarrow> string" where
  "skip_ws s \<equiv> dropWhile json_ws s"

text \<open>The character after a backslash, other than \<open>u\<close>.\<close>

definition json_unescape :: "char \<Rightarrow> char option" where
  "json_unescape c = map_of [(CHR 34, CHR 34), (CHR 92, CHR 92), (CHR ''/'', CHR ''/''), (CHR ''b'', CHR 8),
     (CHR ''f'', CHR 12), (CHR ''n'', CHR 10), (CHR ''r'', CHR 13), (CHR ''t'', CHR 9)] c"

fun json_u :: "string \<Rightarrow> (char \<times> string) option" where
  "json_u (a # b # c # d # r) =
     (case (hex_val a, hex_val b, hex_val c, hex_val d) of
        (Some 0, Some 0, Some x, Some y) \<Rightarrow> Some (char_of (16 * x + y), r)
      | _ \<Rightarrow> None)"
| "json_u s = None"

lemma json_u_length: "json_u s = Some (c, r) \<Longrightarrow> length r < length s"
  by (induction s rule: json_u.induct) (auto split: option.splits nat.splits)

text \<open>The rest of a string, after its opening quote.\<close>

function json_chars :: "string \<Rightarrow> (string \<times> string) option" where
  "json_chars [] = None"
| "json_chars (c # s) =
     (if c = CHR 34 then Some ([], s)
      else if c = CHR 92 then
        (case s of [] \<Rightarrow> None
         | e # t \<Rightarrow>
             if e = CHR ''u'' then
               (case json_u t of None \<Rightarrow> None
                | Some (d, r) \<Rightarrow> map_option (\<lambda>(x, q). (d # x, q)) (json_chars r))
             else (case json_unescape e of None \<Rightarrow> None
                | Some d \<Rightarrow> map_option (\<lambda>(x, q). (d # x, q)) (json_chars t)))
      else if of_char c < (32 :: nat) then None
      else map_option (\<lambda>(x, q). (c # x, q)) (json_chars s))"
  by pat_completeness auto
termination
  by (relation "measure length") (auto dest: json_u_length)

fun json_value :: "nat \<Rightarrow> string \<Rightarrow> (json \<times> string) option"
  and json_items :: "nat \<Rightarrow> string \<Rightarrow> (json list \<times> string) option" where
  "json_value 0 s = None"
| "json_value (Suc n) s =
     (case skip_ws s of [] \<Rightarrow> None
      | c # t \<Rightarrow>
          if c = CHR 34 then map_option (\<lambda>(x, r). (JStr x, r)) (json_chars t)
          else if c = CHR ''['' then
            (if skip_ws t \<noteq> [] \<and> hd (skip_ws t) = CHR '']'' then Some (JArr [], tl (skip_ws t))
             else map_option (\<lambda>(vs, r). (JArr vs, r)) (json_items n t))
          else None)"
| "json_items 0 s = None"
| "json_items (Suc n) s =
     (case json_value n s of None \<Rightarrow> None
      | Some (v, r) \<Rightarrow>
          (case skip_ws r of [] \<Rightarrow> None
           | c # q \<Rightarrow>
               if c = CHR '','' then map_option (\<lambda>(vs, q'). (v # vs, q')) (json_items n q)
               else if c = CHR '']'' then Some ([v], q) else None))"

definition json_parse :: "string \<Rightarrow> json option" where
  "json_parse s =
     (case json_value (length s) s of
        Some (v, r) \<Rightarrow> if skip_ws r = [] then Some v else None
      | None \<Rightarrow> None)"

subsection \<open>Parsing what was printed\<close>

lemma hex_val_lower [js_simps]: "n < 16 \<Longrightarrow> hex_val (lower_hex n) = Some n"
  by (drule less_16) (auto simp: hex_val_def lower_hex_def)

lemma hex_val_0 [simp]: "hex_val CHR ''0'' = Some 0"
  by (simp add: hex_val_def)

lemma json_u_control:
  "json_u (CHR ''0'' # CHR ''0'' # lower_hex (of_char c div 16) # lower_hex (of_char c mod 16) # r) = Some (c, r)"
proof -
  have "of_char c div 16 < (16 :: nat)" using nat_of_char_less_256 [of c] by linarith
  then show ?thesis by (simp add: js_simps)
qed

lemma json_chars_escape:
  "json_chars (json_escape c @ s) = map_option (\<lambda>(x, q). (c # x, q)) (json_chars s)"
  by (simp add: json_escape_def json_unescape_def json_u_control del: json_u.simps)

lemma json_chars_text: "json_chars (concat (map json_escape s) @ CHR 34 # r) = Some (s, r)"
  by (induction s) (simp_all add: json_chars_escape)

fun json_need :: "json \<Rightarrow> nat" where
  "json_need (JStr s) = 1"
| "json_need (JArr vs) = 1 + sum_list (map (\<lambda>v. json_need v + 1) vs)"

lemma length_js_join: "vs \<noteq> [] \<Longrightarrow>
    length (js_join '','' (map f vs)) + 1 = sum_list (map (\<lambda>v. length (f v) + 1) vs)"
  by (induction vs rule: list_nonempty_induct) (auto simp: js_join_Cons)

lemma json_need_length: "json_need v \<le> length (json_text v)"
proof (induction v)
  case (JStr s)
  then show ?case by simp
next
  case (JArr vs)
  then have "sum_list (map (\<lambda>v. json_need v + 1) vs) \<le> sum_list (map (\<lambda>v. length (json_text v) + 1) vs)"
    by (intro sum_list_mono) auto
  moreover have "vs \<noteq> [] \<Longrightarrow> length (json_text (JArr vs)) = 1 + sum_list (map (\<lambda>v. length (json_text v) + 1) vs)"
    using length_js_join [of vs json_text] by simp
  ultimately show ?case by (cases "vs = []") auto
qed

lemma json_text_shape: "\<exists>c t. json_text v = c # t \<and> (c = CHR 34 \<or> c = CHR ''['')"
  by (cases v) auto

lemma skip_ws_text: "skip_ws (json_text v @ r) = json_text v @ r"
  using json_text_shape [of v] by (auto simp: json_ws_def)

lemma json_items_text:
  assumes "vs \<noteq> []"
    and "\<And>v n r. v \<in> set vs \<Longrightarrow> json_need v \<le> n \<Longrightarrow> json_value n (json_text v @ r) = Some (v, r)"
  shows "sum_list (map (\<lambda>v. json_need v + 1) vs) \<le> n \<Longrightarrow>
    json_items n (js_join '','' (map json_text vs) @ CHR '']'' # r) = Some (vs, r)"
  using assms
proof (induction vs arbitrary: n rule: list_nonempty_induct)
  case (single v)
  then obtain k where "n = Suc k" "json_need v \<le> k" by (cases n) auto
  with single show ?case by (simp add: json_ws_def)
next
  case (cons v vs)
  then obtain k where k: "n = Suc k" "json_need v \<le> k"
      "sum_list (map (\<lambda>v. json_need v + 1) vs) \<le> k"
    by (cases n) auto
  from cons k show ?case by (simp add: js_join_Cons json_ws_def)
qed

lemma json_value_text: "json_need v \<le> n \<Longrightarrow> json_value n (json_text v @ r) = Some (v, r)"
proof (induction v arbitrary: n r)
  case (JStr s)
  then obtain k where "n = Suc k" by (cases n) auto
  then show ?case by (simp add: json_ws_def json_chars_text)
next
  case (JArr vs)
  then obtain k where k: "n = Suc k" "sum_list (map (\<lambda>v. json_need v + 1) vs) \<le> k"
    by (cases n) auto
  show ?case
  proof (cases "vs = []")
    case True
    with k show ?thesis by (simp add: json_ws_def)
  next
    case False
    then have items: "json_items k (js_join '','' (map json_text vs) @ CHR '']'' # r) = Some (vs, r)"
      using JArr.IH k by (intro json_items_text) auto
    obtain v vs' where vs: "vs = v # vs'" using False by (cases vs) auto
    obtain c t where c: "json_text v = c # t" "c = CHR 34 \<or> c = CHR ''[''"
      using json_text_shape by blast
    have "\<exists>t'. js_join '','' (map json_text vs) @ CHR '']'' # r = c # t'"
      using c(1) vs by (cases vs') auto
    with items k c(2) show ?thesis by (auto simp: json_ws_def)
  qed
qed

text \<open>\<open>JSON.parse(JSON.stringify(v))\<close> is \<open>v\<close>.\<close>

lemma json_roundtrip: "json_parse (json_text v) = Some v"
  using json_value_text [OF json_need_length, of v "[]"] by (simp add: json_parse_def)

end
