(* ===== verification/Storage.thy ===== *)
theory Storage
  imports Json
begin

text \<open>
  The browser's \<open>localStorage\<close> as Yatay uses it: \<open>yatay_bxs\<close> (the behaviours, as pairs of a
  name and the XML of its blocks), \<open>yatay_bxs_autosaved\<close> (the names already saved on the server)
  and \<open>yatay_speed\<close>; and the operations of \<open>js/common.js\<close> and \<open>js/yatay.js\<close> that rewrite
  them: \<open>saveInBrowser\<close>, the removal in \<open>clearWorkspace\<close>, and \<open>Yatay.discard('All')\<close>.
\<close>

record storage =
  yatay_bxs :: "string option"
  yatay_bxs_autosaved :: "string option"
  yatay_speed :: "string option"

type_synonym saved = "(string \<times> string) list"

subsection \<open>Reading and writing the saved behaviours\<close>

definition pairs_text :: "saved \<Rightarrow> string" where
  "pairs_text l = json_text (JArr (map (\<lambda>(n, c). JArr [JStr n, JStr c]) l))"

fun pair_of :: "json \<Rightarrow> (string \<times> string) option" where
  "pair_of (JArr [JStr n, JStr c]) = Some (n, c)"
| "pair_of _ = None"

fun all_some :: "'a option list \<Rightarrow> 'a list option" where
  "all_some [] = Some []"
| "all_some (None # xs) = None"
| "all_some (Some x # xs) = map_option ((#) x) (all_some xs)"

definition pairs_of :: "string \<Rightarrow> saved option" where
  "pairs_of t = (case json_parse t of
     Some (JArr vs) \<Rightarrow> all_some (map pair_of vs) | _ \<Rightarrow> None)"

lemma all_some_map: "(\<And>x. x \<in> set xs \<Longrightarrow> f x = Some (g x)) \<Longrightarrow> all_some (map f xs) = Some (map g xs)"
  by (induction xs) auto

lemma pairs_roundtrip [simp]: "pairs_of (pairs_text l) = Some l"
proof -
  have "all_some (map (pair_of \<circ> (\<lambda>(n, c). JArr [JStr n, JStr c])) l) = Some (map (\<lambda>p. p) l)"
    by (rule all_some_map) auto
  then show ?thesis by (simp add: pairs_of_def pairs_text_def json_roundtrip comp_def del: json_text.simps)
qed

text \<open>
  \<open>if (localStorage.yatay_bxs != null && localStorage.yatay_bxs != "") ... JSON.parse(...)\<close>:
  the saved list, or an exception when the text is not one.
\<close>

definition saved_list :: "storage \<Rightarrow> saved res" where
  "saved_list st = (case yatay_bxs st of
     None \<Rightarrow> Inr []
   | Some t \<Rightarrow> if t = [] then Inr []
       else (case pairs_of t of None \<Rightarrow> Inl ''SyntaxError'' | Some l \<Rightarrow> Inr l))"

definition put_saved :: "saved \<Rightarrow> storage \<Rightarrow> storage" where
  "put_saved l st = st\<lparr>yatay_bxs := Some (pairs_text l)\<rparr>"

lemma pairs_text_notNil [simp]: "pairs_text l \<noteq> []"
  by (simp add: pairs_text_def)

lemma saved_list_put [simp]: "saved_list (put_saved l st) = Inr l"
  by (simp add: saved_list_def put_saved_def)

subsection \<open>\<open>saveInBrowser\<close>\<close>

text \<open>
  The loop over the saved list. \<open>names\<close> are the names of the behaviours in use
  (\<open>Yatay.Common.behaviours[i][2]\<close>). An entry with the saved name is overwritten and ends the
  function (\<^const>\<open>True\<close>); an entry that is in use is stepped over; any other is removed with
  \<open>splice(j, 1)\<close>, and \<open>j\<close> is incremented all the same.
\<close>

function sib_loop :: "string list \<Rightarrow> string \<Rightarrow> string \<Rightarrow> nat \<Rightarrow> saved \<Rightarrow> bool \<times> saved" where
  "sib_loop names name code j l =
     (if j < length l then
        (if fst (l ! j) = name then (True, l[j := (name, code)])
         else sib_loop names name code (Suc j)
                (if fst (l ! j) \<in> set names then l else splice1 j l))
      else (False, l))"
  by pat_completeness auto
termination
  by (relation "measure (\<lambda>(names, name, code, j, l). length l - j)") (auto simp: length_splice1)

declare sib_loop.simps [simp del]

definition saveInBrowser :: "string list \<Rightarrow> string \<Rightarrow> string \<Rightarrow> storage \<Rightarrow> storage res" where
  "saveInBrowser names name code st =
     (case saved_list st of Inl e \<Rightarrow> Inl e
      | Inr l \<Rightarrow> (case sib_loop names name code 0 l of
          (found, l') \<Rightarrow> Inr (put_saved (if found then l' else l' @ [(name, code)]) st)))"

subsection \<open>\<open>clearWorkspace\<close> and \<open>discard\<close>\<close>

text \<open>The loop of \<open>clearWorkspace\<close> that drops the first entry of a name.\<close>

fun drop_first :: "string \<Rightarrow> saved \<Rightarrow> saved" where
  "drop_first name [] = []"
| "drop_first name (e # l) = (if fst e = name then l else e # drop_first name l)"

text \<open>
  \<open>clearWorkspace\<close> with the name of the only behaviour in the workspace
  (\<^const>\<open>None\<close>: \<open>justOneBehaviour\<close> is false).
\<close>

definition forget_behaviour :: "string option \<Rightarrow> storage \<Rightarrow> storage res" where
  "forget_behaviour just_one st =
     (case just_one of None \<Rightarrow> Inr st
      | Some name \<Rightarrow>
          (if yatay_bxs st = None \<or> yatay_bxs st = Some [] then Inr st
           else (case saved_list st of Inl e \<Rightarrow> Inl e
                 | Inr l \<Rightarrow> Inr (put_saved (drop_first name l) st))))"

definition discard_storage :: "storage \<Rightarrow> storage" where
  "discard_storage st = st\<lparr>yatay_bxs := Some [], yatay_bxs_autosaved := Some []\<rparr>"

subsection \<open>What \<open>saveInBrowser\<close> keeps\<close>

text \<open>
  The loop and the append after it, by recursion on the part of the list that is still to be
  visited. The entry behind a removed one is kept without being looked at.
\<close>

fun sib_list :: "string list \<Rightarrow> string \<Rightarrow> string \<Rightarrow> saved \<Rightarrow> saved" where
  "sib_list names name code [] = [(name, code)]"
| "sib_list names name code (e # l) =
     (if fst e = name then (name, code) # l
      else if fst e \<in> set names then e # sib_list names name code l
      else (case l of [] \<Rightarrow> [(name, code)] | e' # l' \<Rightarrow> e' # sib_list names name code l'))"

definition sib_end :: "string \<Rightarrow> string \<Rightarrow> bool \<times> saved \<Rightarrow> saved" where
  "sib_end name code r = (case r of (found, l') \<Rightarrow> if found then l' else l' @ [(name, code)])"

lemma sib_loop_list:
  "sib_end name code (sib_loop names name code (length pre) (pre @ l)) = pre @ sib_list names name code l"
proof (induction names name code l arbitrary: pre rule: sib_list.induct)
  case (1 names name code)
  then show ?case by (simp add: sib_loop.simps sib_end_def)
next
  case (2 names name code e l)
  show ?case
  proof (cases "fst e = name")
    case True
    then show ?thesis by (subst sib_loop.simps) (simp add: sib_end_def)
  next
    case other: False
    show ?thesis
    proof (cases "fst e \<in> set names")
      case True
      then show ?thesis
        using other "2.IH"(1) [of "pre @ [e]"] by (subst sib_loop.simps) simp
    next
      case False
      then have step: "sib_loop names name code (length pre) (pre @ e # l) =
          sib_loop names name code (Suc (length pre)) (pre @ l)"
        using other by (subst sib_loop.simps) simp
      show ?thesis
      proof (cases l)
        case Nil
        then show ?thesis using other False step by (simp add: sib_loop.simps sib_end_def)
      next
        case (Cons e' l')
        then show ?thesis
          using other False step "2.IH"(2) [OF other False Cons, of "pre @ [e']"] by simp
      qed
    qed
  qed
qed

lemma saveInBrowser_list:
  assumes "saved_list st = Inr l"
  shows "saveInBrowser names name code st = Inr (put_saved (sib_list names name code l) st)"
  using sib_loop_list [of name code names "[]" l] assms
  by (cases "sib_loop names name code 0 l") (simp add: saveInBrowser_def sib_end_def)

lemma sib_list_has: "(name, code) \<in> set (sib_list names name code l)"
proof (induction names name code l rule: sib_list.induct)
  case (2 names name code e l)
  then show ?case by (cases l) auto
qed simp

lemma sib_list_keeps:
  "e \<in> set l \<Longrightarrow> fst e \<noteq> name \<Longrightarrow> fst e \<in> set names \<Longrightarrow> e \<in> set (sib_list names name code l)"
proof (induction names name code l rule: sib_list.induct)
  case (2 names name code e l)
  then show ?case by (cases l) auto
qed simp

text \<open>Without obsolete entries the function is an update of the first match, or an append.\<close>

lemma sib_list_from: "e \<in> set (sib_list names name code l) \<Longrightarrow> e = (name, code) \<or> e \<in> set l"
proof (induction names name code l rule: sib_list.induct)
  case (2 names name code e' l)
  then show ?case by (cases l) (auto split: if_splits)
qed simp

lemma sib_list_live:
  "fst ` set l \<subseteq> insert name (set names) \<Longrightarrow>
   map_of (sib_list names name code l) = (map_of l)(name \<mapsto> code)"
  by (induction l) auto

lemma sib_list_distinct:
  "fst ` set l \<subseteq> insert name (set names) \<Longrightarrow> distinct (map fst l) \<Longrightarrow>
   distinct (map fst (sib_list names name code l))"
proof (induction l)
  case (Cons e l)
  have "fst e \<notin> fst ` set (sib_list names name code l)" if "fst e \<noteq> name"
  proof
    assume "fst e \<in> fst ` set (sib_list names name code l)"
    then obtain x where x: "x \<in> set (sib_list names name code l)" "fst x = fst e" by auto
    have "fst e \<notin> fst ` set l" using Cons.prems(2) by simp
    with sib_list_from [OF x(1)] that x(2) show False by (metis fst_conv image_eqI)
  qed
  with Cons show ?case by auto
qed simp

lemma sib_list_pre:
  "fst ` set pre \<subseteq> set names - {name} \<Longrightarrow>
   sib_list names name code (pre @ l) = pre @ sib_list names name code l"
  by (induction pre) auto

text \<open>The storage of a browser that has not seen the page yet.\<close>

definition empty_storage :: storage where
  "empty_storage = \<lparr>yatay_bxs = None, yatay_bxs_autosaved = None, yatay_speed = None\<rparr>"

text \<open>C16. Saving a behaviour in the browser never loses work in use: the new code of the behaviour
  is in the saved list afterwards, and so is every entry of another behaviour in use.
\<close>

theorem saveInBrowser_keeps_live:
  assumes "saved_list st = Inr l"
  shows "\<exists>l'. saveInBrowser names name code st = Inr (put_saved l' st) \<and> (name, code) \<in> set l' \<and>
    {e \<in> set l. fst e \<in> set names \<and> fst e \<noteq> name} \<subseteq> set l'"
  using saveInBrowser_list [OF assms] sib_list_has sib_list_keeps by blast

theorem saveInBrowser_keeps_live_witness:
  "\<exists>l'. saveInBrowser [''b''] ''a'' ''new'' (put_saved [(''old'', ''x''), (''b'', ''y'')] empty_storage) =
    Inr (put_saved l' (put_saved [(''old'', ''x''), (''b'', ''y'')] empty_storage)) \<and> (''b'', ''y'') \<in> set l'"
  using saveInBrowser_keeps_live
    [OF saved_list_put [of "[(''old'', ''x''), (''b'', ''y'')]" empty_storage], of "[''b'']" "''a''" "''new''"]
  by fastforce

text \<open>C25. When every saved entry is of a behaviour in use or of the one being saved, \<open>saveInBrowser\<close>
  is exactly a map update, and it keeps the names distinct.
\<close>

theorem saveInBrowser_updates:
  assumes "saved_list st = Inr l" and "fst ` set l \<subseteq> insert name (set names)"
    and "distinct (map fst l)"
  shows "\<exists>l'. saveInBrowser names name code st = Inr (put_saved l' st) \<and>
    map_of l' = (map_of l)(name \<mapsto> code) \<and> distinct (map fst l')"
  using saveInBrowser_list [OF assms(1)] sib_list_live [OF assms(2)]
    sib_list_distinct [OF assms(2,3)] by blast

theorem saveInBrowser_updates_witness:
  "\<exists>l'. saveInBrowser [''b''] ''a'' ''new'' (put_saved [(''a'', ''x''), (''b'', ''y'')] empty_storage) =
    Inr (put_saved l' (put_saved [(''a'', ''x''), (''b'', ''y'')] empty_storage)) \<and> map_of l' ''a'' = Some ''new''"
  using saveInBrowser_updates
    [OF saved_list_put [of "[(''a'', ''x''), (''b'', ''y'')]" empty_storage], of "''a''" "[''b'']" "''new''"]
  by fastforce

text \<open>C26. An obsolete entry right before the behaviour's own entry hides the update: \<open>splice(j, 1)\<close>
  moves the own entry to position \<open>j\<close>, which the loop has already passed. The new code is
  appended behind the old one, the name is in the list twice, and the first entry of the name,
  the one a reload restores, still has the old code.
\<close>

theorem saveInBrowser_stale_shadow:
  assumes "saved_list st = Inr (pre @ (s, c) # (name, old) # post)"
    and "fst ` set pre \<subseteq> set names - {name}" and "s \<notin> set names" and "s \<noteq> name"
    and "fst ` set post \<subseteq> set names - {name}"
  shows "saveInBrowser names name code st =
      Inr (put_saved (pre @ (name, old) # post @ [(name, code)]) st) \<and>
    map_of (pre @ (name, old) # post @ [(name, code)]) name = Some old"
proof -
  have "map_of pre name = None" using assms(2) by (auto simp: map_of_eq_None_iff)
  moreover have "sib_list names name code (pre @ (s, c) # (name, old) # post) =
      pre @ (name, old) # post @ [(name, code)]"
    using assms sib_list_pre [of post names name code "[]"] by (simp add: sib_list_pre)
  ultimately show ?thesis using saveInBrowser_list [OF assms(1)] by (simp add: map_add_def)
qed

theorem saveInBrowser_stale_shadow_witness:
  "saveInBrowser [] ''a'' ''new'' (put_saved [(''gone'', ''x''), (''a'', ''old'')] empty_storage) =
    Inr (put_saved [(''a'', ''old''), (''a'', ''new'')] (put_saved [(''gone'', ''x''), (''a'', ''old'')] empty_storage))"
  using saveInBrowser_stale_shadow
    [of "put_saved [(''gone'', ''x''), (''a'', ''old'')] empty_storage" "[]" "''gone''" "''x''" "''a''" "''old''"
        "[]" "[]" "''new''"]
  by simp

end
