(* ===== verification/Blocks.thy ===== *)
theory Blocks
  imports Prelude
begin

text \<open>
  Blockly's blocks as the front end sees them (\<open>blockly_compressed.js\<close>, \<open>Blockly.Block\<close> and
  \<open>Blockly.Workspace\<close>): a block has a number, a type, named title fields, the counters of the
  if mutation, inputs that may hold a block, a next block, and flags. \<open>NoBlock\<close> is
  \<open>null\<close>, what \<open>targetBlock()\<close> gives for an empty connection. A workspace is the list
  of its top blocks.
\<close>

datatype ikind = ValueInput | StatementInput | DummyInput

record flags =
  disabled :: bool
  collapsed :: bool
  inlined :: bool
  deletable :: bool
  movable :: bool
  editable :: bool
  plugged :: bool \<comment> \<open>\<open>outputConnection && outputConnection.targetConnection\<close>\<close>

datatype block =
    NoBlock
  | Block (b_id: nat) (b_type: string) (b_titles: "(string \<times> string) list") (b_mut: "nat \<times> nat")
      (b_inputs: "input list") (b_next: block) (b_flags: flags) (b_comment: "string option")
and input = Input (i_name: string) (i_kind: ikind) (i_target: block)

text \<open>The flags of a new block.\<close>

definition new_flags :: flags where
  "new_flags = \<lparr>disabled = False, collapsed = False, inlined = False, deletable = True,
     movable = True, editable = True, plugged = False\<rparr>"

subsection \<open>Fields and inputs\<close>

text \<open>\<open>getTitleValue\<close>: the first title of that name, \<open>null\<close> without one.\<close>

definition getTitleValue :: "block \<Rightarrow> string \<Rightarrow> string option" where
  "getTitleValue b n = (case b of NoBlock \<Rightarrow> None | Block _ _ ti _ _ _ _ _ \<Rightarrow> map_of ti n)"

text \<open>\<open>getInputTargetBlock\<close>: the block in the first input of that name.\<close>

fun find_input :: "string \<Rightarrow> input list \<Rightarrow> block" where
  "find_input n [] = NoBlock"
| "find_input n (Input m k t # ins) = (if m = n then t else find_input n ins)"

fun getInputTargetBlock :: "block \<Rightarrow> string \<Rightarrow> block" where
  "getInputTargetBlock NoBlock n = NoBlock"
| "getInputTargetBlock (Block _ _ _ _ ins _ _ _) n = find_input n ins"

lemma size_find_input [termination_simp]: "size (find_input n ins) \<le> size_list size ins"
  by (induction n ins rule: find_input.induct) auto

lemma size_find_input_less: "size (find_input n ins) < Suc (size_list size ins + k)"
  using size_find_input [of n ins] by simp

subsection \<open>Descendants and the workspace\<close>

text \<open>
  The blocks right below a block: \<open>childBlocks_\<close>, in the order inputs, then next. That is the order
  of a block that was loaded; blocks connected by hand come in the order in which they were connected, on which
  nothing depends (numbers of blocks are compared only after loading).
\<close>

definition non_null :: "block list \<Rightarrow> block list" where
  "non_null bs = filter (\<lambda>b. b \<noteq> NoBlock) bs"

fun getChildren :: "block \<Rightarrow> block list" where
  "getChildren NoBlock = []"
| "getChildren (Block _ _ _ _ ins nx _ _) = non_null (map i_target ins @ [nx])"

fun getDescendants :: "block \<Rightarrow> block list" and input_descendants :: "input \<Rightarrow> block list" where
  "getDescendants NoBlock = []"
| "getDescendants (Block i ty ti mu ins nx fl cm) =
     Block i ty ti mu ins nx fl cm # concat (map input_descendants ins) @ getDescendants nx"
| "input_descendants (Input n k t) = getDescendants t"

text \<open>
  \<open>getAllBlocks\<close>: \<open>for (b = 0; b < a.length; b++) a = a.concat(a[b].getChildren())\<close>, a
  breadth-first traversal of the top blocks.
\<close>

lemma size_getChildren: "sum_list (map size (getChildren b)) \<le> size b \<and> (b \<noteq> NoBlock \<longrightarrow> sum_list (map size (getChildren b)) < size b)"
proof (cases b)
  case (Block i ty ti mu ins nx fl cm)
  have "sum_list (map size (non_null (map i_target ins))) \<le> size_list size ins"
  proof (induction ins)
    case (Cons i ins)
    then show ?case by (cases i) (auto simp: non_null_def)
  qed (simp add: non_null_def)
  with Block show ?thesis by (auto simp: non_null_def)
qed simp

function getAllBlocks :: "block list \<Rightarrow> block list" where
  "getAllBlocks [] = []"
| "getAllBlocks (b # queue) = (if b = NoBlock then getAllBlocks queue else b # getAllBlocks (queue @ getChildren b))"
  by pat_completeness auto
termination
proof (relation "measures [\<lambda>bs. sum_list (map size bs), length]", goal_cases)
  case (2 b queue)
  then show ?case by (cases b) auto
next
  case (3 b queue)
  then show ?case using size_getChildren [of b] by auto
qed auto

text \<open>The number of blocks: \<open>getAllBlocks().length\<close>.\<close>

definition countBlocks :: "block list \<Rightarrow> nat" where
  "countBlocks ws = length (getAllBlocks ws)"

lemma non_null_append [simp]: "non_null (xs @ ys) = non_null xs @ non_null ys"
  by (simp add: non_null_def)


end
