(* ===== verification/LuaCore.thy ===== *)
theory LuaCore
  imports Blocks Cookies
begin

text \<open>
  The core of the Lua generator: \<open>generators/lua.js\<close>, the parts of \<open>Blockly.Generator\<close> it
  drives (\<open>blockly_compressed.js\<close>), and the two stores of \<open>js/yatay.js\<close> that generating code
  reads and writes, the variables already declared (\<open>ExistVariable\<close>) and the custom sensors
  (\<open>CreateCustomSensor\<close>, \<open>ReturnCustomSensor\<close>). A generator is a function of the
  environment that threads this state and may throw.
\<close>

subsection \<open>State and environment\<close>

record genv =
  g_debug :: bool \<comment> \<open>\<open>Yatay.DebugMode\<close>\<close>
  g_vel :: string \<comment> \<open>\<open>String(Yatay.vel)\<close>\<close>
  g_msg :: "string \<Rightarrow> string" \<comment> \<open>\<open>Yatay.Msg\<close>\<close>
  g_num :: "string \<Rightarrow> string" \<comment> \<open>\<open>parseFloat(s).toString()\<close>\<close>
  g_less :: "string \<Rightarrow> string \<Rightarrow> bool" \<comment> \<open>\<open>parseFloat(s) < parseFloat(t)\<close>\<close>
  g_output :: "string \<Rightarrow> bool" \<comment> \<open>the types whose blocks have an output connection\<close>
  g_first :: "string option" \<comment> \<open>first title of the first block of the workspace\<close>
  g_proto :: "string \<Rightarrow> bool" \<comment> \<open>names every array inherits, such as \<open>length\<close>\<close>

record gstate =
  g_vars :: "(string \<times> string) list" \<comment> \<open>\<open>Yatay.variables\<close>: behaviour and variable\<close>
  g_sensors :: "(string \<rightharpoonup> string) option" \<comment> \<open>\<open>Yatay.complex_sensors\<close>\<close>

type_synonym 'a gm = "gstate \<Rightarrow> (string + 'a \<times> gstate)"

definition gret :: "'a \<Rightarrow> 'a gm" where
  "gret x s = Inr (x, s)"

definition gthrow :: "string \<Rightarrow> 'a gm" where
  "gthrow e s = Inl e"

definition gbind :: "'a gm \<Rightarrow> ('a \<Rightarrow> 'b gm) \<Rightarrow> 'b gm" where
  "gbind m f s = (case m s of Inl e \<Rightarrow> Inl e | Inr (x, s') \<Rightarrow> f x s')"

lemma gbind_cong [fundef_cong]:
  "m s = m' s' \<Longrightarrow> s = s' \<Longrightarrow> (\<And>x t. m' s' = Inr (x, t) \<Longrightarrow> f x t = f' x t) \<Longrightarrow> gbind m f s = gbind m' f' s'"
  by (auto simp: gbind_def split: sum.splits prod.splits)

lemma gbind_gret [simp]: "gbind (gret x) f = f x"
  by (simp add: fun_eq_iff gbind_def gret_def)

lemma gbind_gthrow [simp]: "gbind (gthrow e) f = gthrow e"
  by (simp add: fun_eq_iff gbind_def gthrow_def)

lemma gbind_assoc: "gbind (gbind m f) g = gbind m (\<lambda>x. gbind (f x) g)"
  by (auto simp: fun_eq_iff gbind_def split: sum.splits prod.splits)

lemma gbind_Inr_iff:
  "gbind m f s = Inr r \<longleftrightarrow> (\<exists>x t. m s = Inr (x, t) \<and> f x t = Inr r)"
  by (auto simp: gbind_def split: sum.splits prod.splits)

lemma gret_Inr_iff [simp]: "gret x s = Inr (y, t) \<longleftrightarrow> x = y \<and> s = t"
  by (simp add: gret_def)

lemma gthrow_Inr_iff [simp]: "gthrow e s = Inr r \<longleftrightarrow> False"
  by (simp add: gthrow_def)

subsection \<open>Declared variables and custom sensors (\<open>js/yatay.js\<close>)\<close>

text \<open>
  \<open>ExistVariable\<close> notes the variable for the behaviour in the workspace and answers whether it was
  there. The dictionary is an array object, so a name that arrays inherit is always there once
  the behaviour has an entry. The name of the behaviour is read off the first block;
  without a title there the access throws.
\<close>

definition ExistVariable :: "genv \<Rightarrow> string \<Rightarrow> bool gm" where
  "ExistVariable E v s = (case g_first E of
     None \<Rightarrow> Inl ''TypeError''
   | Some name \<Rightarrow>
       if \<not> (\<exists>w \<in> set (g_vars s). fst w = name)
         then Inr (False, s\<lparr>g_vars := (name, v) # g_vars s\<rparr>)
       else if (name, v) \<notin> set (g_vars s) \<and> \<not> g_proto E v
         then Inr (False, s\<lparr>g_vars := (name, v) # g_vars s\<rparr>)
       else Inr (True, s))"

definition ReturnCustomSensor :: "string \<Rightarrow> gstate \<Rightarrow> string \<times> gstate" where
  "ReturnCustomSensor sensor s = (case g_sensors s of
     None \<Rightarrow> ([], s\<lparr>g_sensors := Some Map.empty\<rparr>)
   | Some m \<Rightarrow> (case m sensor of Some code \<Rightarrow> (code, s) | None \<Rightarrow> ([], s)))"

text \<open>The code may be \<open>undefined\<close>, which leaves the sensor without code.\<close>

definition CreateCustomSensor :: "string \<Rightarrow> string option \<Rightarrow> gstate \<Rightarrow> gstate" where
  "CreateCustomSensor sensor code s =
     (let m = (case g_sensors s of None \<Rightarrow> Map.empty | Some m \<Rightarrow> m) in
      if code = None \<and> m sensor \<noteq> None then s\<lparr>g_sensors := Some m\<rparr>
      else s\<lparr>g_sensors := Some (m(sensor := code))\<rparr>)"

interpretation sensor_store: kv_store "\<lambda>k s. Some (fst (ReturnCustomSensor k s))" CreateCustomSensor
    "\<lambda>_. True" "\<lambda>v. v \<noteq> None" "\<lambda>_. True"
  by unfold_locales (auto simp: ReturnCustomSensor_def CreateCustomSensor_def split: option.splits)

subsection \<open>Text helpers of \<open>Blockly.Generator\<close>\<close>

text \<open>\<open>prefix + text.replace(/\n(.)/g, "\n" + prefix + "$1")\<close>.\<close>

definition line_end :: "char \<Rightarrow> bool" where
  "line_end c \<longleftrightarrow> c = CHR 10 \<or> c = CHR 13"

fun prefix_rest :: "string \<Rightarrow> string \<Rightarrow> string" where
  "prefix_rest p [] = []"
| "prefix_rest p (c # s) =
     (if c = CHR 10 \<and> s \<noteq> [] \<and> \<not> line_end (hd s) then c # p @ prefix_rest p s
      else c # prefix_rest p s)"

definition prefixLines :: "string \<Rightarrow> string \<Rightarrow> string" where
  "prefixLines text p = p @ prefix_rest p text"

text \<open>\<open>block.getCommentText()\<close>: trailing white space and spaces at line ends are removed.\<close>

fun strip_eol :: "(char \<Rightarrow> bool) \<Rightarrow> string \<Rightarrow> string" where
  "strip_eol blank [] = []"
| "strip_eol blank (c # s) =
     (let t = strip_eol blank s in
      if blank c \<and> t \<noteq> [] \<and> hd t = CHR 10 then t else c # t)"

definition getCommentText :: "block \<Rightarrow> string" where
  "getCommentText b = (case b of NoBlock \<Rightarrow> []
     | Block _ _ _ _ _ _ _ None \<Rightarrow> []
     | Block _ _ _ _ _ _ _ (Some t) \<Rightarrow>
         strip_eol (\<lambda>c. c = CHR 32) (rev (dropWhile js_space (rev t))))"

definition allNestedComments :: "block \<Rightarrow> string" where
  "allNestedComments b =
     (let cs = filter (\<lambda>c. c \<noteq> []) (map getCommentText (getDescendants b))
      in js_join [CHR 10] (if cs = [] then [] else cs @ [[]]))"

subsection \<open>\<open>generators/lua.js\<close>\<close>

definition RESERVED_WORDS :: string where
  "RESERVED_WORDS = ''Blockly,and,break,do,else,elseif,end,false,for,function,if,in,local,nil,not,or,repeat,return,then,true,until,while,''"

text \<open>\<open>addReservedWords\<close> appends its words and a comma.\<close>

definition addReservedWords :: "string \<Rightarrow> string \<Rightarrow> string" where
  "addReservedWords ws a = ws @ a @ '',''"

text \<open>\<open>Blockly.Lua.init\<close>: the definitions start with an empty entry for the variables.\<close>

definition lua_init :: "(string \<times> string) list" where
  "lua_init = [(''variables'', [])]"

definition lua_finish :: "(string \<times> string) list \<Rightarrow> string \<Rightarrow> string" where
  "lua_finish defs code = js_join [CHR 10] (map snd defs) @ [CHR 10, CHR 10] @ code"

definition scrubNakedValue :: "string \<Rightarrow> string" where
  "scrubNakedValue line = line @ [CHR 10]"

definition lua_quote :: "string \<Rightarrow> string" where
  "lua_quote s = (let
       s1 = js_replaceAll [CHR 92] [CHR 92, CHR 92] s;
       s2 = js_replaceAll [CHR 10] [CHR 92, CHR 10] s1;
       s3 = js_replaceAll [CHR 37] [CHR 92, CHR 37] s2;
       s4 = js_replaceAll [CHR 39] [CHR 92, CHR 39] s3
     in CHR 39 # s4 @ [CHR 39])"

text \<open>
  The comments \<open>scrub_\<close> collects. It calls \<open>Blockly.Generator.prefixLines\<close> for the block's own
  comment, but \<open>prefixLines\<close> is a method of the prototype only, so a comment on a block that is
  not plugged into another throws a type error.
\<close>

definition comment_code :: "block \<Rightarrow> string gm" where
  "comment_code b = (case b of NoBlock \<Rightarrow> gret []
     | Block i ty ti mu ins nx fl cm \<Rightarrow>
         if plugged fl then gret []
         else if getCommentText b \<noteq> []
           then gthrow ''TypeError: Blockly.Generator.prefixLines is not a function''
         else gret (concat (map (\<lambda>inp. if i_kind inp = ValueInput \<and> i_target inp \<noteq> NoBlock
                 then (let c = allNestedComments (i_target inp) in
                       if c = [] then [] else prefixLines c ''// '')
                 else []) ins)))"

text \<open>
  \<open>scrub_\<close>: comments, the code of the block, and the code of the blocks after it
  (\<open>next\<close>, already a computation). A block whose generator gives \<open>null\<close> has no code at all.
\<close>

definition lua_scrub :: "block \<Rightarrow> string option \<Rightarrow> string gm \<Rightarrow> string gm" where
  "lua_scrub b code nextCode = (case code of
       None \<Rightarrow> gret []
     | Some code \<Rightarrow> gbind (comment_code b) (\<lambda>comment.
         gbind nextCode (\<lambda>n. gret (comment @ code @ n))))"

subsection \<open>The interface of a block's generator\<close>

text \<open>
  A generator gets \<open>statementToCode\<close> and \<open>valueToCode\<close> of its own block, by input name; the
  flag of the latter says whether the call passes an order at all.
\<close>

type_synonym generator =
  "genv \<Rightarrow> (string \<Rightarrow> string gm) \<Rightarrow> (bool \<Rightarrow> string \<Rightarrow> string gm) \<Rightarrow> block \<Rightarrow> string option gm"

text \<open>What a generator returns: a text, or \<open>null\<close>.\<close>

abbreviation gcode :: "string \<Rightarrow> string option gm" where
  "gcode c \<equiv> gret (Some c)"


definition statement_code :: "string \<Rightarrow> string" where
  "statement_code code = (if code = [] then [] else prefixLines code ''  '')"

text \<open>
  \<open>valueToCode\<close> wants a pair of code and order, but every Lua generator yields a string: it
  throws unless the input is empty or its code is.
\<close>

definition value_code :: "block \<Rightarrow> bool \<Rightarrow> block \<Rightarrow> string gm \<Rightarrow> string gm" where
  "value_code b order t code =
     (if \<not> order then gthrow (''Expecting valid order from block \"'' @ b_type b @ ''\".'')
      else if t = NoBlock then gret []
      else gbind code (\<lambda>c. if c = [] then gret []
             else gthrow (''Expecting tuple from value block \"'' @ b_type t @ ''\".'')))"

text \<open>\<open>robot.put_debug_result\<close> before the code of a statement, in debug mode.\<close>

definition debug_trace :: "genv \<Rightarrow> block \<Rightarrow> string" where
  "debug_trace E b = (if g_debug E then ''robot.put_debug_result('' @ [CHR 39] @ nat_str (b_id b) @
      [CHR 39] @ '', M.userId)'' @ [CHR 10] else [])"

end
