(* ===== verification/LuaGens.thy ===== *)
theory LuaGens
  imports LuaCore
begin

text \<open>
  The generators of the block types: \<open>generators/lua/control.js\<close>, \<open>logic.js\<close>,
  \<open>math.js\<close>, \<open>variables.js\<close> and \<open>butia.js\<close>, and the table \<open>Blockly.Lua\<close> they fill.
  \<open>Blockly.Generator.blockToCode\<close> calls a generator as \<open>b.call(a, a)\<close>: the parameter that
  some of them name \<open>opt_dropParens\<close> is the block itself, hence truthy, and the branch
  \<open>if (!opt_dropParens)\<close> is not taken. The generators below take that parameter as
  \<open>drop_parens\<close>; the table passes what \<open>blockToCode\<close> passes.
\<close>

definition paren_unless :: "bool \<Rightarrow> string \<Rightarrow> string" where
  "paren_unless drop_parens code = (if \<not> drop_parens then ''('' @ code @ '')'' else code)"

subsection \<open>Control (\<open>generators/lua/control.js\<close>)\<close>

text \<open>The \<open>elseif\<close> branches \<open>n, \<dots>, k\<close> of an if block.\<close>

function if_branches :: "(string \<Rightarrow> string gm) \<Rightarrow> nat \<Rightarrow> nat \<Rightarrow> string \<Rightarrow> string gm" where
  "if_branches stc n k code =
     (if n \<le> k then
        gbind (stc (''IF'' @ nat_str n)) (\<lambda>a. let argument = js_or a ''false'' in
        gbind (stc (''DO'' @ nat_str n)) (\<lambda>branch.
          if_branches stc (Suc n) k
            (code @ ''elseif ('' @ js_trimLeft argument @ '') then\<newline>'' @ branch)))
      else gret code)"
  by pat_completeness auto
termination
  by (relation "measure (\<lambda>(stc, n, k, code). Suc k - n)") auto

declare if_branches.simps [simp del]

definition gen_controls_if :: generator where
  "gen_controls_if E stc vtc b =
     gbind (stc ''IF0'') (\<lambda>a. let argument = js_or a ''false'' in
     gbind (stc ''DO0'') (\<lambda>branch.
     gbind (if_branches stc 1 (fst (b_mut b)) (''if ('' @ js_trimLeft argument @ '') then\<newline>'' @ branch)) (\<lambda>code.
     gbind (if snd (b_mut b) \<noteq> 0
            then gbind (stc ''ELSE'') (\<lambda>br. gret (code @ ''else\<newline>'' @ br)) else gret code) (\<lambda>code.
     gcode (debug_trace E b @ code @ ''\<newline>end'' @ ''\<newline>'')))))"

definition gen_controls_flow_statements :: generator where
  "gen_controls_flow_statements E stc vtc b =
     (case getTitleValue b ''FLOW'' of
        Some f \<Rightarrow> if f = ''BREAK'' then gcode ''break;\<newline>''
                  else if f = ''CONTINUE'' then gcode ''continue;\<newline>''
                  else gthrow ''Unknown flow statement.''
      | None \<Rightarrow> gthrow ''Unknown flow statement.'')"

definition gen_controls_sleep :: generator where
  "gen_controls_sleep E stc vtc b =
     (let value = g_num E (js_str (getTitleValue b ''NUM'')) in
      gcode (debug_trace E b @ ''sched.sleep('' @ value @ '')\<newline>''))"

text \<open>The part of a behaviour's module up to its attributes, shared by both kinds.\<close>

definition behaviour_head :: "genv \<Rightarrow> block \<Rightarrow> string" where
  "behaviour_head E b =
     g_msg E ''CODE_INITIALIZEVARS'' @
     ''local M = {}\<newline>'' @
     ''require '' @ [CHR 34] @ ''math'' @ [CHR 34] @ ''\<newline>'' @
     ''local behaviours = require 'catalog'.get_catalog('behaviours')\<newline>'' @
     ''local robot = require 'tasks/RobotInterface'\<newline>'' @
     ''local sched = require 'sched'\<newline>'' @
     ''M.done = false\<newline>'' @
     ''M.timesItExecuted = 0\<newline>'' @
     ''M.blockId = '' @ nat_str (b_id b) @ ''\<newline>'' @
     ''M.name = '' @ [CHR 39] @ js_str (getTitleValue b ''TEXT'') @ [CHR 39] @ ''\<newline>'' @
     ''M.priority = '' @ js_str (getTitleValue b ''PR'') @ ''\<newline>'' @
     ''\<newline>'' @
     g_msg E ''CODE_COMPETE''"

definition gen_controls_behaviour :: generator where
  "gen_controls_behaviour E stc vtc b =
     gbind (stc ''BEHAVIOUR_CODE'') (\<lambda>behaviourCode.
     gcode (behaviour_head E b @
       ''local competeForActive = function ()\<newline>'' @
       ''  M.done = false\<newline>'' @
       ''  if (activeBehaviour == nil or M.priority > activeBehaviour.priority or activeBehaviour.done) then\<newline>'' @
       ''     activeBehaviour = M\<newline> '' @
       ''  end\<newline>'' @
       ''end\<newline>'' @
       g_msg E ''CODE_RUN'' @
       ''local run = function ()\<newline>'' @
       ''   M.done = false\<newline>'' @
       debug_trace E b @
       behaviourCode @
       g_msg E ''CODE_DONE'' @
       ''   M.timesItExecuted = M.timesItExecuted + 1\<newline>'' @
       ''   M.done = true\<newline>'' @
       ''   activeBehaviour = nil\<newline>'' @
       ''end\<newline>'' @
       g_msg E ''CODE_INIT'' @
       ''M.init = function(conf)\<newline>'' @
       ''   M.done = false\<newline>'' @
       ''	  M.task = sched.sigrun({M.name}, run)\<newline>'' @
       ''	  M.compete_task = sched.sigrun({'Compete!'}, competeForActive)\<newline>'' @
       ''end\<newline>'' @
       g_msg E ''CODE_RELEASE'' @
       ''M.ReleaseControl = function()\<newline>'' @
       ''end\<newline>'' @
       ''return M\<newline>''))"

definition gen_controls_conditionalBehaviour :: generator where
  "gen_controls_conditionalBehaviour E stc vtc b =
     gbind (stc ''BEHAVIOUR_CONDITION'') (\<lambda>behaviourCondition.
     gbind (stc ''BEHAVIOUR_CODE'') (\<lambda>behaviourCode.
     gcode (behaviour_head E b @
       ''local competeForActive = function ()\<newline>'' @
       ''  M.done = false\<newline>'' @
       ''  if ('' @ js_trimLeft behaviourCondition @ '') then\<newline>'' @
       ''  if (activeBehaviour == nil or M.priority > activeBehaviour.priority or activeBehaviour.done) then\<newline>'' @
       ''     activeBehaviour = M\<newline> '' @
       ''  end\<newline>'' @
       ''  end\<newline>'' @
       ''end\<newline>'' @
       g_msg E ''CODE_RUN'' @
       ''local run = function ()\<newline>'' @
       ''  M.done = false\<newline>'' @
       debug_trace E b @
       behaviourCode @
       g_msg E ''CODE_DONE'' @
       ''  M.timesItExecuted = M.timesItExecuted + 1\<newline>'' @
       ''  M.done = true\<newline>'' @
       ''  activeBehaviour = nil\<newline>'' @
       ''end\<newline>'' @
       g_msg E ''CODE_INIT'' @
       ''M.init = function(conf)\<newline>'' @
       ''   M.done = false\<newline>'' @
       ''   M.task = sched.sigrun({M.name}, run)\<newline>'' @
       ''   M.compete_task = sched.sigrun({'Compete!'}, competeForActive)\<newline>'' @
       ''end\<newline>'' @
       g_msg E ''CODE_RELEASE'' @
       ''M.ReleaseControl = function()\<newline>'' @
       ''end\<newline>'' @
       ''return M\<newline>'')))"

definition gen_controls_behaviourTrigger :: generator where
  "gen_controls_behaviourTrigger E stc vtc b =
     gbind (stc ''BOOL'') (\<lambda>c. gcode (js_or c ''true''))"

definition gen_controls_whileUntil :: generator where
  "gen_controls_whileUntil E stc vtc b =
     gbind (stc ''BOOL'') (\<lambda>a. let argument0 = js_or a ''false'' in
     gbind (stc ''DO'') (\<lambda>d. let branch0 = js_or d ''\<newline>'' in
     gcode (debug_trace E b @ ''while ('' @ js_trimLeft argument0 @ '') do\<newline>'' @ g_msg E ''CODE_WHILE'' @
       ''sched.sleep(0.1)\<newline>'' @ branch0 @ debug_trace E b @ ''end\<newline>'')))"

definition gen_controls_repeat :: generator where
  "gen_controls_repeat E stc vtc b =
     gbind (stc ''DO'') (\<lambda>d. let branch0 = js_or d ''\<newline>'' in
     gcode (debug_trace E b @ ''for i = 1, '' @ js_str (getTitleValue b ''TIMES'') @ '' do\<newline>'' @ branch0 @
       debug_trace E b @ ''end\<newline>''))"

definition gen_controls_timesExecuted :: generator where
  "gen_controls_timesExecuted E stc vtc b = gcode ''M.timesItExecuted''"

subsection \<open>Logic (\<open>generators/lua/logic.js\<close>)\<close>

text \<open>A property an object does not have prints as \<open>undefined\<close>.\<close>

definition js_member :: "(string \<times> string) list \<Rightarrow> string option \<Rightarrow> string" where
  "js_member obj key = (case map_of obj (js_str key) of None \<Rightarrow> ''undefined'' | Some v \<Rightarrow> v)"

definition compare_operators :: "(string \<times> string) list" where
  "compare_operators = [(''EQ'', ''==''), (''NEQ'', ''~=''), (''LT'', ''<''), (''LTE'', ''<=''),
     (''GT'', ''>''), (''GTE'', ''>='')]"

definition gen_logic_compare :: "bool \<Rightarrow> generator" where
  "gen_logic_compare drop_parens E stc vtc b =
     (let operator = js_member compare_operators (getTitleValue b ''OP'') in
      gbind (stc ''A'') (\<lambda>a. let argument0 = js_or a ''0'' in
      gbind (stc ''B'') (\<lambda>c. let argument1 = js_or c ''0'' in
      gcode (paren_unless drop_parens
        (js_trimLeft argument0 @ '' '' @ operator @ '' '' @ js_trimLeft argument1)))))"

definition gen_logic_operation :: "bool \<Rightarrow> generator" where
  "gen_logic_operation drop_parens E stc vtc b =
     gbind (stc ''A'') (\<lambda>a. let argument0 = js_or a ''false'' in
     gbind (stc ''B'') (\<lambda>c. let argument1 = js_or c ''false'';
        operator = (if getTitleValue b ''OP'' = Some ''AND'' then ''and'' else ''or'') in
     gcode (paren_unless drop_parens
       (''('' @ js_trimLeft argument0 @ '') '' @ operator @ '' ('' @ js_trimLeft argument1 @ '')''))))"

definition gen_logic_negate :: "bool \<Rightarrow> generator" where
  "gen_logic_negate drop_parens E stc vtc b =
     gbind (stc ''BOOL'') (\<lambda>a. let argument0 = js_or a ''false'' in
     gcode (paren_unless drop_parens (''not '' @ ''('' @ argument0 @ '')'')))"

definition gen_logic_constrain :: generator where
  "gen_logic_constrain E stc vtc b =
     gbind (stc ''VALUE'') (\<lambda>v. let argument0 = js_or v ''0'' in
     gbind (stc ''LOW'') (\<lambda>l. let argument1 = js_or l ''0'' in
     gbind (stc ''HIGH'') (\<lambda>h. let argument2 = js_or h ''0'' in
     gcode (''('' @ argument0 @ ''>='' @ argument1 @ '' and '' @ argument0 @ ''<='' @ argument2 @ '')''))))"

definition gen_logic_boolean :: generator where
  "gen_logic_boolean E stc vtc b =
     gcode (if getTitleValue b ''BOOL'' = Some ''TRUE'' then ''true'' else ''false'')"

end
