(* ===== verification/LuaValues.thy ===== *)
theory LuaValues
  imports LuaGens
begin

text \<open>
  The generators of the math, variable and robot blocks: \<open>generators/lua/math.js\<close>,
  \<open>variables.js\<close> and \<open>butia.js\<close>. Five of them cannot succeed, because they call what this
  version of Blockly does not have or assign an undeclared name in strict mode; the calls that
  run before the error are kept.
\<close>

subsection \<open>Math (\<open>generators/lua/math.js\<close>)\<close>

definition gen_math_number :: generator where
  "gen_math_number E stc vtc b = gcode (js_trim (g_num E (js_str (getTitleValue b ''NUM''))))"

definition gen_math_divisible :: "bool \<Rightarrow> generator" where
  "gen_math_divisible drop_parens E stc vtc b =
     gbind (stc ''A'') (\<lambda>a. let a = js_or a ''0'' in
     gbind (stc ''B'') (\<lambda>c. let c = js_or c ''0'';
        code = ''('' @ a @ '' - math.floor('' @ a @ ''/'' @ c @ '')*'' @ c @ '') == 0'' in
     gcode (paren_unless drop_parens code)))"

definition arithmetic_operators :: "(string \<times> string) list" where
  "arithmetic_operators = [(''ADD'', '' + ''), (''MINUS'', '' - ''), (''MULTIPLY'', '' * ''),
     (''DIVIDE'', '' / '')]"

definition gen_math_arithmetic :: "bool \<Rightarrow> generator" where
  "gen_math_arithmetic drop_parens E stc vtc b =
     gbind (stc ''A'') (\<lambda>a. let argument0 = js_or a ''0'' in
     gbind (stc ''B'') (\<lambda>c. let argument1 = js_or c ''0''; mode = getTitleValue b ''OP'' in
     if mode = Some ''POWER'' then gcode (''math.pow('' @ argument0 @ '', '' @ argument1 @ '')'')
     else (let operator = js_member arithmetic_operators mode;
               code = ''tonumber('' @ js_trimLeft argument0 @ '')'' @ operator @ ''tonumber('' @
                 js_trimLeft argument1 @ '')'' in
           gcode (paren_unless drop_parens code))))"

text \<open>\<open>getTitleText\<close> is not a method of blocks: a type error, once the operand has been generated.\<close>

definition gen_math_change :: generator where
  "gen_math_change E stc vtc b =
     gbind (stc ''DELTA'') (\<lambda>_. gthrow ''TypeError: this.getTitleText is not a function'')"

text \<open>\<open>statementToCode\<close> takes no order: both calls generate the operand, one after the other.\<close>

definition gen_math_single :: "bool \<Rightarrow> generator" where
  "gen_math_single drop_parens E stc vtc b =
     gbind (stc ''NUM'') (\<lambda>a. let argNaked = js_or a ''0'' in
     gbind (stc ''NUM'') (\<lambda>c. let argParen = js_or c ''0'';
         operator = (case getTitleValue b ''OP'' of None \<Rightarrow> [] | Some operator \<Rightarrow> operator) in
       if operator = ''ABS'' then gcode (''math.abs( tonumber('' @ argNaked @ ''))'')
       else if operator = ''ROOT'' then gcode (''math.sqrt( tonumber('' @ argNaked @ ''))'')
       else if operator = ''LN'' then gcode (''math.log( tonumber('' @ argNaked @ ''))'')
       else if operator = ''EXP'' then gcode (''math.exp( tonumber('' @ argNaked @ ''))'')
       else if operator = ''POW10'' then gcode (''math.pow(10, tonumber('' @ argNaked @ ''))'')
       else if operator = ''ROUND'' then gcode (''math.floor( tonumber('' @ argNaked @ '') + 0.5)'')
       else if operator = ''ROUNDUP'' then gcode (''math.ceil( tonumber('' @ argNaked @ ''))'')
       else if operator = ''ROUNDDOWN'' then gcode (''math.floor( tonumber('' @ argNaked @ ''))'')
       else if operator = ''SIN'' then gcode (''math.sin( tonumber('' @ argParen @ '') / 180 * math.pi)'')
       else if operator = ''COS'' then gcode (''math.cos( tonumber('' @ argParen @ '') / 180 * math.pi)'')
       else if operator = ''TAN'' then gcode (''math.tan( tonumber('' @ argParen @ '') / 180 * math.pi)'')
       else if operator = ''NEG'' then gcode (paren_unless drop_parens (''-'' @ argParen))
       else if operator = ''LOG10'' then gcode (paren_unless drop_parens (''math.log('' @ argNaked @ '') / math.log(10)''))
       else if operator = ''ASIN'' then gcode (paren_unless drop_parens (''math.asin('' @ argNaked @ '') / math.pi * 180''))
       else if operator = ''ACOS'' then gcode (paren_unless drop_parens (''math.acos('' @ argNaked @ '') / math.pi * 180''))
       else if operator = ''ATAN'' then gcode (paren_unless drop_parens (''math.atan('' @ argNaked @ '') / math.pi * 180''))
       else gthrow ''Unknown math operator.''))"

definition gen_math_round :: "bool \<Rightarrow> generator" where
  "gen_math_round = gen_math_single"

definition gen_math_trig :: "bool \<Rightarrow> generator" where
  "gen_math_trig = gen_math_single"

text \<open>\<open>list\<close> is never declared, and the file is strict: assigning it is a reference error.\<close>

definition gen_math_on_list :: generator where
  "gen_math_on_list E stc vtc b =
     gbind (vtc True ''LIST'') (\<lambda>_. gthrow ''ReferenceError: list is not defined'')"

definition gen_math_modulo :: "bool \<Rightarrow> generator" where
  "gen_math_modulo drop_parens E stc vtc b =
     gbind (vtc False ''DIVIDEND'') (\<lambda>a. let argument0 = js_or a ''0'' in
     gbind (vtc False ''DIVISOR'') (\<lambda>c. let argument1 = js_or c ''0'' in
     gcode (paren_unless drop_parens (argument0 @ '' % '' @ argument1))))"

definition gen_math_random_int :: generator where
  "gen_math_random_int E stc vtc b =
     gbind (vtc False ''FROM'') (\<lambda>a. let argument0 = js_or a ''0'' in
     gbind (vtc False ''TO'') (\<lambda>c. let argument1 = js_or c ''0'';
       rand = (\<lambda>lo hi. ''math.floor(math.random() * ('' @ hi @ '' - '' @ lo @ '' + 1) + '' @ lo @ '')'');
       numeric = (\<lambda>s. s \<noteq> [] \<and> list_all (\<lambda>d. digit_val d \<noteq> None \<or> d = CHR ''.'') s) in
     gcode (if numeric argument0 \<and> numeric argument1
       then (if g_less E argument0 argument1 then rand argument0 argument1 else rand argument1 argument0)
       else argument0 @ '' < '' @ argument1 @ '' ? '' @ rand argument0 argument1 @ '' : '' @
         rand argument1 argument0)))"

definition gen_math_random_float :: generator where
  "gen_math_random_float E stc vtc b = gcode ''math.random()''"

subsection \<open>Variables, printing and sensors (\<open>generators/lua/variables.js\<close>)\<close>

definition gen_variables_get :: generator where
  "gen_variables_get E stc vtc b = gret (getTitleValue b ''VAR'')"

definition gen_variables_set :: generator where
  "gen_variables_set E stc vtc b =
     gbind (stc ''VALUE'') (\<lambda>v. let argument0 = js_or v ''0''; name = js_str (getTitleValue b ''VAR'') in
     gbind (ExistVariable E name) (\<lambda>declared. let prefix = (if \<not> declared then ''local '' else []) in
     gcode (debug_trace E b @ prefix @ name @ '' = '' @ argument0 @ ''\<newline>'')))"

text \<open>\<open>getTitleText\<close> again.\<close>

definition gen_variables_text :: generator where
  "gen_variables_text E stc vtc b =
     gbind (vtc True ''VALUE'') (\<lambda>_. gthrow ''TypeError: block.getTitleText is not a function'')"

definition gen_variables_print :: generator where
  "gen_variables_print E stc vtc b =
     gcode (debug_trace E b @ '' robot.printToWebConsole('' @ [CHR 39] @ js_str (getTitleValue b ''TEXT'') @
       [CHR 39] @ '')\<newline>'')"

definition gen_variables_print_stat :: generator where
  "gen_variables_print_stat E stc vtc b =
     gbind (stc ''VALUE'') (\<lambda>content.
     gcode (debug_trace E b @ ''local imprimir = '' @ content @
       ''\<newline> robot.printToWebConsole(imprimir)\<newline>''))"

definition gen_variables_sensor_get :: generator where
  "gen_variables_sensor_get E stc vtc b s =
     (let (code, s') = ReturnCustomSensor (js_str (getTitleValue b ''VAR'')) s in Inr (Some code, s'))"

definition gen_variables_sensor_set :: generator where
  "gen_variables_sensor_set E stc vtc b =
     gbind (stc ''VALUE'') (\<lambda>v s. let argument0 = js_or v ''0'' in
       Inr (Some [], CreateCustomSensor (js_str (getTitleValue b ''VAR'')) (Some argument0) s))"

subsection \<open>The robot (\<open>generators/lua/butia.js\<close>)\<close>

text \<open>\<open>text.replace(/Yatay.vel/g, vel)\<close>: the dot stands for any character but a line end.\<close>

definition is_vel_match :: "string \<Rightarrow> bool" where
  "is_vel_match s \<longleftrightarrow> length s = 9 \<and> take 5 s = ''Yatay'' \<and> \<not> line_end (s ! 5) \<and> drop 6 s = ''vel''"

fun subst_vel :: "string \<Rightarrow> string \<Rightarrow> string" where
  "subst_vel vel [] = []"
| "subst_vel vel (c # s) =
     (if is_vel_match (take 9 (c # s)) then vel @ subst_vel vel (drop 8 s)
      else c # subst_vel vel s)"

definition robot_call :: "string \<Rightarrow> string \<Rightarrow> string \<Rightarrow> string" where
  "robot_call device command params =
     ''robot.execute('' @ [CHR 39] @ device @ [CHR 39] @ '','' @ [CHR 39] @ command @ [CHR 39] @ '',{'' @
     params @ ''}, M.userId)\<newline> ''"

text \<open>
  The file is one generator after the other, each of the same form: whether it traces in debug
  mode, the device, the command, and the arguments. \<open>mover\<close> and \<open>move\<close> take them from the
  inputs \<open>1\<close> and \<open>2\<close>. \<open>String()\<close> is the empty text.
\<close>

datatype robot_args = Fixed string | Inputs

definition robot_gen :: "bool \<Rightarrow> robot_args \<Rightarrow> string \<Rightarrow> string \<Rightarrow> generator" where
  "robot_gen traces args device command E stc vtc b =
     (let debugTrace = (if traces then debug_trace E b else []) in
      case args of
        Fixed params \<Rightarrow> gcode (debugTrace @ robot_call device command (subst_vel (g_vel E) params))
      | Inputs \<Rightarrow>
          gbind (stc ''1'') (\<lambda>a. let arg1 = js_or a ''0'' in
          gbind (stc ''2'') (\<lambda>c. let arg2 = js_or c ''0'' in
          gcode (debugTrace @ robot_call device command (subst_vel (g_vel E) (arg1 @ '','' @ arg2))))))"

definition butia_table :: "(string \<times> bool \<times> robot_args \<times> string \<times> string) list" where
  "butia_table = [
     (''mover adelante'', False, Fixed ''Yatay.vel,-Yatay.vel'', ''butia_skid'', ''set_vel''),
     (''mover atras'', False, Fixed ''-Yatay.vel,Yatay.vel'', ''butia_skid'', ''set_vel''),
     (''detener'', False, Fixed ''0,0'', ''butia_skid'', ''set_vel''),
     (''girar derecha'', False, Fixed ''-Yatay.vel,-Yatay.vel'', ''butia_skid'', ''set_vel''),
     (''girar izquierda'', False, Fixed ''Yatay.vel,Yatay.vel'', ''butia_skid'', ''set_vel''),
     (''mover'', False, Inputs, ''butia_skid'', ''set_vel''),
     (''distance. (5)'', False, Fixed [], ''bb-distanc:5'', ''getValue''),
     (''grey (2)'', False, Fixed [], ''bb-grey:2'', ''getValue''),
     (''grey (3)'', False, Fixed [], ''bb-grey:3'', ''getValue''),
     (''move forward'', True, Fixed ''Yatay.vel,-Yatay.vel'', ''butia_skid'', ''set_vel''),
     (''move back'', True, Fixed ''-Yatay.vel,Yatay.vel'', ''butia_skid'', ''set_vel''),
     (''stop'', True, Fixed ''0,0'', ''butia_skid'', ''set_vel''),
     (''turn right'', True, Fixed ''-Yatay.vel,-Yatay.vel'', ''butia_skid'', ''set_vel''),
     (''turn left'', True, Fixed ''Yatay.vel,Yatay.vel'', ''butia_skid'', ''set_vel''),
     (''move'', True, Inputs, ''butia_skid'', ''set_vel_2'')]"

definition butia_generators :: "(string \<times> generator) list" where
  "butia_generators = map (\<lambda>(ty, traces, args, device, command).
     (ty, robot_gen traces args device command)) butia_table"

end
