(* ===== verification/LuaCode.thy ===== *)
theory LuaCode
  imports LuaValues
begin

text \<open>
  The generator as a whole: the table \<open>Blockly.Lua\<close> the files of \<open>generators/\<close> fill, and
  \<open>blockToCode\<close>, \<open>statementToCode\<close>, \<open>valueToCode\<close> and \<open>workspaceToCode\<close> of
  \<open>Blockly.Generator\<close>, which run it over the blocks of the workspace.
\<close>

subsection \<open>The table\<close>

text \<open>
  \<open>Blockly.Generator\<close> passes the block as the parameter \<open>opt_dropParens\<close>, so the parentheses
  are dropped everywhere.
\<close>

definition block_is_truthy :: bool where
  "block_is_truthy = True"

definition lua_generators :: "(string \<times> generator) list" where
  "lua_generators = [
     (''controls_if'', gen_controls_if),
     (''controls_flow_statements'', gen_controls_flow_statements),
     (''controls_sleep'', gen_controls_sleep),
     (''controls_behaviour'', gen_controls_behaviour),
     (''controls_conditionalBehaviour'', gen_controls_conditionalBehaviour),
     (''controls_behaviourTrigger'', gen_controls_behaviourTrigger),
     (''controls_whileUntil'', gen_controls_whileUntil),
     (''controls_repeat'', gen_controls_repeat),
     (''controls_timesExecuted'', gen_controls_timesExecuted),
     (''logic_compare'', gen_logic_compare block_is_truthy),
     (''logic_operation'', gen_logic_operation block_is_truthy),
     (''logic_negate'', gen_logic_negate block_is_truthy),
     (''logic_constrain'', gen_logic_constrain),
     (''logic_boolean'', gen_logic_boolean),
     (''math_number'', gen_math_number),
     (''math_divisible'', gen_math_divisible block_is_truthy),
     (''math_arithmetic'', gen_math_arithmetic block_is_truthy),
     (''math_change'', gen_math_change),
     (''math_single'', gen_math_single block_is_truthy),
     (''math_round'', gen_math_round block_is_truthy),
     (''math_trig'', gen_math_trig block_is_truthy),
     (''math_on_list'', gen_math_on_list),
     (''math_modulo'', gen_math_modulo block_is_truthy),
     (''math_random_int'', gen_math_random_int),
     (''math_random_float'', gen_math_random_float),
     (''variables_get'', gen_variables_get),
     (''variables_set'', gen_variables_set),
     (''variables_text'', gen_variables_text),
     (''variables_print'', gen_variables_print),
     (''variables_print_stat'', gen_variables_print_stat),
     (''variables_sensor_get'', gen_variables_sensor_get),
     (''variables_sensor_set'', gen_variables_sensor_set)] @ butia_generators"

subsection \<open>\<open>Blockly.Generator\<close>\<close>

definition no_generator :: "string \<Rightarrow> string" where
  "no_generator ty = ''Language '' @ [CHR 34] @ ''Lua'' @ [CHR 34] @
     '' does not know how to generate code for block type '' @ [CHR 34] @ ty @ [CHR 34] @ ''.''"

function blockToCode :: "genv \<Rightarrow> block \<Rightarrow> string gm" where
  "blockToCode E NoBlock = gret []"
| "blockToCode E (Block i ty ti mu ins nx fl cm) =
     (if disabled fl then blockToCode E nx
      else (case map_of lua_generators ty of
          None \<Rightarrow> gthrow (no_generator ty)
        | Some gen \<Rightarrow>
            (let b = Block i ty ti mu ins nx fl cm in
             gbind (gen E
               (\<lambda>n. gbind (blockToCode E (find_input n ins)) (\<lambda>c. gret (statement_code c)))
               (\<lambda>order n. value_code b order (find_input n ins) (blockToCode E (find_input n ins)))
               b) (\<lambda>code. lua_scrub b code (blockToCode E nx)))))"
  by pat_completeness auto
termination
  by (relation "measure (\<lambda>(E, b). size b)") (auto simp: size_find_input_less le_imp_less_Suc trans_le_add1 size_find_input)

declare blockToCode.simps [simp del]

definition statementToCode :: "genv \<Rightarrow> block \<Rightarrow> string \<Rightarrow> string gm" where
  "statementToCode E b n = gbind (blockToCode E (getInputTargetBlock b n)) (\<lambda>c. gret (statement_code c))"

text \<open>The code of the top blocks; blocks without code leave no line.\<close>

fun topBlocksToCode :: "genv \<Rightarrow> block list \<Rightarrow> string list gm" where
  "topBlocksToCode E [] = gret []"
| "topBlocksToCode E (b # bs) =
     gbind (blockToCode E b) (\<lambda>code. gbind (topBlocksToCode E bs) (\<lambda>codes.
       gret (if code = [] then codes
             else (if g_output E (b_type b) then scrubNakedValue code else code) # codes)))"

text \<open>
  The three clean-ups of \<open>workspaceToCode\<close>: \<open>/^\s+\n/\<close> (greedy: white space up to the last
  line end of the leading white space, at least two characters), \<open>/\n\s+$/\<close> (white space from the
  first line end of the trailing white space, at least two characters) and \<open>/[ \t]+\n/g\<close>.
\<close>

definition strip_lead :: "string \<Rightarrow> string" where
  "strip_lead s =
     (let w = takeWhile js_space s;
          k = length w - length (takeWhile (\<lambda>c. c \<noteq> CHR 10) (rev w)) in
      if k \<le> 1 then s else drop k s)"

definition strip_trail :: "string \<Rightarrow> string" where
  "strip_trail s =
     (let w = rev (takeWhile js_space (rev s));
          k = length (takeWhile (\<lambda>c. c \<noteq> CHR 10) w) in
      if length w \<le> Suc k then s else take (length s - length w + k) s @ [CHR 10])"

definition strip_lines :: "string \<Rightarrow> string" where
  "strip_lines = strip_eol (\<lambda>c. c = CHR 32 \<or> c = CHR 9)"

definition workspaceToCode :: "genv \<Rightarrow> block list \<Rightarrow> string gm" where
  "workspaceToCode E tops =
     gbind (topBlocksToCode E tops) (\<lambda>codes.
       gret (strip_lines (strip_trail (strip_lead (lua_finish lua_init (js_join [CHR 10] codes))))))"

end
