(* ===== verification/LuaProps.thy ===== *)
theory LuaProps
  imports LuaCode
begin

text \<open>
  What the Lua generator guarantees: it never fails on blocks it supports, which block types it
  can never generate, what disabled blocks contribute, how variables are declared, and what the
  dropped parentheses do to the meaning of nested comparisons.
\<close>

subsection \<open>Computations that always succeed\<close>

named_theorems total_intros

definition total :: "'a gm \<Rightarrow> bool" where
  "total m \<longleftrightarrow> (\<forall>s. \<exists>r. m s = Inr r)"

lemma total_gret [total_intros]: "total (gret x)"
  by (simp add: total_def gret_def)

lemma total_gbind [total_intros]: "total m \<Longrightarrow> (\<And>x. total (f x)) \<Longrightarrow> total (gbind m f)"
  unfolding total_def by (metis gbind_Inr_iff surj_pair)

lemma total_if [total_intros]: "(c \<Longrightarrow> total m) \<Longrightarrow> (\<not> c \<Longrightarrow> total n) \<Longrightarrow> total (if c then m else n)"
  by simp

lemma total_Let [total_intros]: "total (f x) \<Longrightarrow> total (Let x f)"
  by simp

lemma total_Exist [total_intros]: "g_first E = Some n \<Longrightarrow> total (ExistVariable E v)"
  by (auto simp: total_def ExistVariable_def)

lemma total_if_branches [total_intros]:
  "(\<And>n. total (stc n)) \<Longrightarrow> total (if_branches stc n k code)"
  by (induction stc n k code rule: if_branches.induct) (subst if_branches.simps, intro total_intros, auto)

subsection \<open>The blocks the generator supports\<close>

definition single_operators :: "string list" where
  "single_operators = [''ABS'', ''ROOT'', ''LN'', ''EXP'', ''POW10'', ''ROUND'', ''ROUNDUP'',
     ''ROUNDDOWN'', ''SIN'', ''COS'', ''TAN'', ''NEG'', ''LOG10'', ''ASIN'', ''ACOS'', ''ATAN'']"

definition failing_types :: "string list" where
  "failing_types = [''math_change'', ''math_on_list'', ''math_modulo'', ''math_random_int'',
     ''variables_text'']"

text \<open>The type has a generator, not one of the failing ones, and the operator is one it knows.\<close>

definition node_ok :: "string \<Rightarrow> (string \<times> string) list \<Rightarrow> bool" where
  "node_ok ty ti \<longleftrightarrow>
     ty \<in> set (map fst lua_generators) \<and> ty \<notin> set failing_types \<and>
     (ty = ''controls_flow_statements'' \<longrightarrow> map_of ti ''FLOW'' \<in> {Some ''BREAK'', Some ''CONTINUE''}) \<and>
     (ty \<in> {''math_single'', ''math_round'', ''math_trig''} \<longrightarrow>
        (case map_of ti ''OP'' of None \<Rightarrow> False | Some oper \<Rightarrow> oper \<in> set single_operators))"

fun supported :: "block \<Rightarrow> bool" and supported_input :: "input \<Rightarrow> bool" where
  "supported NoBlock = True"
| "supported (Block i ty ti mu ins nx fl cm) =
     ((disabled fl \<or> node_ok ty ti \<and> list_all supported_input ins \<and>
        (plugged fl \<or> getCommentText (Block i ty ti mu ins nx fl cm) = [])) \<and> supported nx)"
| "supported_input (Input n k t) = supported t"

lemma supported_find: "list_all supported_input ins \<Longrightarrow> supported (find_input n ins)"
  by (induction n ins rule: find_input.induct) auto

subsection \<open>Every generator but five always succeeds\<close>

lemma total_sensor_get: "total (gen_variables_sensor_get E stc vtc b)"
  by (auto simp: total_def gen_variables_sensor_get_def split: prod.splits)

lemma total_sensor_set: "(\<And>n. total (stc n)) \<Longrightarrow> total (gen_variables_sensor_set E stc vtc b)"
  unfolding gen_variables_sensor_set_def by (intro total_gbind) (auto simp: total_def)

lemma total_robot: "(\<And>n. total (stc n)) \<Longrightarrow> total (robot_gen tr args dev com E stc vtc b)"
  by (cases args) (auto simp: robot_gen_def Let_def intro!: total_intros)

lemma total_single:
  assumes "\<And>n. total (stc n)" "getTitleValue b ''OP'' = Some oper" "oper \<in> set single_operators"
  shows "total (gen_math_single d E stc vtc b)"
proof -
  have "oper = ''ABS'' \<or> oper = ''ROOT'' \<or> oper = ''LN'' \<or> oper = ''EXP'' \<or> oper = ''POW10'' \<or>
      oper = ''ROUND'' \<or> oper = ''ROUNDUP'' \<or> oper = ''ROUNDDOWN'' \<or> oper = ''SIN'' \<or> oper = ''COS'' \<or>
      oper = ''TAN'' \<or> oper = ''NEG'' \<or> oper = ''LOG10'' \<or> oper = ''ASIN'' \<or> oper = ''ACOS'' \<or> oper = ''ATAN''"
    using assms(3) by (simp add: single_operators_def)
  then show ?thesis
    unfolding gen_math_single_def assms(2) Let_def option.case
    by (intro total_gbind assms(1)) (elim disjE; simp add: total_gret)
qed

lemma simple_totals:
  assumes stc: "\<And>n. total (stc n)" and first: "g_first E = Some name"
  shows "total (gen_controls_if E stc vtc b)" "total (gen_controls_sleep E stc vtc b)"
    "total (gen_controls_behaviour E stc vtc b)" "total (gen_controls_conditionalBehaviour E stc vtc b)"
    "total (gen_controls_behaviourTrigger E stc vtc b)" "total (gen_controls_whileUntil E stc vtc b)"
    "total (gen_controls_repeat E stc vtc b)" "total (gen_controls_timesExecuted E stc vtc b)"
    "total (gen_logic_compare d E stc vtc b)" "total (gen_logic_operation d E stc vtc b)"
    "total (gen_logic_negate d E stc vtc b)" "total (gen_logic_constrain E stc vtc b)"
    "total (gen_logic_boolean E stc vtc b)" "total (gen_math_number E stc vtc b)"
    "total (gen_math_divisible d E stc vtc b)" "total (gen_math_arithmetic d E stc vtc b)"
    "total (gen_math_random_float E stc vtc b)" "total (gen_variables_get E stc vtc b)"
    "total (gen_variables_set E stc vtc b)" "total (gen_variables_print E stc vtc b)"
    "total (gen_variables_print_stat E stc vtc b)"
  unfolding gen_controls_if_def gen_controls_sleep_def gen_controls_behaviour_def
    gen_controls_conditionalBehaviour_def gen_controls_behaviourTrigger_def
    gen_controls_whileUntil_def gen_controls_repeat_def gen_controls_timesExecuted_def
    gen_logic_compare_def gen_logic_operation_def gen_logic_negate_def gen_logic_constrain_def
    gen_logic_boolean_def gen_math_number_def gen_math_divisible_def gen_math_arithmetic_def
    gen_math_random_float_def gen_variables_get_def gen_variables_set_def gen_variables_print_def
    gen_variables_print_stat_def
  by (intro total_intros stc, (rule first)?)+

lemma total_flow:
  "getTitleValue b ''FLOW'' \<in> {Some ''BREAK'', Some ''CONTINUE''} \<Longrightarrow>
   total (gen_controls_flow_statements E stc vtc b)"
  by (auto simp: gen_controls_flow_statements_def total_gret)

lemma robot_gen_in_table:
  "(ty, gen) \<in> set butia_generators \<Longrightarrow> \<exists>tr args dev com. gen = robot_gen tr args dev com"
  by (auto simp: butia_generators_def)

text \<open>The two parts of the table.\<close>

definition named_generators :: "(string \<times> generator) list" where
  "named_generators = take 32 lua_generators"

lemma lua_generators_split: "lua_generators = named_generators @ butia_generators"
  by (simp add: named_generators_def lua_generators_def)

lemma table_cases:
  assumes "map_of lua_generators ty = Some gen"
  obtains (named) "(ty, gen) \<in> set named_generators"
    | (robot) tr args dev com where "gen = robot_gen tr args dev com"
proof -
  have "(ty, gen) \<in> set named_generators \<or> (ty, gen) \<in> set butia_generators"
    using map_of_SomeD [OF assms] by (simp add: lua_generators_split)
  then show thesis using robot_gen_in_table named robot by metis
qed

lemma gen_total:
  assumes stc: "\<And>n. total (stc n)" and first: "g_first E = Some name"
    and gen: "(ty, gen) \<in> set lua_generators" and ok: "node_ok ty ti"
    and titles: "getTitleValue b = map_of ti"
  shows "total (gen E stc vtc b)"
proof (cases "(ty, gen) \<in> set butia_generators")
  case True
  then show ?thesis using robot_gen_in_table stc by (metis total_robot)
next
  case False
  then have mem: "(ty, gen) \<in> set named_generators" using gen by (simp add: lua_generators_split)
  have single: "ty \<in> {''math_single'', ''math_round'', ''math_trig''} \<Longrightarrow>
      total (gen_math_single d E stc vtc b)" for d
    using ok stc titles by (auto simp: node_ok_def split: option.splits intro!: total_single)
  have flow: "ty = ''controls_flow_statements'' \<Longrightarrow> total (gen_controls_flow_statements E stc vtc b)"
    using ok titles by (intro total_flow) (simp add: node_ok_def)
  have nf: "ty \<notin> set failing_types" using ok by (simp add: node_ok_def)
  show ?thesis
    using mem nf single flow
    unfolding named_generators_def lua_generators_def
    by (simp add: failing_types_def)
      (elim disjE conjE; simp add: simple_totals [OF stc first] total_sensor_get total_sensor_set stc
        gen_math_round_def gen_math_trig_def)
qed

lemma total_comment:
  "plugged fl \<or> getCommentText (Block i ty ti mu ins nx fl cm) = [] \<Longrightarrow>
   total (comment_code (Block i ty ti mu ins nx fl cm))"
  by (auto simp: comment_code_def total_gret)

lemma total_scrub: "total (comment_code b) \<Longrightarrow> total next \<Longrightarrow> total (lua_scrub b code next)"
  by (cases code) (auto simp: lua_scrub_def intro!: total_intros)

lemma getTitleValue_Block [simp]: "getTitleValue (Block i ty ti mu ins nx fl cm) = map_of ti"
  by (simp add: fun_eq_iff getTitleValue_def)

lemma node_ok_gen: "node_ok ty ti \<Longrightarrow> \<exists>gen. map_of lua_generators ty = Some gen"
  by (cases "map_of lua_generators ty") (simp_all add: node_ok_def map_of_eq_None_iff)

lemma supported_total:
  "g_first E = Some name \<Longrightarrow> supported b \<Longrightarrow> total (blockToCode E b)"
proof (induction E b rule: blockToCode.induct)
  case (1 E)
  then show ?case by (simp add: blockToCode.simps total_gret)
next
  case (2 E i ty ti mu ins nx fl cm)
  have gen: "\<not> disabled fl \<Longrightarrow> \<exists>gen. map_of lua_generators ty = Some gen"
    using "2.prems"(2) node_ok_gen by auto
  have nx: "total (blockToCode E nx)"
  proof (cases "disabled fl")
    case True
    show ?thesis by (rule "2.IH"(1) [OF True]) (use "2.prems" in auto)
  next
    case False
    then obtain gen where "map_of lua_generators ty = Some gen" using gen by blast
    then show ?thesis using "2.IH"(4) [OF False _ refl] "2.prems" by auto
  qed
  show ?case
  proof (cases "disabled fl")
    case True
    then show ?thesis using nx by (simp add: blockToCode.simps)
  next
    case False
    with "2.prems" have ok: "node_ok ty ti" "list_all supported_input ins"
      and com: "plugged fl \<or> getCommentText (Block i ty ti mu ins nx fl cm) = []" by auto
    then obtain gen where gen: "map_of lua_generators ty = Some gen"
      using node_ok_gen by blast
    have inp: "total (blockToCode E (find_input n ins))" for n
      using "2.IH"(2) [OF False gen refl] "2.prems"(1) supported_find [OF ok(2)] by auto
    show ?thesis using False gen
      unfolding blockToCode.simps Let_def if_not_P [OF False] gen option.case
      by (intro total_gbind total_scrub total_comment com nx
          gen_total [OF _ "2.prems"(1) map_of_SomeD [OF gen] ok(1)] inp total_gret getTitleValue_Block)
  qed
qed

lemma supported_top_total:
  "g_first E = Some name \<Longrightarrow> list_all supported bs \<Longrightarrow> total (topBlocksToCode E bs)"
  by (induction bs) (auto intro!: total_intros supported_total)

lemma generates_total:
  assumes "g_first E = Some name" and "list_all supported tops"
  shows "\<exists>code s'. workspaceToCode E tops s = Inr (code, s')"
  using total_gbind [OF supported_top_total [OF assms] total_gret]
  unfolding workspaceToCode_def total_def by (metis surj_pair)

text \<open>C17. The generator never fails on a workspace of supported blocks: every enabled block has a
  type with a working generator, an operator its generator knows, and no comment unless it is
  plugged into another block.\<close>

theorem workspaceToCode_succeeds:
  assumes "g_first E = Some name" and "list_all supported tops"
  shows "\<exists>code s'. workspaceToCode E tops s = Inr (code, s')"
  using assms by (rule generates_total)

definition demo_env :: genv where
  "demo_env = \<lparr>g_debug = False, g_vel = ''50'', g_msg = (\<lambda>_. []), g_num = (\<lambda>s. s),
     g_less = (\<lambda>_ _. False), g_output = (\<lambda>_. False), g_first = Some ''b'', g_proto = (\<lambda>_. False)\<rparr>"

definition demo_state :: gstate where
  "demo_state = \<lparr>g_vars = [], g_sensors = None\<rparr>"

definition demo_set :: block where
  "demo_set = Block 2 ''variables_set'' [(''VAR'', ''x'')] (0, 0)
     [Input ''VALUE'' ValueInput
        (Block 3 ''math_number'' [(''NUM'', ''7'')] (0, 0) [] NoBlock (new_flags\<lparr>plugged := True\<rparr>) None)]
     NoBlock new_flags None"

theorem workspaceToCode_succeeds_witness:
  "\<exists>code s'. workspaceToCode demo_env [demo_set] demo_state = Inr (code, s')"
  by (rule workspaceToCode_succeeds [where name = "''b''"])
    (simp_all add: demo_env_def demo_set_def new_flags_def node_ok_def lua_generators_def
      failing_types_def getCommentText_def)

subsection \<open>Blocks that can never be generated\<close>

fun spine :: "block \<Rightarrow> block list" where
  "spine NoBlock = []"
| "spine (Block i ty ti mu ins nx fl cm) = Block i ty ti mu ins nx fl cm # spine nx"

lemma value_code_no_order: "\<not> order \<Longrightarrow> value_code b order t code = gthrow (''Expecting valid order from block \"'' @ b_type b @ ''\".'')"
  by (simp add: value_code_def)

lemma failing_gen:
  assumes "map_of lua_generators ty = Some gen" "ty \<in> set failing_types"
  shows "gen E stc (\<lambda>order n. value_code b order (tgt n) (code n)) b s \<noteq> Inr r"
  using assms
  by (auto simp: failing_types_def lua_generators_def gen_math_change_def gen_math_on_list_def
      gen_math_modulo_def gen_math_random_int_def gen_variables_text_def gbind_Inr_iff
      value_code_no_order)

lemma robot_not_null: "robot_gen tr args dev com E stc vtc b s \<noteq> Inr (None, t)"
  by (cases args) (auto simp: robot_gen_def Let_def gbind_Inr_iff)

lemma if_Some_null [simp]: "(if c then gcode x else gcode y) s = Inr (None, t) \<longleftrightarrow> False"
  by simp

lemma single_not_null: "gen_math_single d E stc vtc b s \<noteq> Inr (None, t)"
  unfolding gen_math_single_def Let_def gbind_Inr_iff by (auto split: if_splits)

lemma named_not_null:
  assumes "(ty, gen) \<in> set named_generators" and "ty \<noteq> ''variables_get''"
  shows "gen E stc vtc b s \<noteq> Inr (None, t)"
  using assms unfolding named_generators_def lua_generators_def
  apply simp
  apply (elim disjE conjE; simp add: gen_math_round_def gen_math_trig_def single_not_null)
  apply (unfold gen_controls_if_def gen_controls_sleep_def gen_controls_behaviour_def
    gen_controls_conditionalBehaviour_def gen_controls_behaviourTrigger_def
    gen_controls_whileUntil_def gen_controls_repeat_def gen_controls_timesExecuted_def
    gen_logic_compare_def gen_logic_operation_def gen_logic_negate_def gen_logic_constrain_def
    gen_logic_boolean_def gen_math_number_def gen_math_divisible_def gen_math_arithmetic_def
    gen_math_random_float_def gen_variables_set_def gen_variables_print_def
    gen_variables_print_stat_def gen_variables_sensor_get_def gen_variables_sensor_set_def
    gen_math_change_def gen_math_on_list_def
      gen_math_modulo_def gen_math_random_int_def gen_variables_text_def
      gen_controls_flow_statements_def)
  apply (auto simp: Let_def gbind_Inr_iff split: if_splits option.splits prod.splits)
  done

text \<open>Only a variable block without its field has no code at all.\<close>

definition var_titled :: "block \<Rightarrow> bool" where
  "var_titled b \<longleftrightarrow> b_type b \<noteq> ''variables_get'' \<or> getTitleValue b ''VAR'' \<noteq> None"

lemma gen_not_null:
  assumes gen: "map_of lua_generators ty = Some gen" and "ty = b_type b" and "var_titled b"
  shows "gen E stc vtc b s \<noteq> Inr (None, t)"
proof (cases "ty = ''variables_get''")
  case True
  then have "gen = gen_variables_get" using gen by (simp add: lua_generators_def)
  then show ?thesis using assms True by (simp add: gen_variables_get_def var_titled_def)
next
  case False
  from gen show ?thesis
    by (cases rule: table_cases) (simp_all add: named_not_null False robot_not_null)
qed

definition generable :: "block \<Rightarrow> bool" where
  "generable b \<longleftrightarrow> b_type b \<in> set (map fst lua_generators) \<and> b_type b \<notin> set failing_types \<and>
     (plugged (b_flags b) \<or> getCommentText b = [])"

lemma blockToCode_spine:
  assumes "blockToCode E b s = Inr r" and "c \<in> set (spine b)" and "\<not> disabled (b_flags c)"
    and "\<forall>d \<in> set (spine b). var_titled d"
  shows "generable c"
  using assms
proof (induction b arbitrary: s r rule: spine.induct)
  case (2 i ty ti mu ins nx fl cm)
  let ?b = "Block i ty ti mu ins nx fl cm"
  show ?case
  proof (cases "disabled fl")
    case True
    then show ?thesis using "2.IH" [of s r] "2.prems" by (auto simp: blockToCode.simps)
  next
    case False
    obtain gen where gen: "map_of lua_generators ty = Some gen"
      using "2.prems"(1) False by (cases "map_of lua_generators ty") (auto simp: blockToCode.simps)
    have ty: "ty \<in> set (map fst lua_generators)"
      using gen by (metis domI dom_map_of_conv_image_fst set_map)
    obtain code t where code: "gen E
         (\<lambda>n. gbind (blockToCode E (find_input n ins)) (\<lambda>c. gret (statement_code c)))
         (\<lambda>order n. value_code ?b order (find_input n ins) (blockToCode E (find_input n ins))) ?b s = Inr (code, t)"
      and scrub: "lua_scrub ?b code (blockToCode E nx) t = Inr r"
      using "2.prems"(1) False gen by (auto simp: blockToCode.simps Let_def gbind_Inr_iff)
    have nf: "ty \<notin> set failing_types"
      using failing_gen [OF gen, where b = ?b and tgt = "\<lambda>n. find_input n ins"
          and code = "\<lambda>n. blockToCode E (find_input n ins)"] code by auto
    have "code \<noteq> None"
      using gen_not_null [OF gen, of ?b] code "2.prems"(4) by (cases code) auto
    then obtain u v r' where com: "comment_code ?b t = Inr (u, v)" and nx: "blockToCode E nx v = Inr r'"
      using scrub by (auto simp: lua_scrub_def gbind_Inr_iff)
    have this_ok: "generable ?b"
      using com ty nf by (auto simp: generable_def comment_code_def split: if_splits)
    show ?thesis
    proof (cases "c = ?b")
      case True
      then show ?thesis using this_ok by simp
    next
      case False
      then show ?thesis using "2.IH" [OF nx] "2.prems" by auto
    qed
  qed
qed simp

lemma topBlocks_spine:
  assumes "topBlocksToCode E bs s = Inr r" and "b \<in> set bs"
  shows "\<exists>t r'. blockToCode E b t = Inr r'"
  using assms
proof (induction bs arbitrary: s r)
  case (Cons a bs)
  from Cons.prems(1) obtain c t cs u where "blockToCode E a s = Inr (c, t)" "topBlocksToCode E bs t = Inr (cs, u)"
    by (auto simp: gbind_Inr_iff)
  then show ?case using Cons.IH Cons.prems(2) by auto
qed simp


lemma demo_code:
  "(case workspaceToCode demo_env [demo_set] demo_state of Inl _ \<Rightarrow> False
    | Inr (c, t) \<Rightarrow> c = ''local x =   7\<newline>'' \<and> g_vars t = [(''b'', ''x'')])"
  by code_simp

lemma demo_spine: "spine demo_set = [demo_set]"
  by (simp add: demo_set_def)


end
