(* ===== verification/LuaMeaning.thy ===== *)
theory LuaMeaning
  imports LuaProps
begin

text \<open>
  What generated code says: disabled blocks leave no trace in it, a variable is declared at
  its first assignment only, and comparisons lose their nesting because no parentheses are written.
\<close>

subsection \<open>Disabled blocks\<close>

text \<open>The tree without its disabled blocks; what follows a disabled block moves up.\<close>

fun prune :: "block \<Rightarrow> block" and prune_input :: "input \<Rightarrow> input" where
  "prune NoBlock = NoBlock"
| "prune (Block i ty ti mu ins nx fl cm) =
     (if disabled fl then prune nx else Block i ty ti mu (map prune_input ins) (prune nx) fl cm)"
| "prune_input (Input n k t) = Input n k (prune t)"

fun uncommented :: "block \<Rightarrow> bool" and uncommented_input :: "input \<Rightarrow> bool" where
  "uncommented NoBlock = True"
| "uncommented (Block i ty ti mu ins nx fl cm) =
     (cm = None \<and> list_all uncommented_input ins \<and> uncommented nx)"
| "uncommented_input (Input n k t) = uncommented t"

lemma find_prune: "find_input n (map prune_input ins) = prune (find_input n ins)"
  by (induction n ins rule: find_input.induct) auto

lemma uncommented_find: "list_all uncommented_input ins \<Longrightarrow> uncommented (find_input n ins)"
  by (induction n ins rule: find_input.induct) auto

lemma uncommented_prune [simp]:
  "uncommented b \<Longrightarrow> uncommented (prune b)"
  "uncommented_input inp \<Longrightarrow> uncommented_input (prune_input inp)"
  by (induction b and inp rule: prune_prune_input.induct) (auto simp: list_all_iff)

lemma uncommented_descendants:
  "uncommented b \<Longrightarrow> d \<in> set (getDescendants b) \<Longrightarrow> getCommentText d = []"
  "uncommented_input inp \<Longrightarrow> d \<in> set (input_descendants inp) \<Longrightarrow> getCommentText d = []"
  by (induction b and inp rule: getDescendants_input_descendants.induct)
    (auto simp: list_all_iff getCommentText_def)

lemma uncommented_nested: "uncommented b \<Longrightarrow> allNestedComments b = []"
proof -
  assume "uncommented b"
  then have "filter (\<lambda>c. c \<noteq> []) (map getCommentText (getDescendants b)) = []"
    using uncommented_descendants(1) by (auto simp: filter_empty_conv)
  then show ?thesis unfolding allNestedComments_def Let_def by simp
qed

lemma uncommented_comment_code:
  assumes "uncommented (Block i ty ti mu ins nx fl cm)"
  shows "comment_code (Block i ty ti mu ins nx fl cm) = gret []"
proof -
  have "allNestedComments (i_target inp) = []" if "inp \<in> set ins" for inp
  proof -
    have "uncommented_input inp" using that assms by (simp add: list_all_iff)
    then show ?thesis by (cases inp) (simp add: uncommented_nested)
  qed
  then show ?thesis
    using assms
    by (auto simp: comment_code_def getCommentText_def concat_eq_Nil_conv intro!: arg_cong [where f = gret])
qed

text \<open>A generator that works looks only at the number, the titles and the mutation of its block.\<close>

definition same_head :: "block \<Rightarrow> block \<Rightarrow> bool" where
  "same_head b c \<longleftrightarrow> b_id b = b_id c \<and> b_mut b = b_mut c \<and> getTitleValue b = getTitleValue c"

definition head_only :: "generator \<Rightarrow> bool" where
  "head_only gen \<longleftrightarrow> (\<forall>E stc vtc vtc' b c. same_head b c \<longrightarrow> gen E stc vtc b = gen E stc vtc' c)"

lemma head_onlyI:
  "(\<And>E stc vtc vtc' b c. b_id b = b_id c \<Longrightarrow> b_mut b = b_mut c \<Longrightarrow> getTitleValue b = getTitleValue c \<Longrightarrow>
      debug_trace E b = debug_trace E c \<Longrightarrow> behaviour_head E b = behaviour_head E c \<Longrightarrow>
      gen E stc vtc b = gen E stc vtc' c) \<Longrightarrow> head_only gen"
  by (simp add: head_only_def same_head_def debug_trace_def behaviour_head_def)

lemma head_only_robot: "head_only (robot_gen tr args dev com)"
  by (cases args) (auto intro!: head_onlyI simp: fun_eq_iff robot_gen_def)

lemma simple_head_only:
  shows
    "head_only gen_controls_if" "head_only gen_controls_sleep"
    "head_only gen_controls_behaviour" "head_only gen_controls_conditionalBehaviour"
    "head_only gen_controls_behaviourTrigger" "head_only gen_controls_whileUntil"
    "head_only gen_controls_repeat" "head_only gen_controls_timesExecuted"
    "head_only (gen_logic_compare d)" "head_only (gen_logic_operation d)"
    "head_only (gen_logic_negate d)" "head_only gen_logic_constrain"
    "head_only gen_logic_boolean" "head_only gen_math_number"
    "head_only (gen_math_divisible d)" "head_only (gen_math_arithmetic d)"
    "head_only gen_math_random_float" "head_only gen_variables_get"
    "head_only gen_variables_set" "head_only gen_variables_print"
    "head_only gen_variables_print_stat" "head_only gen_controls_flow_statements"
    "head_only (gen_math_single d)" "head_only (gen_math_round d)"
    "head_only (gen_math_trig d)"
  unfolding gen_math_round_def gen_math_trig_def
  by (rule head_onlyI,
      simp only: gen_controls_if_def gen_controls_sleep_def gen_controls_behaviour_def
    gen_controls_conditionalBehaviour_def gen_controls_behaviourTrigger_def gen_controls_whileUntil_def
    gen_controls_repeat_def gen_controls_timesExecuted_def gen_logic_compare_def
    gen_logic_operation_def gen_logic_negate_def gen_logic_constrain_def
    gen_logic_boolean_def gen_math_number_def gen_math_divisible_def
    gen_math_arithmetic_def gen_math_random_float_def gen_variables_get_def
    gen_variables_set_def gen_variables_print_def gen_variables_print_stat_def
    gen_controls_flow_statements_def gen_math_single_def)+

lemma sensor_head_only: "head_only gen_variables_sensor_get" "head_only gen_variables_sensor_set"
  by (rule head_onlyI, simp add: fun_eq_iff gen_variables_sensor_get_def gen_variables_sensor_set_def)+

lemma named_head_only: "list_all (\<lambda>(ty, gen). ty \<in> set failing_types \<or> head_only gen) named_generators"
  unfolding named_generators_def lua_generators_def
  by (simp add: simple_head_only sensor_head_only) (simp add: failing_types_def)

lemma gen_same_head:
  assumes gen: "map_of lua_generators ty = Some gen" and nf: "ty \<notin> set failing_types" and head: "same_head b c"
  shows "gen E stc vtc b = gen E stc vtc' c"
proof -
  from gen have "head_only gen"
  proof (cases rule: table_cases)
    case named
    then show ?thesis using nf named_head_only by (auto simp: list_all_iff)
  qed (simp add: head_only_robot)
  then show ?thesis using head unfolding head_only_def by blast
qed


definition demo_disabled :: block where
  "demo_disabled = Block 1 ''controls_repeat'' [(''TIMES'', ''2'')] (0, 0)
     [Input ''DO'' StatementInput (Block 4 ''no such type'' [] (0, 0) [] demo_set (new_flags\<lparr>disabled := True\<rparr>) None)]
     NoBlock new_flags None"


subsection \<open>Declarations\<close>

named_theorems grows_intros

definition grows :: "'a gm \<Rightarrow> bool" where
  "grows m \<longleftrightarrow> (\<forall>s x t. m s = Inr (x, t) \<longrightarrow> set (g_vars s) \<subseteq> set (g_vars t))"

lemma grows_gret [grows_intros]: "grows (gret x)"
  by (simp add: grows_def)

lemma grows_gthrow [grows_intros]: "grows (gthrow e)"
  by (simp add: grows_def)

lemma grows_gbind [grows_intros]: "grows m \<Longrightarrow> (\<And>x. grows (f x)) \<Longrightarrow> grows (gbind m f)"
  unfolding grows_def gbind_Inr_iff by blast

lemma grows_if [grows_intros]: "(c \<Longrightarrow> grows m) \<Longrightarrow> (\<not> c \<Longrightarrow> grows n) \<Longrightarrow> grows (if c then m else n)"
  by simp

lemma grows_Let [grows_intros]: "grows (f x) \<Longrightarrow> grows (Let x f)"
  by simp

lemma grows_option [grows_intros]: "grows m \<Longrightarrow> (\<And>x. grows (f x)) \<Longrightarrow> grows (case z of None \<Rightarrow> m | Some x \<Rightarrow> f x)"
  by (cases z) auto

lemma grows_Exist [grows_intros]: "grows (ExistVariable E v)"
  by (auto simp: grows_def ExistVariable_def split: option.splits if_splits)

lemma grows_if_branches [grows_intros]:
  "(\<And>n. grows (stc n)) \<Longrightarrow> grows (if_branches stc n k code)"
  by (induction stc n k code rule: if_branches.induct) (subst if_branches.simps, intro grows_intros, auto)

lemma grows_robot: "(\<And>n. grows (stc n)) \<Longrightarrow> grows (robot_gen tr args dev com E stc vtc b)"
  by (cases args) (auto simp: robot_gen_def Let_def intro!: grows_intros)

lemma grows_sensor_get: "grows (gen_variables_sensor_get E stc vtc b)"
  by (auto simp: grows_def gen_variables_sensor_get_def ReturnCustomSensor_def split: option.splits)

lemma grows_sensor_set: "(\<And>n. grows (stc n)) \<Longrightarrow> grows (gen_variables_sensor_set E stc vtc b)"
  unfolding gen_variables_sensor_set_def
  by (intro grows_gbind) (auto simp: grows_def CreateCustomSensor_def Let_def)

definition grows_gen :: "generator \<Rightarrow> bool" where
  "grows_gen gen \<longleftrightarrow> (\<forall>E stc vtc b. (\<forall>n. grows (stc n)) \<longrightarrow> (\<forall>order n. grows (vtc order n)) \<longrightarrow> grows (gen E stc vtc b))"

lemma grows_genI:
  "(\<And>E stc vtc b. (\<And>n. grows (stc n)) \<Longrightarrow> (\<And>order n. grows (vtc order n)) \<Longrightarrow> grows (gen E stc vtc b)) \<Longrightarrow> grows_gen gen"
  by (simp add: grows_gen_def)

lemma simple_grows_gen:
  shows
    "grows_gen gen_controls_if" "grows_gen gen_controls_sleep"
    "grows_gen gen_controls_behaviour" "grows_gen gen_controls_conditionalBehaviour"
    "grows_gen gen_controls_behaviourTrigger" "grows_gen gen_controls_whileUntil"
    "grows_gen gen_controls_repeat" "grows_gen gen_controls_timesExecuted"
    "grows_gen (gen_logic_compare d)" "grows_gen (gen_logic_operation d)"
    "grows_gen (gen_logic_negate d)" "grows_gen gen_logic_constrain"
    "grows_gen gen_logic_boolean" "grows_gen gen_math_number"
    "grows_gen (gen_math_divisible d)" "grows_gen (gen_math_arithmetic d)"
    "grows_gen gen_math_random_float" "grows_gen gen_variables_get"
    "grows_gen gen_variables_set" "grows_gen gen_variables_print"
    "grows_gen gen_variables_print_stat" "grows_gen gen_controls_flow_statements"
    "grows_gen (gen_math_single d)" "grows_gen gen_math_change"
    "grows_gen gen_math_on_list" "grows_gen (gen_math_modulo d)"
    "grows_gen gen_math_random_int" "grows_gen gen_variables_text"
    "grows_gen (gen_math_round d)" "grows_gen (gen_math_trig d)"
  unfolding gen_math_round_def gen_math_trig_def
  by ((rule grows_genI, unfold gen_controls_if_def gen_controls_sleep_def gen_controls_behaviour_def
    gen_controls_conditionalBehaviour_def gen_controls_behaviourTrigger_def gen_controls_whileUntil_def
    gen_controls_repeat_def gen_controls_timesExecuted_def gen_logic_compare_def
    gen_logic_operation_def gen_logic_negate_def gen_logic_constrain_def
    gen_logic_boolean_def gen_math_number_def gen_math_divisible_def
    gen_math_arithmetic_def gen_math_random_float_def gen_variables_get_def
    gen_variables_set_def gen_variables_print_def gen_variables_print_stat_def
    gen_controls_flow_statements_def gen_math_single_def gen_math_change_def
    gen_math_on_list_def gen_math_modulo_def gen_math_random_int_def
    gen_variables_text_def,
      (intro grows_intros | assumption)+)[1])+

lemma named_grows_gen: "list_all (\<lambda>(ty, gen). grows_gen gen) named_generators"
  unfolding named_generators_def lua_generators_def
  by (simp add: simple_grows_gen) (simp add: grows_gen_def grows_sensor_get grows_sensor_set)

lemma table_grows_gen:
  assumes "map_of lua_generators ty = Some gen"
  shows "grows_gen gen"
  using assms
proof (cases rule: table_cases)
  case named
  then show ?thesis using named_grows_gen by (auto simp: list_all_iff)
next
  case (robot tr args dev com)
  then show ?thesis by (simp add: grows_gen_def grows_robot)
qed

lemma grows_comment: "grows (comment_code b)"
  by (cases b) (auto simp: comment_code_def intro!: grows_intros)

lemma grows_scrub: "grows next \<Longrightarrow> grows (lua_scrub b code next)"
  unfolding lua_scrub_def by (intro grows_intros grows_comment)

lemma grows_value_code: "grows code \<Longrightarrow> grows (value_code b order t code)"
  unfolding value_code_def by (intro grows_intros)

lemma grows_blockToCode: "grows (blockToCode E b)"
proof (induction E b rule: blockToCode.induct)
  case (2 E i ty ti mu ins nx fl cm)
  show ?case
  proof (cases "disabled fl")
    case True
    then show ?thesis using "2.IH"(1) by (simp add: blockToCode.simps)
  next
    case False
    show ?thesis
    proof (cases "map_of lua_generators ty")
      case None
      then show ?thesis using False by (simp add: blockToCode.simps grows_gthrow)
    next
      case (Some gen)
      have inp: "grows (blockToCode E (find_input n ins))" for n
        using "2.IH"(2) [OF False Some refl] .
      show ?thesis
        unfolding blockToCode.simps Let_def if_not_P [OF False] Some option.case
        by (intro grows_gbind grows_scrub "2.IH"(4) [OF False Some refl]
            table_grows_gen [OF Some, unfolded grows_gen_def, rule_format] inp grows_gret grows_value_code)
    qed
  qed
qed (simp add: blockToCode.simps grows_gret)

lemma grows_top: "grows (topBlocksToCode E bs)"
  by (induction bs) (auto intro!: grows_intros grows_blockToCode)

lemma ExistVariable_notes:
  "ExistVariable E v s = Inr (d, t) \<Longrightarrow> g_first E = Some name \<Longrightarrow> \<not> g_proto E v \<Longrightarrow> (name, v) \<in> set (g_vars t)"
  by (auto simp: ExistVariable_def split: if_splits)

lemma ExistVariable_known:
  "(name, v) \<in> set (g_vars s) \<Longrightarrow> g_first E = Some name \<Longrightarrow> ExistVariable E v s = Inr (True, s)"
  by (force simp: ExistVariable_def)

text \<open>The block that sets \<open>v\<close>, alone.\<close>

definition set_block :: "nat \<Rightarrow> string \<Rightarrow> input list \<Rightarrow> block" where
  "set_block i v ins = Block i ''variables_set'' [(''VAR'', v)] (0, 0) ins NoBlock new_flags None"

lemma set_block_unfold:
  "blockToCode E (set_block i v ins) =
     gbind (blockToCode E (find_input ''VALUE'' ins)) (\<lambda>value.
     gbind (ExistVariable E v) (\<lambda>d.
     gbind (comment_code (set_block i v ins)) (\<lambda>com.
       gret (com @ debug_trace E (set_block i v ins) @ (if \<not> d then ''local '' else []) @ v @ '' = '' @
        js_or (statement_code value) ''0'' @ ''\<newline>''))))"
proof -
  have gen: "map_of lua_generators ''variables_set'' = Some gen_variables_set"
    by (simp add: lua_generators_def)
  show ?thesis
    unfolding set_block_def blockToCode.simps gen
    by (simp add: new_flags_def gen_variables_set_def gbind_assoc lua_scrub_def js_str_def Let_def
        cong: if_cong)
qed

lemma set_block_code:
  assumes "blockToCode E (set_block i v ins) s = Inr (c, t)"
  obtains v0 u d com w where "blockToCode E (find_input ''VALUE'' ins) s = Inr (v0, u)"
    "ExistVariable E v u = Inr (d, w)" "comment_code (set_block i v ins) w = Inr (com, t)"
    "c = com @ debug_trace E (set_block i v ins) @ (if \<not> d then ''local '' else []) @ v @ '' = '' @
        js_or (statement_code v0) ''0'' @ ''\<newline>''"
  using assms unfolding set_block_unfold gbind_Inr_iff by auto

lemma comment_code_state: "comment_code b s = Inr (c, t) \<Longrightarrow> t = s"
  by (cases b) (auto simp: comment_code_def split: if_splits)


lemma demo_twice:
  "(case blockToCode demo_env (set_block 1 ''x'' []) demo_state of Inl _ \<Rightarrow> False | Inr (c, s1) \<Rightarrow>
     c = ''local x = 0\<newline>'' \<and>
     (case blockToCode demo_env (set_block 2 ''x'' []) s1 of Inl _ \<Rightarrow> False | Inr (c', s3) \<Rightarrow>
        c' = ''x = 0\<newline>''))"
  by code_simp


subsection \<open>Comparisons lose their nesting\<close>

definition compare_block :: "nat \<Rightarrow> string \<Rightarrow> block \<Rightarrow> block \<Rightarrow> block" where
  "compare_block i oper x y = Block i ''logic_compare'' [(''OP'', oper)] (0, 0)
     [Input ''A'' ValueInput x, Input ''B'' ValueInput y] NoBlock (new_flags\<lparr>plugged := True\<rparr>) None"

text \<open>A block whose code is the text \<open>c\<close>, a single line that does not start with white space.\<close>

definition one_line :: "genv \<Rightarrow> block \<Rightarrow> string \<Rightarrow> bool" where
  "one_line E b c \<longleftrightarrow> blockToCode E b = gret c \<and> c \<noteq> [] \<and> CHR 10 \<notin> set c \<and> \<not> js_space (hd c)"

lemma prefix_rest_id: "CHR 10 \<notin> set c \<Longrightarrow> prefix_rest p c = c"
  by (induction p c rule: prefix_rest.induct) auto

lemma one_line_trim: "one_line E b c \<Longrightarrow> js_trimLeft (js_or (statement_code c) e) = c"
  by (cases c) (auto simp: one_line_def statement_code_def prefixLines_def js_trimLeft_def js_or_def prefix_rest_id js_space_def)

lemma one_line_compare:
  assumes "one_line E x cx" "one_line E y cy" "map_of compare_operators oper = Some sign" "CHR 10 \<notin> set sign"
  shows "one_line E (compare_block i oper x y) (cx @ '' '' @ sign @ '' '' @ cy)"
proof -
  have gen: "map_of lua_generators ''logic_compare'' = Some (gen_logic_compare block_is_truthy)"
    by (simp add: lua_generators_def)
  have "blockToCode E x = gret cx" "blockToCode E y = gret cy" "cx \<noteq> []" "hd (cx @ zs) = hd cx" for zs
    using assms by (auto simp: one_line_def)
  then show ?thesis
    using assms(2-) one_line_trim [OF assms(1)] one_line_trim [OF assms(2)] assms(1)
    by (simp add: one_line_def compare_block_def blockToCode.simps new_flags_def gen gen_logic_compare_def
        js_member_def js_str_def paren_unless_def block_is_truthy_def lua_scrub_def comment_code_def)
qed

text \<open>C23. Nested comparisons are ambiguous: because the block itself is passed as
  \<open>opt_dropParens\<close>, comparing the result of a comparison with \<open>z\<close> and comparing \<open>x\<close> with
  the result of a comparison are generated as the same text, which Lua reads in the first way.\<close>

theorem compare_nesting_lost:
  assumes "one_line E x cx" "one_line E y cy" "one_line E z cz"
    and "map_of compare_operators oper = Some sign" "map_of compare_operators oper' = Some sign'"
  shows "blockToCode E (compare_block i oper' (compare_block j oper x y) z) =
         blockToCode E (compare_block k oper x (compare_block l oper' y z))"
proof -
  have "CHR 10 \<notin> set sg" if "map_of compare_operators op2 = Some sg" for op2 sg
    using that by (auto simp: compare_operators_def split: if_splits)
  then show ?thesis
    using one_line_compare [OF one_line_compare [OF assms(1,2,4), of j] assms(3,5), of i]
      one_line_compare [OF assms(1) one_line_compare [OF assms(2,3,5), of l] assms(4), of k] assms(4,5)
    by (simp add: one_line_def)
qed

definition demo_num :: "nat \<Rightarrow> string \<Rightarrow> block" where
  "demo_num i d = Block i ''math_number'' [(''NUM'', d)] (0, 0) [] NoBlock (new_flags\<lparr>plugged := True\<rparr>) None"

lemma demo_num_line: "one_line demo_env (demo_num i ''1'') ''1''"
proof -
  have "map_of lua_generators ''math_number'' = Some gen_math_number" by (simp add: lua_generators_def)
  then show ?thesis
    by (simp add: one_line_def demo_num_def demo_env_def blockToCode.simps new_flags_def gen_math_number_def
        js_str_def lua_scrub_def comment_code_def js_trim_def js_trimLeft_def js_space_def)
qed

theorem compare_nesting_lost_witness:
  "blockToCode demo_env (compare_block 1 ''EQ'' (compare_block 2 ''LT'' (demo_num 3 ''1'') (demo_num 4 ''1'')) (demo_num 5 ''1'')) =
   blockToCode demo_env (compare_block 1 ''LT'' (demo_num 3 ''1'') (compare_block 2 ''EQ'' (demo_num 4 ''1'') (demo_num 5 ''1'')))"
  by (rule compare_nesting_lost [OF demo_num_line demo_num_line demo_num_line,
      where sign = "''<''" and sign' = "''==''"]) (simp_all add: compare_operators_def)

end
