(* ===== verification/Messages.thy ===== *)
theory Messages
  imports Prelude
begin

text \<open>
  The message tables of the two languages, \<open>languages/en.js\<close> and \<open>languages/es.js\<close>, as
  association lists in the order of the assignments; loading one of the files makes \<open>Yatay.Msg\<close>
  that table. Characters are the code points of the sources.
\<close>

subsection \<open>English\<close>

definition msg_en :: "(string \<times> string) list" where
  "msg_en = [
     (''DIALOG_CODE_LABEL'', ''Generated code''),
     (''DIALOG_BUTIA_CHANGED'', ''Buti'' @ [CHR 225] @ '' robotic kit has changed.''),
     (''DIALOG_RUN'', ''Run''),
     (''DIALOG_SAVE'', ''Save''),
     (''DIALOG_LOADER_LABEL'', ''Project chooser!''),
     (''DIALOG_OPEN'', ''Open''),
     (''DIALOG_DELETEDBBEHAVIOURS'', ''Delete''),
     (''DIALOG_LOCAL_INPUT'', ''Local''),
     (''DIALOG_REMOTE_INPUT'', ''Remote''),
     (''DIALOG_TXT_REMOTE_INPUT'', ''Stored data: ''),
     (''DIALOG_REMOTE_LOADER'', ''load''),
     (''DIALOG_LOADING'', ''loading...''),
     (''DIALOG_PROJECT'', ''Projects''),
     (''DIALOG_BEHAVIOURS'', ''Behaviours''),
     (''DIALOG_NO_BEHAVIOURS'', ''there is none.''),
     (''DIALOG_START'', ''Start''),
     (''DIALOG_PROJMANAGER_LABEL'', ''Welcome to Yatay!''),
     (''DIALOG_NEW_PROJ'', ''New project''),
     (''DIALOG_REMOTE_PROJ'', ''Join project''),
     (''DIALOG_TXT_REMOTE_PROJ'', ''Stored projects: ''),
     (''DIALOG_PROJ_NAME'', ''Name: ''),
     (''DIALOG_NO_PROJS'', ''there is none.''),
     (''DIALOG_DELETE_ALL'', ''All''),
     (''DIALOG_DELETE_WORKSPACE'', ''Only workspace''),
     (''DIALOG_DELETE_LABEL'', ''What do you want to delete?''),
     (''DIALOG_MULTISELECT_NONE'', ''None selected''),
     (''DIALOG_MULTISELECT_ALL'', '' Select all''),
     (''DIALOG_EDITION_ERROR_TITLE'', ''Ooops!''),
     (''DIALOG_EDITION_ERROR_BTN'', ''View detail''),
     (''DIALOG_EDITION_ERROR_MSG'', ''Something is wrong with that code. Please check it.''),
     (''DIALOG_SPEED_TITLE'', ''Motors speed''),
     (''DIALOG_SPEED_MSG'', ''Here you can set the motors speed.''),
     (''DIALOG_NONBXS_BLOCKS_WARN'', ''Blocks out of the main block are not taken into account.''),
     (''CANNOT_PARSE_BLOCKS'', ''Some of the blocks loaded are not available now. The system could not made them up.''),
     (''NAME_NOT_TEXT'', ''The name first letter must not be a number!''),
     (''NAME_RESERVED'', ''That name is reserved by Lua, choose another one!''),
     (''DIALOG_DELETE_N'', ''Sure you want to delete these behaviours?''),
     (''FILE_BLOCKS'', ''blocks''),
     (''FILE_CODE'', ''code''),
     (''TOUR_TOOLBOX_TITLE'', ''Where are the blocks?''),
     (''TOUR_TOOLBOX_CONTENT'', ''You will find the blocks here, starts with behaviour blocks!''),
     (''TOUR_RBTEST_TITLE'', ''Do you want to calibrate the robot?''),
     (''TOUR_RBTEST_CONTENT'', ''Here you can test sensors and actuators from robot Buti'' @ [CHR 225] @ ''.''),
     (''TOUR_RUN_TITLE'', ''Do you want to run your behaviours?''),
     (''TOUR_RUN_CONTENT'', ''Execute your behaviours and also you can debug it!''),
     (''TOUR_EDIT_TITLE'', ''What code is being generated?''),
     (''TOUR_EDIT_CONTENT'', ''You can edit and test the generated code.''),
     (''TOUR_BXREADY_TITLE'', ''Did you finish assembling your behavior?''),
     (''TOUR_BXREADY_CONTENT'', ''You can check your behaviour as ready and start with another!''),
     (''TOUR_MORE_TITLE'', ''There are more features?''),
     (''TOUR_MORE_CONTENT'', ''You can calibrate, edit your code, load and save project, set your behaviours as ready, among others...''),
     (''TOUR_NEXT'', ''next''),
     (''TOUR_PREV'', ''prev''),
     (''TOUR_QUIT'', ''quit''),
     (''POPUP_RESULTS_ROBOTINFO'', ''Robot Info: ''),
     (''POPUP_RESULTS_CONSOLE'', ''Console: ''),
     (''CONTROLS_IF_TOOLTIP'', ''If the first condition is true execute first things, otherwise the second ones.''),
     (''CONTROLS_IF_HELPURL'', []),
     (''CONTROLS_IF_MSG_IF'', ''if''),
     (''CONTROLS_IF_MSG_THEN'', ''then''),
     (''CONTROLS_IF_MSG_ELSEIF'', ''else if''),
     (''CONTROLS_IF_MSG_ELSE'', ''else''),
     (''CONTROL_OPERATION_AND'', ''and''),
     (''CONTROL_OPERATION_OR'', ''or''),
     (''CONTROL_OPERATION_HELPURL'', []),
     (''LOGIC_OPERATION_TOOLTIP_AND'', ''If both condition are true, this block will be true.''),
     (''LOGIC_OPERATION_TOOLTIP_OR'', ''If at least one condition is true, this block will be true.''),
     (''CONTROL_NEGATE_HELPURL'', []),
     (''CONTROL_NEGATE_TITLE'', ''not %1''),
     (''CONTROL_NEGATE_TOOLTIP'', ''The block will be true if is true the opposite to the condition.''),
     (''CONTROL_BOOLEAN_TRUE'', ''true''),
     (''CONTROL_BOOLEAN_FALSE'', ''false''),
     (''CONTROL_BOOLEAN_HELPURL'', []),
     (''CONTROL_BOOLEAN_TOOLTIP'', ''True or false block''),
     (''CONTROL_WHILE'', ''while''),
     (''CONTROL_WHILE_TOOLTIP'', ''While the condition is satisfied the blocks inside this will be executed.''),
     (''CONTROL_BEHAVIOUR'', ''name''),
     (''CONTROL_BEHAVIOUR_PRIORITY'', ''   priority''),
     (''CONTROL_BEHAVIOUR_TOOLTIP'', ''Build a new behaviour with a name and prority.''),
     (''CONTROLS_BEHAVIOUR_ACTION'', ''action''),
     (''CONTROLS_BEHAVIOUR_CONDITION'', ''trigger''),
     (''CONTROL_SLEEP'', ''wait''),
     (''CONTROL_SLEEP_TOOLTIP'', ''The behaviour will pause for the time chosen.''),
     (''CONTROL_REPEAT'', ''repeat''),
     (''CONTROL_REPEAT_TIMES'', '' times''),
     (''CONTROL_REPEAT_TOOLTIP'', ''Repeat something a number of times ''),
     (''CONTROL_TIMES_EXECUTED'', ''times executed''),
     (''VARIABLES_GET_TITLE'', []),
     (''VARIABLES_GET_TAIL'', []),
     (''VARIABLES_GET_TOOLTIP'', ''Get value of variable''),
     (''VARIABLES_GET_CREATE_SET'', []),
     (''VARIABLES_SET_TITLE'', ''set as''),
     (''VARIABLES_SET_TAIL'', []),
     (''VARIABLES_PRINT'', ''print''),
     (''COMPLEX_SENSOR_SET_TITLE'', ''build sensor ''),
     (''COMPLEX_SENSOR_GET_TITLE'', ''sensor''),
     (''MATH_CONSTRAIN_HELPURL'', []),
     (''MATH_CONSTRAIN_TITLE'', ''%1 between %2 and %3''),
     (''MATH_CONSTRAIN_TOOLTIP'', []),
     (''MATH_ROUND_OPERATOR_ROUND'', ''round''),
     (''MATH_ROUND_OPERATOR_ROUNDUP'', ''round up''),
     (''MATH_ROUND_OPERATOR_ROUNDDOWN'', ''round down''),
     (''MATH_TRIG_TOOLTIP_SIN'', ''sin''),
     (''MATH_TRIG_TOOLTIP_ASIN'', ''asin''),
     (''MATH_SINGLE_TOOLTIP_ROOT'', ''square root''),
     (''MATH_SINGLE_TOOLTIP_ABS'', ''abs''),
     (''MATH_SINGLE_TOOLTIP_NEG'', ''opposite''),
     (''MATH_DIVISIBLE_BY'', ''divisible by''),
     (''CODE_INITIALIZEVARS'', ''--Initializing libraries and attributes:\<newline>''),
     (''CODE_COMPETE'', ''--Competing for execution:\<newline>''),
     (''CODE_RUN'', ''--Behaviour'' @ [CHR 39] @ ''s action when executes:\<newline>''),
     (''CODE_DONE'', ''--Done, leave empty the active behaviour place:\<newline>''),
     (''CODE_INIT'', ''--Registers the behaviour so it can compete:\<newline>''),
     (''CODE_RELEASE'', ''--Function that runs when this behaviour is switched:\<newline>''),
     (''CODE_WHILE'', ''--The sleep prevents to flood the system with too many repetitions:\<newline>''),
     (''SVG_BEHAVIOURS'', ''<svg width=\"128pt\" height=\"32pt\"><path fill=\"#5B8FA6\" d=\" M 17.37 7.50 C 20.56 7.07 23.79 7.34 27.00 7.30 C 62.28 7.31 97.57 7.32 132.85 7.30 C 133.23 15.87 132.89 24.45 133.03 33.03 C 103.00 33.00 72.98 32.98 42.96 33.03 C 38.77 32.67 36.46 38.03 32.17 37.03 C 29.90 36.01 28.04 34.28 25.80 33.20 C 20.97 32.72 16.10 33.29 11.26 32.82 C 11.35 27.21 11.26 21.59 11.29 15.98 C 10.94 12.15 13.94 8.74 17.37 7.50 Z\" /></svg>'')]"

subsection \<open>Spanish\<close>

definition msg_es :: "(string \<times> string) list" where
  "msg_es = [
     (''DIALOG_CODE_LABEL'', ''C'' @ [CHR 243] @ ''digo Generado''),
     (''DIALOG_BUTIA_CHANGED'', ''El kit del robot Buti'' @ [CHR 225] @ '' ha cambiado.''),
     (''DIALOG_RUN'', ''Probar''),
     (''DIALOG_SAVE'', ''Guardar''),
     (''DIALOG_LOADER_LABEL'', ''Elige un proyecto!''),
     (''DIALOG_OPEN'', ''Abrir''),
     (''DIALOG_DELETEDBBEHAVIOURS'', ''Eliminar''),
     (''DIALOG_LOCAL_INPUT'', ''Local''),
     (''DIALOG_REMOTE_INPUT'', ''Servidor''),
     (''DIALOG_TXT_REMOTE_INPUT'', ''Datos almacenados: ''),
     (''DIALOG_REMOTE_LOADER'', ''obtener''),
     (''DIALOG_LOADING'', ''cargando...''),
     (''DIALOG_PROJECT'', ''Proyectos''),
     (''DIALOG_BEHAVIOURS'', ''Comportamientos''),
     (''DIALOG_NO_BEHAVIOURS'', ''no existe ninguno. ''),
     (''DIALOG_START'', ''Comenzar''),
     (''DIALOG_PROJMANAGER_LABEL'', ''Bienvenido a Yatay!''),
     (''DIALOG_NEW_PROJ'', ''Crear nuevo proyecto''),
     (''DIALOG_REMOTE_PROJ'', ''Unirse a un proyecto''),
     (''DIALOG_TXT_REMOTE_PROJ'', ''Proyectos existentes: ''),
     (''DIALOG_PROJ_NAME'', ''Nombre: ''),
     (''DIALOG_NO_PROJS'', ''no existe ninguno. ''),
     (''DIALOG_DELETE_ALL'', ''Todo''),
     (''DIALOG_DELETE_WORKSPACE'', ''S'' @ [CHR 243] @ ''lo pizarra''),
     (''DIALOG_DELETE_LABEL'', [CHR 191] @ ''Qu'' @ [CHR 233] @ '' deseas borrar?''),
     (''DIALOG_MULTISELECT_NONE'', ''Ninguno selec.''),
     (''DIALOG_MULTISELECT_ALL'', ''Selec. todos''),
     (''DIALOG_EDITION_ERROR_TITLE'', ''Ooops!''),
     (''DIALOG_EDITION_ERROR_BTN'', ''Ver detalle''),
     (''DIALOG_EDITION_ERROR_MSG'', ''Algo esta mal en el c'' @ [CHR 243] @ ''digo editado. Rev'' @ [CHR 237] @ ''salo!''),
     (''DIALOG_SPEED_TITLE'', ''Velocidad Motores''),
     (''DIALOG_SPEED_MSG'', ''Puedes configurar aqu'' @ [CHR 237] @ '' que tan r'' @ [CHR 225] @ ''pido se moveran los motores.''),
     (''DIALOG_NONBXS_BLOCKS_WARN'', ''Los bloques fuera del bloque principal no son tenidos en cuenta.''),
     (''CANNOT_PARSE_BLOCKS'', ''Algunos bloques cargados no existen mas. No son comunes y no se pudieron recrear.''),
     (''NAME_NOT_TEXT'', ''No se puede comenzar el nombre con n'' @ [CHR 250] @ ''meros!''),
     (''NAME_RESERVED'', ''Esa palabra esta reservada por Lua elige otra!''),
     (''DIALOG_DELETE_N'', [CHR 191] @ ''Seguro quieres eliminar los comportamientos?''),
     (''FILE_BLOCKS'', ''bloques''),
     (''FILE_CODE'', ''codigo''),
     (''TOUR_TOOLBOX_TITLE'', [CHR 191] @ ''D'' @ [CHR 243] @ ''nde est'' @ [CHR 225] @ ''n los bloques?''),
     (''TOUR_TOOLBOX_CONTENT'', ''Aqu'' @ [CHR 237] @ '' encontrar'' @ [CHR 225] @ ''s todos los bloques, comienza con un bloque de comportamiento!''),
     (''TOUR_RBTEST_TITLE'', [CHR 191] @ ''Qu'' @ [CHR 233] @ '' valores dan los sensores?''),
     (''TOUR_RBTEST_CONTENT'', ''Puedes probar y calibrar los sensores y actuadores del robot Buti'' @ [CHR 225] @ ''.''),
     (''TOUR_RUN_TITLE'', [CHR 191] @ ''Quieres ejecutar tus comportamientos?''),
     (''TOUR_RUN_CONTENT'', ''Comienza la ejecuci'' @ [CHR 243] @ ''n de tus comportamientos, tambi'' @ [CHR 233] @ ''n puedes depurar!''),
     (''TOUR_EDIT_TITLE'', [CHR 191] @ ''Qu'' @ [CHR 233] @ '' c'' @ [CHR 243] @ ''digo se est'' @ [CHR 225] @ '' generando?''),
     (''TOUR_EDIT_CONTENT'', ''Puedes editar y probar el c'' @ [CHR 243] @ ''digo de tus comportamientos.''),
     (''TOUR_BXREADY_TITLE'', [CHR 191] @ ''Terminaste de armar tu comportamiento?''),
     (''TOUR_BXREADY_CONTENT'', ''Puedes marcar tu comportamiento como listo y seguir con otro!''),
     (''TOUR_MORE_TITLE'', [CHR 191] @ ''M'' @ [CHR 225] @ ''s funcionalidades?''),
     (''TOUR_MORE_CONTENT'', ''Puedes calibrar el robot, editar c'' @ [CHR 243] @ ''digo, cargar o guardar proyectos, marcar comportamientos como listos, entre otras cosas...''),
     (''TOUR_NEXT'', ''siguiente''),
     (''TOUR_PREV'', ''anterior''),
     (''TOUR_QUIT'', ''salir''),
     (''POPUP_RESULTS_ROBOTINFO'', ''Info. del Robot: ''),
     (''POPUP_RESULTS_CONSOLE'', ''Consola: ''),
     (''CONTROLS_IF_TOOLTIP'', ''Si la condicion es verdadera se hace lo primero, de lo contrario se hace lo segundo.''),
     (''CONTROLS_IF_HELPURL'', []),
     (''CONTROLS_IF_MSG_IF'', ''si''),
     (''CONTROLS_IF_MSG_THEN'', ''entonces''),
     (''CONTROLS_IF_MSG_ELSEIF'', ''sino si''),
     (''CONTROLS_IF_MSG_ELSE'', ''sino''),
     (''CONTROL_OPERATION_AND'', ''y''),
     (''CONTROL_OPERATION_OR'', ''o''),
     (''CONTROL_OPERATION_HELPURL'', []),
     (''LOGIC_OPERATION_TOOLTIP_AND'', ''Si se cumplen ambas condiciones, el bloque ser'' @ [CHR 225] @ '' verdadero.''),
     (''LOGIC_OPERATION_TOOLTIP_OR'', ''Si se cumple al menos una de las condiciones, el bloque ser'' @ [CHR 225] @ '' verdadero.''),
     (''CONTROL_NEGATE_HELPURL'', []),
     (''CONTROL_NEGATE_TITLE'', ''no %1''),
     (''CONTROL_NEGATE_TOOLTIP'', ''El bloque es verdadero si se cumple lo opuesto a la condici'' @ [CHR 243] @ ''n.''),
     (''CONTROL_BOOLEAN_TRUE'', ''verdadero''),
     (''CONTROL_BOOLEAN_FALSE'', ''falso''),
     (''CONTROL_BOOLEAN_HELPURL'', []),
     (''CONTROL_BOOLEAN_TOOLTIP'', ''Un bloque de verdadero o de falso, sirve para comparar o para hacer una condicion siempre verdadera o falsa.''),
     (''CONTROL_WHILE'', ''mientras''),
     (''CONTROL_WHILE_TOOLTIP'', ''Mientras la condici'' @ [CHR 243] @ ''n sea verdadera se ejecuta lo que este dentro de este bloque.''),
     (''CONTROL_BEHAVIOUR'', ''nombre''),
     (''CONTROL_BEHAVIOUR_PRIORITY'', ''   prioridad''),
     (''CONTROL_BEHAVIOUR_TOOLTIP'', ''Crea un nuevo comportamiento del robot con el nombre y prioridad elegidas.''),
     (''CONTROLS_BEHAVIOUR_ACTION'', ''acci'' @ [CHR 243] @ ''n''),
     (''CONTROLS_BEHAVIOUR_CONDITION'', ''disparador''),
     (''CONTROL_SLEEP'', ''esperar''),
     (''CONTROL_SLEEP_TOOLTIP'', ''El programa espera la cantidad de tiempo ingresada para continuar ejecutando.''),
     (''CONTROL_REPEAT'', ''repetir ''),
     (''CONTROL_REPEAT_TIMES'', '' veces''),
     (''CONTROL_REPEAT_TOOLTIP'', ''Repetir un numero determinado de veces''),
     (''CONTROL_TIMES_EXECUTED'', ''veces ejecutado''),
     (''VARIABLES_GET_TITLE'', []),
     (''VARIABLES_GET_TAIL'', []),
     (''VARIABLES_GET_TOOLTIP'', ''Obtener valor de una variable''),
     (''VARIABLES_GET_CREATE_SET'', []),
     (''VARIABLES_SET_TITLE'', ''guardar en''),
     (''VARIABLES_SET_TAIL'', []),
     (''VARIABLES_PRINT'', ''imprimir''),
     (''COMPLEX_SENSOR_SET_TITLE'', ''crear sensor ''),
     (''COMPLEX_SENSOR_GET_TITLE'', ''sensor ''),
     (''MATH_CONSTRAIN_HELPURL'', []),
     (''MATH_CONSTRAIN_TITLE'', ''%1 entre %2 y %3''),
     (''MATH_CONSTRAIN_TOOLTIP'', []),
     (''MATH_ROUND_OPERATOR_ROUND'', ''redondear''),
     (''MATH_ROUND_OPERATOR_ROUNDUP'', ''redondear arriba''),
     (''MATH_ROUND_OPERATOR_ROUNDDOWN'', ''redondear abajo''),
     (''MATH_TRIG_TOOLTIP_SIN'', ''sen''),
     (''MATH_TRIG_TOOLTIP_ASIN'', ''asen''),
     (''MATH_SINGLE_TOOLTIP_ROOT'', ''raiz cuad.''),
     (''MATH_SINGLE_TOOLTIP_ABS'', ''valor abs''),
     (''MATH_SINGLE_TOOLTIP_NEG'', ''opuesto''),
     (''MATH_DIVISIBLE_BY'', ''divisible entre''),
     (''CODE_INITIALIZEVARS'', ''--Inicializaci'' @ [CHR 243] @ ''n de librer'' @ [CHR 237] @ ''as y atributos:\<newline>''),
     (''CODE_COMPETE'', ''--Competici'' @ [CHR 243] @ ''n para poder ejecutar:\<newline>''),
     (''CODE_RUN'', ''--Acci'' @ [CHR 243] @ ''n del comportamiento al ejecutar:\<newline>''),
     (''CODE_DONE'', ''--Finalizado, dejo mi lugar de comportamiento activo vac'' @ [CHR 237] @ ''o:\<newline>''),
     (''CODE_INIT'', ''--Registra el comportamiento para que pueda competir:\<newline>''),
     (''CODE_RELEASE'', ''--Funci'' @ [CHR 243] @ ''n ejecutada al perder el lugar de comportamiento activo:\<newline>''),
     (''CODE_WHILE'', ''--El sleep reviene sobrecargar el sistema con demasiadas repeticiones:\<newline>''),
     (''SVG_BEHAVIOURS'', ''<svg width=\"128pt\" height=\"32pt\"><path fill=\"#5B8FA6\" d=\" M 17.37 7.50 C 20.56 7.07 23.79 7.34 27.00 7.30 C 62.28 7.31 97.57 7.32 132.85 7.30 C 133.23 15.87 132.89 24.45 133.03 33.03 C 103.00 33.00 72.98 32.98 42.96 33.03 C 38.77 32.67 36.46 38.03 32.17 37.03 C 29.90 36.01 28.04 34.28 25.80 33.20 C 20.97 32.72 16.10 33.29 11.26 32.82 C 11.35 27.21 11.26 21.59 11.29 15.98 C 10.94 12.15 13.94 8.74 17.37 7.50 Z\" /></svg>'')]"

subsection \<open>\<open>Yatay.Msg\<close>\<close>

datatype language = English | Spanish

definition language_table :: "language \<Rightarrow> (string \<times> string) list" where
  "language_table l = (case l of English \<Rightarrow> msg_en | Spanish \<Rightarrow> msg_es)"

text \<open>A message without an entry reads as \<open>undefined\<close>.\<close>

definition yatay_msg :: "language \<Rightarrow> string \<Rightarrow> string option" where
  "yatay_msg l k = map_of (language_table l) k"

definition message_keys :: "language \<Rightarrow> string list" where
  "message_keys l = map fst (language_table l)"

end
