(* ===== verification/BlockDefs.thy ===== *)
theory BlockDefs
  imports Blocks Messages
begin

text \<open>
  The block types of the front end: the objects \<open>Blockly.Blocks[type]\<close> of
  \<open>blocks/control.js\<close>, \<open>butia.js\<close>, \<open>logic.js\<close>, \<open>math.js\<close> and \<open>variables.js\<close>. An
  \<open>init\<close> method is a sequence of calls on the new block; each such sequence is given as data,
  in the order of the source, and \<open>run_call\<close> says what a call does
  (\<open>Blockly.Block\<close>, \<open>Blockly.Input\<close> and \<open>Blockly.Field\<close> of \<open>blockly_compressed.js\<close>).
\<close>

subsection \<open>The calls of \<open>init\<close>\<close>

text \<open>A text of the interface; \<open>Code\<close> is a single character outside the Latin-1 range or an escape.\<close>

datatype label = Lit string | Code nat | YMsg string | BMsg string | Plus label string

datatype validator = AnyText | NumberText

datatype field =
    FLabel label
  | TextInput label validator
  | Dropdown "(label \<times> string) list"
  | Variable label
  | Image string

text \<open>
  A tooltip is a text, or a function that looks the value of a title up in a table;
  \<open>TipMissing\<close> is the function that reads \<open>thisBlock.TOOLTIPS\<close>, which no block has.
\<close>

datatype tooltip = Tip label | TipBy string "(string \<times> label) list" | TipMissing string

datatype bcall =
    SetHelpUrl label
  | SetColour nat
  | SetTooltip tooltip
  | AppendDummyInput
  | AppendValueInput string
  | AppendStatementInput string
  | SetCheck string
  | AppendTitle field "string option"
  | InterpolateMsg label "(string \<times> string) list"
  | SetPreviousStatement bool
  | SetNextStatement bool
  | SetOutput "string option"
  | SetInputsInline bool
  | SetMovable bool
  | SetMutator "string list"
  | NoContextMenu
  | ContextMsg label
  | ContextType string
  | ClearElseif
  | ClearElse
  | NewSensor label

text \<open>What the calls need to know: the two message tables and the writing direction.\<close>

record benv =
  y_msg :: "string \<Rightarrow> string option" \<comment> \<open>\<open>Yatay.Msg\<close>\<close>
  b_msg :: "string \<Rightarrow> string option" \<comment> \<open>\<open>Blockly.Msg\<close>\<close>
  rtl_dir :: bool \<comment> \<open>\<open>Blockly.RTL\<close>\<close>

text \<open>A message that is not defined shows as \<open>undefined\<close> where it is joined to a text.\<close>

fun label_text :: "benv \<Rightarrow> label \<Rightarrow> string option" where
  "label_text M (Lit s) = Some s"
| "label_text M (Code n) = Some (CHR 92 # ''u'' @ nat_str n)"
| "label_text M (YMsg k) = y_msg M k"
| "label_text M (BMsg k) = b_msg M k"
| "label_text M (Plus l s) = Some ((case label_text M l of None \<Rightarrow> ''undefined'' | Some t \<Rightarrow> t) @ s)"

subsection \<open>The block under construction\<close>

record pinput =
  pi_name :: string
  pi_kind :: ikind
  pi_check :: "string option"
  pi_row :: "(string option \<times> string) list" \<comment> \<open>\<open>titleRow\<close>: name and value of each field\<close>

record proto =
  p_inputs :: "pinput list"
  p_output :: bool
  p_outcheck :: "string option" \<comment> \<open>what the output gives: \<open>outputConnection.check_\<close>\<close>
  p_prev :: bool
  p_next :: bool
  p_inline :: bool
  p_movable :: bool
  p_menu :: bool
  p_ctx :: "(string option \<times> string option)"
  p_tip :: "tooltip option"
  p_mutator :: "string list"
  p_mut :: "nat \<times> nat" \<comment> \<open>\<open>elseifCount_\<close> and \<open>elseCount_\<close>\<close>
  p_sensors :: "string list" \<comment> \<open>arguments of \<open>CreateCustomSensor\<close>\<close>
  p_colour :: nat
  p_help :: "string option"

definition empty_proto :: proto where
  "empty_proto = \<lparr>p_inputs = [], p_output = False, p_outcheck = None, p_prev = False, p_next = False,
     p_inline = False, p_movable = True, p_menu = True, p_ctx = (None, None), p_tip = None, p_mutator = [],
     p_mut = (0, 0), p_sensors = [], p_colour = 0, p_help = None\<rparr>"

definition add_input :: "string \<Rightarrow> ikind \<Rightarrow> proto \<Rightarrow> proto" where
  "add_input n k p = p\<lparr>p_inputs := p_inputs p @
     [\<lparr>pi_name = n, pi_kind = k, pi_check = None, pi_row = []\<rparr>]\<rparr>"

text \<open>A call chained to \<open>append\<dots>Input\<close> acts on the input it returned, the last one.\<close>

definition on_last_input :: "(pinput \<Rightarrow> pinput) \<Rightarrow> proto \<Rightarrow> proto" where
  "on_last_input f p = (case rev (p_inputs p) of [] \<Rightarrow> p
     | i # is \<Rightarrow> p\<lparr>p_inputs := rev (f i # is)\<rparr>)"

text \<open>
  The value a field starts with. A dropdown takes its first option; a text or variable field
  its text; a label is its own text. A missing text reads as \<open>undefined\<close>.
\<close>

definition text_or_undefined :: "string option \<Rightarrow> string" where
  "text_or_undefined t = (case t of None \<Rightarrow> ''undefined'' | Some s \<Rightarrow> s)"

fun field_value :: "benv \<Rightarrow> field \<Rightarrow> string" where
  "field_value M (FLabel l) = text_or_undefined (label_text M l)"
| "field_value M (TextInput l v) = text_or_undefined (label_text M l)"
| "field_value M (Dropdown os) = (case os of [] \<Rightarrow> [] | (l, x) # _ \<Rightarrow> x)"
| "field_value M (Variable l) = text_or_undefined (label_text M l)"
| "field_value M (Image f) = []"

text \<open>\<open>appendTitle\<close> ignores an empty or missing label without a name.\<close>

definition append_title :: "benv \<Rightarrow> field \<Rightarrow> string option \<Rightarrow> proto \<Rightarrow> proto" where
  "append_title M f n p =
     (case f of
        FLabel l \<Rightarrow> if n = None \<and> label_text M l \<in> {None, Some []} then p
                    else on_last_input (\<lambda>i. i\<lparr>pi_row := pi_row i @ [(n, field_value M f)]\<rparr>) p
      | _ \<Rightarrow> on_last_input (\<lambda>i. i\<lparr>pi_row := pi_row i @ [(n, field_value M f)]\<rparr>) p)"

text \<open>\<open>a.split(/(%\d)/)\<close>: texts, each with the number of the symbol behind it, if any.\<close>

fun msg_tokens :: "string \<Rightarrow> string \<Rightarrow> (string \<times> nat option) list" where
  "msg_tokens acc [] = [(rev acc, None)]"
| "msg_tokens acc [c] = [(rev (c # acc), None)]"
| "msg_tokens acc (c # d # s) =
     (case (c = CHR ''%'', digit_val d) of
        (True, Some n) \<Rightarrow> (rev acc, Some n) # msg_tokens [] s
      | _ \<Rightarrow> msg_tokens (c # acc) (d # s))"

text \<open>
  \<open>interpolateMsg\<close>: one value input for each symbol of the message, in the order of the
  message; the assertions fail for a symbol out of range and for an argument that is not used.
\<close>

fun add_tokens :: "(string \<times> string) list \<Rightarrow> (string \<times> nat option) list \<Rightarrow> proto \<Rightarrow> proto option" where
  "add_tokens specs [] p = Some p"
| "add_tokens specs ((t, None) # ts) p =
     (let t' = js_trim t in
      add_tokens specs ts (if t' = [] then p
        else on_last_input (\<lambda>i. i\<lparr>pi_row := [(None, t')]\<rparr>) (add_input [] DummyInput p)))"
| "add_tokens specs ((t, Some n) # ts) p =
     (if n = 0 \<or> length specs < n then None
      else (let (x, chk) = specs ! (n - 1); t' = js_trim t in
        add_tokens specs ts (on_last_input (\<lambda>i. i\<lparr>pi_check := Some chk,
            pi_row := (if t' = [] then [] else [(None, t')])\<rparr>) (add_input x ValueInput p))))"

definition interpolateMsg :: "string option \<Rightarrow> (string \<times> string) list \<Rightarrow> proto \<Rightarrow> proto option" where
  "interpolateMsg msg specs p =
     (case msg of None \<Rightarrow> None
      | Some m \<Rightarrow>
          (let ts = msg_tokens [] m in
           if list_all (\<lambda>n. Some (Suc n) \<in> set (map snd ts)) [0..<length specs]
           then map_option (\<lambda>q. q\<lparr>p_inline := \<not> (length ts \<ge> 2 \<and> snd (ts ! (length ts - 2)) = Some 1 \<and>
                    js_trim (fst (last ts)) = [])\<rparr>) (add_tokens specs ts p)
           else None))"

fun run_call :: "benv \<Rightarrow> bcall \<Rightarrow> proto \<Rightarrow> proto option" where
  "run_call M (SetHelpUrl l) p = Some (p\<lparr>p_help := label_text M l\<rparr>)"
| "run_call M (SetColour n) p = Some (p\<lparr>p_colour := n\<rparr>)"
| "run_call M (SetTooltip t) p = Some (p\<lparr>p_tip := Some t\<rparr>)"
| "run_call M AppendDummyInput p = Some (add_input [] DummyInput p)"
| "run_call M (AppendValueInput n) p = Some (add_input n ValueInput p)"
| "run_call M (AppendStatementInput n) p = Some (add_input n StatementInput p)"
| "run_call M (SetCheck t) p = Some (on_last_input (\<lambda>i. i\<lparr>pi_check := Some t\<rparr>) p)"
| "run_call M (AppendTitle f n) p = Some (append_title M f n p)"
| "run_call M (InterpolateMsg l specs) p = interpolateMsg (label_text M l) specs p"
| "run_call M (SetPreviousStatement b) p = Some (p\<lparr>p_prev := b\<rparr>)"
| "run_call M (SetNextStatement b) p = Some (p\<lparr>p_next := b\<rparr>)"
| "run_call M (SetOutput t) p = Some (p\<lparr>p_output := True, p_outcheck := t\<rparr>)"
| "run_call M (SetInputsInline b) p = Some (p\<lparr>p_inline := b\<rparr>)"
| "run_call M (SetMovable b) p = Some (p\<lparr>p_movable := b\<rparr>)"
| "run_call M (SetMutator ts) p = Some (p\<lparr>p_mutator := ts\<rparr>)"
| "run_call M NoContextMenu p = Some (p\<lparr>p_menu := False\<rparr>)"
| "run_call M (ContextMsg l) p = Some (p\<lparr>p_ctx := (label_text M l, snd (p_ctx p))\<rparr>)"
| "run_call M (ContextType t) p = Some (p\<lparr>p_ctx := (fst (p_ctx p), Some t)\<rparr>)"
| "run_call M ClearElseif p = Some (p\<lparr>p_mut := (0, snd (p_mut p))\<rparr>)"
| "run_call M ClearElse p = Some (p\<lparr>p_mut := (fst (p_mut p), 0)\<rparr>)"
| "run_call M (NewSensor l) p = Some (p\<lparr>p_sensors := text_or_undefined (label_text M l) # p_sensors p\<rparr>)"

fun run_init :: "benv \<Rightarrow> bcall list \<Rightarrow> proto \<Rightarrow> proto option" where
  "run_init M [] p = Some p"
| "run_init M (c # cs) p = Option.bind (run_call M c p) (run_init M cs)"

subsection \<open>Control (\<open>blocks/control.js\<close>)\<close>

text \<open>The logic blocks are defined here and once more in \<open>logic.js\<close>, in another colour.\<close>

definition block_controls_if :: "bcall list" where
  "block_controls_if = [
     SetTooltip (Tip (YMsg ''CONTROLS_IF_TOOLTIP'')),
     SetHelpUrl (YMsg ''CONTROLS_IF_HELPURL''),
     SetColour 295,
     AppendValueInput ''IF0'',
     SetCheck ''Boolean'',
     AppendTitle (FLabel (YMsg ''CONTROLS_IF_MSG_IF'')) None,
     AppendStatementInput ''DO0'',
     AppendTitle (FLabel (YMsg ''CONTROLS_IF_MSG_THEN'')) None,
     SetPreviousStatement True,
     SetNextStatement True,
     SetMutator [''controls_if_elseif'', ''controls_if_else''],
     ClearElseif,
     ClearElse]"

definition block_controls_if_if :: "bcall list" where
  "block_controls_if_if = [
     SetColour 295,
     AppendDummyInput,
     AppendTitle (FLabel (YMsg ''CONTROLS_IF_MSG_IF'')) None,
     AppendStatementInput ''STACK'',
     SetTooltip (Tip (YMsg ''CONTROLS_IF_TOOLTIP'')),
     NoContextMenu]"

definition block_controls_if_elseif :: "bcall list" where
  "block_controls_if_elseif = [
     SetColour 295,
     AppendDummyInput,
     AppendTitle (FLabel (YMsg ''CONTROLS_IF_MSG_ELSEIF'')) None,
     SetPreviousStatement True,
     SetNextStatement True,
     SetTooltip (Tip (YMsg ''CONTROLS_IF_TOOLTIP'')),
     NoContextMenu]"

definition block_controls_if_else :: "bcall list" where
  "block_controls_if_else = [
     SetColour 295,
     AppendDummyInput,
     AppendTitle (FLabel (YMsg ''CONTROLS_IF_MSG_ELSE'')) None,
     SetPreviousStatement True,
     SetTooltip (Tip (YMsg ''CONTROLS_IF_TOOLTIP'')),
     NoContextMenu]"

definition block_control_compare :: "bool \<Rightarrow> bcall list" where
  "block_control_compare rtl = [
     SetHelpUrl (BMsg ''LOGIC_COMPARE_HELPURL''),
     SetColour 295,
     SetOutput (Some ''Boolean''),
     AppendValueInput ''A'',
     AppendValueInput ''B'',
     AppendTitle (Dropdown (if rtl then [(Lit ''='', ''EQ''), (Code 8800, ''NEQ''), (Lit ''>'', ''LT''), (Code 8805, ''LTE''), (Lit ''<'', ''GT''), (Code 8804, ''GTE'')]
          else [(Lit ''='', ''EQ''), (Code 8800, ''NEQ''), (Lit ''<'', ''LT''), (Code 8804, ''LTE''), (Lit ''>'', ''GT''), (Code 8805, ''GTE'')])) (Some ''OP''),
     SetInputsInline True,
     SetTooltip (TipBy ''OP'' [(''EQ'', BMsg ''LOGIC_COMPARE_TOOLTIP_EQ''), (''NEQ'', BMsg ''LOGIC_COMPARE_TOOLTIP_NEQ''), (''LT'', BMsg ''LOGIC_COMPARE_TOOLTIP_LT''), (''LTE'', BMsg ''LOGIC_COMPARE_TOOLTIP_LTE''), (''GT'', BMsg ''LOGIC_COMPARE_TOOLTIP_GT''), (''GTE'', BMsg ''LOGIC_COMPARE_TOOLTIP_GTE'')])]"

definition block_control_operation :: "bcall list" where
  "block_control_operation = [
     SetHelpUrl (YMsg ''CONTROL_OPERATION_HELPURL''),
     SetColour 295,
     SetOutput (Some ''Boolean''),
     AppendValueInput ''A'',
     SetCheck ''Boolean'',
     AppendValueInput ''B'',
     SetCheck ''Boolean'',
     AppendTitle (Dropdown [(YMsg ''CONTROL_OPERATION_AND'', ''AND''), (YMsg ''CONTROL_OPERATION_OR'', ''OR'')]) (Some ''OP''),
     SetInputsInline True,
     SetTooltip (TipMissing ''OP'')]"

definition block_control_negate :: "bcall list" where
  "block_control_negate = [
     SetHelpUrl (YMsg ''CONTROL_NEGATE_HELPURL''),
     SetColour 295,
     SetOutput (Some ''Boolean''),
     InterpolateMsg (YMsg ''CONTROL_NEGATE_TITLE'') [(''BOOL'', ''Boolean'')],
     SetTooltip (Tip (YMsg ''CONTROL_NEGATE_TOOLTIP''))]"

definition block_control_boolean :: "bcall list" where
  "block_control_boolean = [
     SetHelpUrl (YMsg ''CONTROL_BOOLEAN_HELPURL''),
     SetColour 295,
     SetOutput (Some ''Boolean''),
     AppendDummyInput,
     AppendTitle (Dropdown [(YMsg ''CONTROL_BOOLEAN_TRUE'', ''TRUE''), (YMsg ''CONTROL_BOOLEAN_FALSE'', ''FALSE'')]) (Some ''BOOL''),
     SetTooltip (Tip (YMsg ''CONTROL_BOOLEAN_TOOLTIP''))]"

definition block_controls_whileUntil :: "bcall list" where
  "block_controls_whileUntil = [
     SetColour 295,
     AppendValueInput ''BOOL'',
     SetCheck ''Boolean'',
     AppendTitle (FLabel (YMsg ''CONTROL_WHILE'')) None,
     AppendStatementInput ''DO'',
     SetPreviousStatement True,
     SetNextStatement True,
     SetTooltip (Tip (YMsg ''CONTROL_WHILE_TOOLTIP''))]"

definition block_controls_behaviour :: "bcall list" where
  "block_controls_behaviour = [
     SetColour 198,
     AppendDummyInput,
     AppendTitle (TextInput (YMsg ''CONTROL_BEHAVIOUR'') AnyText) (Some ''TEXT''),
     AppendTitle (FLabel (YMsg ''CONTROL_BEHAVIOUR_PRIORITY'')) None,
     AppendTitle (TextInput (Lit ''1'') NumberText) (Some ''PR''),
     AppendStatementInput ''BEHAVIOUR_CODE'',
     AppendTitle (FLabel (YMsg ''CONTROLS_BEHAVIOUR_ACTION'')) None,
     SetPreviousStatement False,
     SetNextStatement False,
     SetTooltip (Tip (YMsg ''CONTROL_BEHAVIOUR_TOOLTIP''))]"

definition block_controls_conditionalBehaviour :: "bcall list" where
  "block_controls_conditionalBehaviour = [
     SetColour 198,
     AppendDummyInput,
     AppendTitle (TextInput (YMsg ''CONTROL_BEHAVIOUR'') AnyText) (Some ''TEXT''),
     AppendTitle (FLabel (YMsg ''CONTROL_BEHAVIOUR_PRIORITY'')) None,
     AppendTitle (TextInput (Lit ''1'') NumberText) (Some ''PR''),
     AppendStatementInput ''BEHAVIOUR_CONDITION'',
     AppendTitle (FLabel (YMsg ''CONTROLS_BEHAVIOUR_CONDITION'')) None,
     AppendStatementInput ''BEHAVIOUR_CODE'',
     AppendTitle (FLabel (YMsg ''CONTROLS_BEHAVIOUR_ACTION'')) None,
     SetPreviousStatement False,
     SetNextStatement False,
     SetTooltip (Tip (YMsg ''CONTROL_BEHAVIOUR_TOOLTIP''))]"

definition block_controls_behaviourTrigger :: "bcall list" where
  "block_controls_behaviourTrigger = [
     SetInputsInline True,
     SetColour 198,
     AppendValueInput ''BOOL'',
     SetCheck ''Boolean'',
     AppendTitle (FLabel (Lit ''   '')) None,
     AppendDummyInput,
     AppendTitle (FLabel (Lit ''   '')) None,
     SetPreviousStatement True,
     SetNextStatement False,
     SetMovable False,
     SetTooltip (Tip (YMsg ''CONTROL_BEHAVIOUR_TOOLTIP''))]"

definition block_controls_sleep :: "bcall list" where
  "block_controls_sleep = [
     SetColour 295,
     AppendDummyInput,
     AppendTitle (FLabel (YMsg ''CONTROL_SLEEP'')) None,
     AppendTitle (TextInput (Lit ''0'') NumberText) (Some ''NUM''),
     SetPreviousStatement True,
     SetNextStatement True,
     SetTooltip (Tip (YMsg ''CONTROL_SLEEP_TOOLTIP''))]"

definition block_controls_repeat :: "bcall list" where
  "block_controls_repeat = [
     SetColour 295,
     AppendDummyInput,
     AppendTitle (FLabel (YMsg ''CONTROL_REPEAT'')) None,
     AppendDummyInput,
     AppendTitle (TextInput (Lit ''1'') NumberText) (Some ''TIMES''),
     AppendDummyInput,
     AppendTitle (FLabel (YMsg ''CONTROL_REPEAT_TIMES'')) None,
     SetInputsInline True,
     AppendStatementInput ''DO'',
     SetPreviousStatement True,
     SetNextStatement True,
     SetTooltip (Tip (YMsg ''CONTROL_REPEAT_TOOLTIP''))]"

definition block_controls_timesExecuted :: "bcall list" where
  "block_controls_timesExecuted = [
     SetHelpUrl (BMsg ''MATH_NUMBER_HELPURL''),
     SetColour 295,
     AppendDummyInput,
     AppendTitle (FLabel (YMsg ''CONTROL_TIMES_EXECUTED'')) None,
     SetOutput (Some ''Number''),
     SetTooltip (Tip (BMsg ''MATH_NUMBER_TOOLTIP''))]"

subsection \<open>The robot (\<open>blocks/butia.js\<close>)\<close>

text \<open>The file is generated: the commands in Spanish, as values, and in English, as statements.\<close>

definition butia_values :: "(string \<times> bcall list) list" where
  "butia_values = [
     (''mover adelante'', [SetColour 120, AppendDummyInput, AppendTitle (FLabel (Lit ''mover adelante'')) None, SetInputsInline True, SetOutput (Some ''Number''), SetTooltip (Tip (Lit []))]),
     (''mover atras'', [SetColour 120, AppendDummyInput, AppendTitle (FLabel (Lit ''mover atras'')) None, SetInputsInline True, SetOutput (Some ''Number''), SetTooltip (Tip (Lit []))]),
     (''detener'', [SetColour 120, AppendDummyInput, AppendTitle (FLabel (Lit ''detener'')) None, SetInputsInline True, SetOutput (Some ''Number''), SetTooltip (Tip (Lit []))]),
     (''girar derecha'', [SetColour 120, AppendDummyInput, AppendTitle (FLabel (Lit ''girar derecha'')) None, SetInputsInline True, SetOutput (Some ''Number''), SetTooltip (Tip (Lit []))]),
     (''girar izquierda'', [SetColour 120, AppendDummyInput, AppendTitle (FLabel (Lit ''girar izquierda'')) None, SetInputsInline True, SetOutput (Some ''Number''), SetTooltip (Tip (Lit []))]),
     (''mover'', [SetColour 120, AppendDummyInput, AppendTitle (FLabel (Lit ''mover'')) None, SetInputsInline True, AppendValueInput ''1'', AppendDummyInput, AppendTitle (FLabel (Lit '','')) None, AppendValueInput ''2'', SetOutput (Some ''Number''), SetTooltip (Tip (Lit []))]),
     (''distance. (5)'', [SetColour 120, AppendDummyInput, AppendTitle (FLabel (Lit ''distance. (5)'')) None, SetInputsInline True, SetOutput (Some ''Number''), SetTooltip (Tip (Lit []))]),
     (''grey (2)'', [SetColour 120, AppendDummyInput, AppendTitle (FLabel (Lit ''grey (2)'')) None, SetInputsInline True, SetOutput (Some ''Number''), SetTooltip (Tip (Lit []))]),
     (''grey (3)'', [SetColour 120, AppendDummyInput, AppendTitle (FLabel (Lit ''grey (3)'')) None, SetInputsInline True, SetOutput (Some ''Number''), SetTooltip (Tip (Lit []))])]"

definition butia_statements :: "(string \<times> bcall list) list" where
  "butia_statements = [
     (''move forward'', [SetColour 120, AppendDummyInput, AppendTitle (FLabel (Lit ''move forward'')) None, SetInputsInline True, SetPreviousStatement True, SetNextStatement True, SetTooltip (Tip (Lit []))]),
     (''move back'', [SetColour 120, AppendDummyInput, AppendTitle (FLabel (Lit ''move back'')) None, SetInputsInline True, SetPreviousStatement True, SetNextStatement True, SetTooltip (Tip (Lit []))]),
     (''stop'', [SetColour 120, AppendDummyInput, AppendTitle (FLabel (Lit ''stop'')) None, SetInputsInline True, SetPreviousStatement True, SetNextStatement True, SetTooltip (Tip (Lit []))]),
     (''turn right'', [SetColour 120, AppendDummyInput, AppendTitle (FLabel (Lit ''turn right'')) None, SetInputsInline True, SetPreviousStatement True, SetNextStatement True, SetTooltip (Tip (Lit []))]),
     (''turn left'', [SetColour 120, AppendDummyInput, AppendTitle (FLabel (Lit ''turn left'')) None, SetInputsInline True, SetPreviousStatement True, SetNextStatement True, SetTooltip (Tip (Lit []))]),
     (''move'', [SetColour 120, AppendDummyInput, AppendTitle (FLabel (Lit ''move'')) None, SetInputsInline True, AppendValueInput ''1'', AppendDummyInput, AppendTitle (FLabel (Lit '','')) None, AppendValueInput ''2'', SetPreviousStatement True, SetNextStatement True, SetTooltip (Tip (Lit []))])]"

subsection \<open>Logic (\<open>blocks/logic.js\<close>)\<close>

definition block_logic_compare :: "bool \<Rightarrow> bcall list" where
  "block_logic_compare rtl = [
     SetHelpUrl (BMsg ''LOGIC_COMPARE_HELPURL''),
     SetColour 24,
     SetOutput (Some ''Boolean''),
     AppendValueInput ''A'',
     AppendValueInput ''B'',
     AppendTitle (Dropdown (if rtl then [(Lit ''='', ''EQ''), (Code 8800, ''NEQ''), (Lit ''>'', ''LT''), (Code 8805, ''LTE''), (Lit ''<'', ''GT''), (Code 8804, ''GTE'')]
          else [(Lit ''='', ''EQ''), (Code 8800, ''NEQ''), (Lit ''<'', ''LT''), (Code 8804, ''LTE''), (Lit ''>'', ''GT''), (Code 8805, ''GTE'')])) (Some ''OP''),
     SetInputsInline True,
     SetTooltip (TipBy ''OP'' [(''EQ'', BMsg ''LOGIC_COMPARE_TOOLTIP_EQ''), (''NEQ'', BMsg ''LOGIC_COMPARE_TOOLTIP_NEQ''), (''LT'', BMsg ''LOGIC_COMPARE_TOOLTIP_LT''), (''LTE'', BMsg ''LOGIC_COMPARE_TOOLTIP_LTE''), (''GT'', BMsg ''LOGIC_COMPARE_TOOLTIP_GT''), (''GTE'', BMsg ''LOGIC_COMPARE_TOOLTIP_GTE'')])]"

definition block_logic_operation :: "bcall list" where
  "block_logic_operation = [
     SetHelpUrl (YMsg ''CONTROL_OPERATION_HELPURL''),
     SetColour 24,
     SetOutput (Some ''Boolean''),
     AppendValueInput ''A'',
     SetCheck ''Boolean'',
     AppendValueInput ''B'',
     SetCheck ''Boolean'',
     AppendTitle (Dropdown [(YMsg ''CONTROL_OPERATION_AND'', ''AND''), (YMsg ''CONTROL_OPERATION_OR'', ''OR'')]) (Some ''OP''),
     SetInputsInline True,
     SetTooltip (TipMissing ''OP'')]"

definition block_logic_negate :: "bcall list" where
  "block_logic_negate = [
     SetHelpUrl (YMsg ''CONTROL_NEGATE_HELPURL''),
     SetColour 24,
     SetOutput (Some ''Boolean''),
     InterpolateMsg (YMsg ''CONTROL_NEGATE_TITLE'') [(''BOOL'', ''Boolean'')],
     SetTooltip (Tip (YMsg ''CONTROL_NEGATE_TOOLTIP''))]"

definition block_logic_constrain :: "bcall list" where
  "block_logic_constrain = [
     SetHelpUrl (YMsg ''MATH_CONSTRAIN_HELPURL''),
     SetColour 24,
     SetOutput (Some ''Boolean''),
     InterpolateMsg (YMsg ''MATH_CONSTRAIN_TITLE'') [(''VALUE'', ''Number''), (''LOW'', ''Number''), (''HIGH'', ''Number'')],
     SetInputsInline True,
     SetTooltip (Tip (YMsg ''MATH_CONSTRAIN_TOOLTIP''))]"

definition block_logic_boolean :: "bcall list" where
  "block_logic_boolean = [
     SetHelpUrl (YMsg ''CONTROL_BOOLEAN_HELPURL''),
     SetColour 24,
     SetOutput (Some ''Boolean''),
     AppendDummyInput,
     AppendTitle (Dropdown [(YMsg ''CONTROL_BOOLEAN_TRUE'', ''TRUE''), (YMsg ''CONTROL_BOOLEAN_FALSE'', ''FALSE'')]) (Some ''BOOL''),
     SetTooltip (Tip (YMsg ''CONTROL_BOOLEAN_TOOLTIP''))]"

subsection \<open>Math (\<open>blocks/math.js\<close>)\<close>

definition block_math_number :: "bcall list" where
  "block_math_number = [
     SetHelpUrl (BMsg ''MATH_NUMBER_HELPURL''),
     SetColour 225,
     AppendDummyInput,
     AppendTitle (TextInput (Lit ''0'') NumberText) (Some ''NUM''),
     SetOutput (Some ''Number''),
     SetTooltip (Tip (BMsg ''MATH_NUMBER_TOOLTIP''))]"

definition block_math_divisible :: "bcall list" where
  "block_math_divisible = [
     SetColour 225,
     SetOutput (Some ''Boolean''),
     AppendValueInput ''A'',
     SetCheck ''Number'',
     AppendValueInput ''B'',
     SetCheck ''Number'',
     AppendTitle (FLabel (YMsg ''MATH_DIVISIBLE_BY'')) None,
     SetInputsInline True]"

definition block_math_arithmetic :: "bcall list" where
  "block_math_arithmetic = [
     SetHelpUrl (BMsg ''MATH_ARITHMETIC_HELPURL''),
     SetColour 225,
     SetOutput (Some ''Number''),
     AppendValueInput ''A'',
     SetCheck ''Number'',
     AppendValueInput ''B'',
     SetCheck ''Number'',
     AppendTitle (Dropdown [(Lit ''+'', ''ADD''), (Lit ''-'', ''MINUS''), (Code 215, ''MULTIPLY''), (Code 247, ''DIVIDE''), (Lit ''^'', ''POWER'')]) (Some ''OP''),
     SetInputsInline True,
     SetTooltip (TipBy ''OP'' [(''ADD'', BMsg ''MATH_ARITHMETIC_TOOLTIP_ADD''), (''MINUS'', BMsg ''MATH_ARITHMETIC_TOOLTIP_MINUS''), (''MULTIPLY'', BMsg ''MATH_ARITHMETIC_TOOLTIP_MULTIPLY''), (''DIVIDE'', BMsg ''MATH_ARITHMETIC_TOOLTIP_DIVIDE''), (''POWER'', BMsg ''MATH_ARITHMETIC_TOOLTIP_POWER'')])]"

definition block_math_single :: "bcall list" where
  "block_math_single = [
     SetHelpUrl (BMsg ''MATH_SINGLE_HELPURL''),
     SetColour 225,
     SetOutput (Some ''Number''),
     AppendValueInput ''NUM'',
     SetCheck ''Number'',
     AppendTitle (Dropdown [(YMsg ''MATH_SINGLE_TOOLTIP_ROOT'', ''ROOT''), (YMsg ''MATH_SINGLE_TOOLTIP_ABS'', ''ABS''), (Lit ''-'', ''NEG''), (Lit ''ln'', ''LN''), (Lit ''log10'', ''LOG10''), (Lit ''e^'', ''EXP''), (Lit ''10^'', ''POW10'')]) (Some ''OP''),
     SetTooltip (TipBy ''OP'' [(''ROOT'', YMsg ''MATH_SINGLE_TOOLTIP_ROOT''), (''ABS'', YMsg ''MATH_SINGLE_TOOLTIP_ABS''), (''NEG'', YMsg ''MATH_SINGLE_TOOLTIP_NEG''), (''LN'', YMsg ''MATH_SINGLE_TOOLTIP_LN''), (''LOG10'', YMsg ''MATH_SINGLE_TOOLTIP_LOG10''), (''EXP'', YMsg ''MATH_SINGLE_TOOLTIP_EXP''), (''POW10'', YMsg ''MATH_SINGLE_TOOLTIP_POW10'')])]"

definition block_math_trig :: "bcall list" where
  "block_math_trig = [
     SetHelpUrl (BMsg ''MATH_TRIG_HELPURL''),
     SetColour 225,
     SetOutput (Some ''Number''),
     AppendValueInput ''NUM'',
     SetCheck ''Number'',
     AppendTitle (Dropdown [(YMsg ''MATH_TRIG_TOOLTIP_SIN'', ''SIN''), (Lit ''cos'', ''COS''), (Lit ''tan'', ''TAN''), (YMsg ''MATH_TRIG_TOOLTIP_ASIN'', ''ASIN''), (Lit ''acos'', ''ACOS''), (Lit ''atan'', ''ATAN'')]) (Some ''OP''),
     SetTooltip (TipBy ''OP'' [(''SIN'', YMsg ''MATH_TRIG_TOOLTIP_SIN''), (''COS'', YMsg ''MATH_TRIG_TOOLTIP_COS''), (''TAN'', YMsg ''MATH_TRIG_TOOLTIP_TAN''), (''ASIN'', YMsg ''MATH_TRIG_TOOLTIP_ASIN''), (''ACOS'', YMsg ''MATH_TRIG_TOOLTIP_ACOS''), (''ATAN'', YMsg ''MATH_TRIG_TOOLTIP_ATAN'')])]"

definition block_math_round :: "bcall list" where
  "block_math_round = [
     SetHelpUrl (BMsg ''MATH_ROUND_HELPURL''),
     SetColour 225,
     SetOutput (Some ''Number''),
     AppendValueInput ''NUM'',
     SetCheck ''Number'',
     AppendTitle (Dropdown [(YMsg ''MATH_ROUND_OPERATOR_ROUND'', ''ROUND''), (YMsg ''MATH_ROUND_OPERATOR_ROUNDUP'', ''ROUNDUP''), (YMsg ''MATH_ROUND_OPERATOR_ROUNDDOWN'', ''ROUNDDOWN'')]) (Some ''OP''),
     SetTooltip (Tip (BMsg ''MATH_ROUND_TOOLTIP''))]"

subsection \<open>Variables (\<open>blocks/variables.js\<close>)\<close>

definition block_variables_sensor_get :: "bcall list" where
  "block_variables_sensor_get = [
     SetHelpUrl (BMsg ''VARIABLES_GET_HELPURL''),
     SetColour 330,
     AppendDummyInput,
     AppendTitle (FLabel (YMsg ''COMPLEX_SENSOR_GET_TITLE'')) None,
     AppendTitle (Variable (BMsg ''VARIABLES_GET_ITEM'')) (Some ''VAR''),
     AppendTitle (FLabel (Lit '' '')) None,
     SetOutput None,
     SetTooltip (Tip (BMsg ''VARIABLES_GET_TOOLTIP'')),
     ContextMsg (BMsg ''VARIABLES_GET_CREATE_SET''),
     ContextType ''variables_sensor_set'']"

definition block_variables_sensor_set :: "bcall list" where
  "block_variables_sensor_set = [
     SetHelpUrl (BMsg ''VARIABLES_SET_HELPURL''),
     SetColour 330,
     AppendValueInput ''VALUE'',
     AppendTitle (FLabel (YMsg ''COMPLEX_SENSOR_SET_TITLE'')) None,
     AppendTitle (Variable (BMsg ''VARIABLES_SET_ITEM'')) (Some ''VAR''),
     AppendTitle (FLabel (Lit '' '')) None,
     SetPreviousStatement True,
     SetInputsInline True,
     SetNextStatement True,
     SetTooltip (Tip (BMsg ''VARIABLES_SET_TOOLTIP'')),
     ContextMsg (BMsg ''VARIABLES_SET_CREATE_GET''),
     ContextType ''variables_sensor_get'',
     NewSensor (BMsg ''VARIABLES_SET_ITEM'')]"

definition block_variables_print :: "bcall list" where
  "block_variables_print = [
     SetColour 330,
     SetPreviousStatement True,
     SetNextStatement True,
     AppendDummyInput,
     AppendTitle (FLabel (Plus (YMsg ''VARIABLES_PRINT'') ''  '')) None,
     AppendTitle (Image ''media/quote0.png'') None,
     AppendTitle (TextInput (Lit []) AnyText) (Some ''TEXT''),
     AppendTitle (Image ''media/quote1.png'') None]"

definition block_variables_print_stat :: "bcall list" where
  "block_variables_print_stat = [
     SetColour 330,
     SetPreviousStatement True,
     SetNextStatement True,
     AppendDummyInput,
     AppendTitle (FLabel (Plus (YMsg ''VARIABLES_PRINT'') ''  '')) None,
     AppendValueInput ''VALUE'',
     SetInputsInline True]"

definition block_variables_get :: "bcall list" where
  "block_variables_get = [
     SetHelpUrl (BMsg ''VARIABLES_GET_HELPURL''),
     SetColour 330,
     AppendDummyInput,
     AppendTitle (FLabel (YMsg ''VARIABLES_GET_TITLE'')) None,
     AppendTitle (Variable (BMsg ''VARIABLES_GET_ITEM'')) (Some ''VAR''),
     AppendTitle (FLabel (YMsg ''VARIABLES_GET_TAIL'')) None,
     SetOutput None,
     SetTooltip (Tip (YMsg ''VARIABLES_GET_TOOLTIP'')),
     ContextMsg (YMsg ''VARIABLES_GET_CREATE_SET''),
     ContextType ''variables_set'']"

definition block_variables_set :: "bcall list" where
  "block_variables_set = [
     SetHelpUrl (BMsg ''VARIABLES_SET_HELPURL''),
     SetColour 330,
     AppendValueInput ''VALUE'',
     AppendTitle (FLabel (YMsg ''VARIABLES_SET_TITLE'')) None,
     AppendTitle (Variable (BMsg ''VARIABLES_SET_ITEM'')) (Some ''VAR''),
     AppendTitle (FLabel (YMsg ''VARIABLES_SET_TAIL'')) None,
     SetPreviousStatement True,
     SetNextStatement True,
     SetTooltip (Tip (BMsg ''VARIABLES_SET_TOOLTIP'')),
     ContextMsg (BMsg ''VARIABLES_SET_CREATE_GET''),
     ContextType ''variables_get'']"

definition block_variables_text :: "bcall list" where
  "block_variables_text = [
     SetHelpUrl (BMsg ''TEXT_TEXT_HELPURL''),
     SetColour 330,
     AppendDummyInput,
     AppendTitle (Image ''media/quote0.png'') None,
     AppendTitle (TextInput (Lit []) AnyText) (Some ''TEXT''),
     AppendTitle (Image ''media/quote1.png'') None,
     SetOutput (Some ''String''),
     SetTooltip (Tip (BMsg ''TEXT_TEXT_TOOLTIP''))]"

subsection \<open>\<open>Blockly.Blocks\<close>\<close>

text \<open>The scripts in the order \<open>languages/common.js\<close> loads them; a later definition replaces an earlier one.\<close>

definition block_scripts :: "bool \<Rightarrow> (string \<times> bcall list) list list" where
  "block_scripts rtl = [
     [(''controls_if'', block_controls_if),
      (''controls_if_if'', block_controls_if_if),
      (''controls_if_elseif'', block_controls_if_elseif),
      (''controls_if_else'', block_controls_if_else),
      (''logic_compare'', block_control_compare rtl),
      (''logic_operation'', block_control_operation),
      (''logic_negate'', block_control_negate),
      (''logic_boolean'', block_control_boolean),
      (''controls_whileUntil'', block_controls_whileUntil),
      (''controls_behaviour'', block_controls_behaviour),
      (''controls_conditionalBehaviour'', block_controls_conditionalBehaviour),
      (''controls_behaviourTrigger'', block_controls_behaviourTrigger),
      (''controls_sleep'', block_controls_sleep),
      (''controls_repeat'', block_controls_repeat),
      (''controls_timesExecuted'', block_controls_timesExecuted)],
     butia_values @ butia_statements,
     [(''logic_compare'', block_logic_compare rtl),
      (''logic_operation'', block_logic_operation),
      (''logic_negate'', block_logic_negate),
      (''logic_constrain'', block_logic_constrain),
      (''logic_boolean'', block_logic_boolean)],
     [(''math_number'', block_math_number),
      (''math_divisible'', block_math_divisible),
      (''math_arithmetic'', block_math_arithmetic),
      (''math_single'', block_math_single),
      (''math_trig'', block_math_trig),
      (''math_round'', block_math_round)],
     [(''variables_sensor_get'', block_variables_sensor_get),
      (''variables_sensor_set'', block_variables_sensor_set),
      (''variables_print'', block_variables_print),
      (''variables_print_stat'', block_variables_print_stat),
      (''variables_get'', block_variables_get),
      (''variables_set'', block_variables_set),
      (''variables_text'', block_variables_text)]]"

definition Blockly_Blocks :: "bool \<Rightarrow> string \<Rightarrow> bcall list option" where
  "Blockly_Blocks rtl ty = map_of (concat (rev (block_scripts rtl))) ty"

text \<open>
  \<open>new Blockly.Block(workspace, type)\<close>: an unknown type fails an assertion, and so does an
  \<open>init\<close> whose message cannot be interpolated.
\<close>

definition unknown_block :: "string \<Rightarrow> string" where
  "unknown_block ty = ''Assertion failed: Error: '' @ [CHR 34] @ ty @ [CHR 34] @ '' is an unknown language block.''"

definition init_proto :: "benv \<Rightarrow> string \<Rightarrow> proto res" where
  "init_proto M ty = (case Blockly_Blocks (rtl_dir M) ty of
     None \<Rightarrow> Inl (unknown_block ty)
   | Some cs \<Rightarrow> (case run_init M cs empty_proto of
        None \<Rightarrow> Inl ''Assertion failed'' | Some p \<Rightarrow> Inr p))"

definition proto_titles :: "proto \<Rightarrow> (string \<times> string) list" where
  "proto_titles p = concat (map (\<lambda>i. concat (map (\<lambda>(n, v). case n of None \<Rightarrow> [] | Some m \<Rightarrow> [(m, v)]) (pi_row i))) (p_inputs p))"

definition proto_block :: "nat \<Rightarrow> string \<Rightarrow> proto \<Rightarrow> block" where
  "proto_block i ty p = Block i ty (proto_titles p) (p_mut p)
     (map (\<lambda>j. Input (pi_name j) (pi_kind j) NoBlock) (p_inputs p)) NoBlock
     (new_flags\<lparr>inlined := p_inline p, movable := p_movable p\<rparr>) None"

definition new_Block :: "benv \<Rightarrow> nat \<Rightarrow> string \<Rightarrow> block res" where
  "new_Block M i ty = map_res (proto_block i ty) (init_proto M ty)"

text \<open>The value of the first field of the first input, as \<open>ExistVariable\<close> and \<open>AutoSave\<close> read it.\<close>

definition first_title :: "proto \<Rightarrow> string option" where
  "first_title p = (case p_inputs p of [] \<Rightarrow> None | i # _ \<Rightarrow> (case pi_row i of [] \<Rightarrow> None | (n, v) # _ \<Rightarrow> Some v))"

text \<open>What hovering over the block shows: a text, \<open>undefined\<close>, or a type error.\<close>

definition tooltip_text :: "benv \<Rightarrow> (string \<Rightarrow> string option) \<Rightarrow> tooltip option \<Rightarrow> string option res" where
  "tooltip_text M titles t = (case t of
     None \<Rightarrow> Inr (Some [])
   | Some (Tip l) \<Rightarrow> Inr (label_text M l)
   | Some (TipBy n table) \<Rightarrow>
       Inr (case map_of table (js_str (titles n)) of None \<Rightarrow> None | Some l \<Rightarrow> label_text M l)
   | Some (TipMissing n) \<Rightarrow> Inl ''TypeError: thisBlock.TOOLTIPS is undefined'')"

end
