(* ===== verification/BlockOps.thy ===== *)
theory BlockOps
  imports BlockDefs LuaCore
begin

text \<open>
  The other methods of the block types: the mutator of \<open>controls_if\<close> (\<open>blocks/control.js\<close>), which
  saves, rebuilds and persists the optional branches, and \<open>renameVar\<close>, \<open>getVars\<close> and
  \<open>customContextMenu\<close> of the variable blocks (\<open>blocks/variables.js\<close>).
\<close>

subsection \<open>Inputs and titles of a block\<close>

definition set_inputs :: "input list \<Rightarrow> (nat \<times> nat) \<Rightarrow> block \<Rightarrow> block" where
  "set_inputs ins mu b = (case b of NoBlock \<Rightarrow> NoBlock
     | Block i ty ti _ _ nx fl cm \<Rightarrow> Block i ty ti mu ins nx fl cm)"

text \<open>\<open>removeInput\<close>: the first input of the name; the assertion fails without one.\<close>

fun remove_input :: "string \<Rightarrow> input list \<Rightarrow> input list res" where
  "remove_input n [] = Inl (''Assertion failed: Input '' @ [CHR 34] @ n @ [CHR 34] @ '' not found.'')"
| "remove_input n (i # is) = (if i_name i = n then Inr is else map_res ((#) i) (remove_input n is))"

text \<open>\<open>setTitleValue\<close>: the first title of the name; the assertion fails without one.\<close>

fun update_title :: "string \<Rightarrow> string \<Rightarrow> (string \<times> string) list \<Rightarrow> (string \<times> string) list option" where
  "update_title v n [] = None"
| "update_title v n ((m, w) # ti) =
     (if m = n then Some ((m, v) # ti) else map_option ((#) (m, w)) (update_title v n ti))"

definition title_missing :: "string \<Rightarrow> string" where
  "title_missing n = ''Assertion failed: Title '' @ [CHR 34] @ n @ [CHR 34] @ '' not found.''"

definition setTitleValue :: "string \<Rightarrow> string \<Rightarrow> block \<Rightarrow> block res" where
  "setTitleValue v n b = (case b of NoBlock \<Rightarrow> Inl (title_missing n)
     | Block i ty ti mu ins nx fl cm \<Rightarrow>
         (case update_title v n ti of None \<Rightarrow> Inl (title_missing n)
          | Some ti' \<Rightarrow> Inr (Block i ty ti' mu ins nx fl cm)))"

subsection \<open>The mutator of \<open>controls_if\<close>\<close>

definition IFn :: "nat \<Rightarrow> string" where
  "IFn n = ''IF'' @ nat_str n"

definition DOn :: "nat \<Rightarrow> string" where
  "DOn n = ''DO'' @ nat_str n"

definition elseif_inputs :: "nat \<Rightarrow> block \<Rightarrow> block \<Rightarrow> input list" where
  "elseif_inputs n v s = [Input (IFn n) ValueInput v, Input (DOn n) StatementInput s]"

definition else_input :: "block \<Rightarrow> input" where
  "else_input s = Input ''ELSE'' StatementInput s"

text \<open>\<open>mutationToDom\<close>: the attributes of the \<open>mutation\<close> element, or \<open>null\<close>.\<close>

definition mutationToDom :: "block \<Rightarrow> (string \<times> string) list option" where
  "mutationToDom b =
     (let (elseifs, elses) = b_mut b in
      if elseifs = 0 \<and> elses = 0 then None
      else Some ((if elseifs \<noteq> 0 then [(''elseif'', nat_str elseifs)] else []) @
                 (if elses \<noteq> 0 then [(''else'', ''1'')] else [])))"

text \<open>
  \<open>domToMutation\<close>. A missing attribute and one that is not a number give NaN, which counts as 0
  in the loop and in the condition, as a negative number of branches does in the loop.
\<close>

definition attr_count :: "(string \<times> string) list \<Rightarrow> string \<Rightarrow> int" where
  "attr_count attrs n = (case map_of attrs n of None \<Rightarrow> 0
     | Some t \<Rightarrow> (case js_parseInt t of None \<Rightarrow> 0 | Some k \<Rightarrow> k))"

definition domToMutation :: "(string \<times> string) list \<Rightarrow> block \<Rightarrow> block" where
  "domToMutation attrs b =
     (let elseifs = nat (attr_count attrs ''elseif'');
          elses = nat \<bar>attr_count attrs ''else''\<bar>
      in set_inputs (b_inputs b @ concat (map (\<lambda>x. elseif_inputs x NoBlock NoBlock) [1..<Suc elseifs]) @
           (if elses \<noteq> 0 then [else_input NoBlock] else [])) (elseifs, elses) b)"

text \<open>
  The blocks of the mutator's bubble: the type of each clause below the container, and the
  connections \<open>valueConnection_\<close> and \<open>statementConnection_\<close> saved in it, that is, the
  blocks at their other ends.
\<close>

record clause =
  cl_type :: string
  cl_value :: block
  cl_statement :: block

text \<open>\<open>decompose\<close>: an \<open>elseif\<close> clause for each branch and one \<open>else\<close> clause.\<close>

definition decompose :: "block \<Rightarrow> clause list" where
  "decompose b =
     (let (elseifs, elses) = b_mut b in
      replicate elseifs \<lparr>cl_type = ''controls_if_elseif'', cl_value = NoBlock, cl_statement = NoBlock\<rparr> @
      (if elses \<noteq> 0 then [\<lparr>cl_type = ''controls_if_else'', cl_value = NoBlock, cl_statement = NoBlock\<rparr>] else []))"

text \<open>\<open>saveConnections\<close>: the \<open>x\<close>-th \<open>elseif\<close> clause keeps the children of \<open>IFx\<close> and \<open>DOx\<close>.\<close>

fun save_clauses :: "block \<Rightarrow> nat \<Rightarrow> clause list \<Rightarrow> clause list res" where
  "save_clauses b x [] = Inr []"
| "save_clauses b x (c # cs) =
     (if cl_type c = ''controls_if_elseif'' then
        map_res ((#) (c\<lparr>cl_value := getInputTargetBlock b (IFn x), cl_statement := getInputTargetBlock b (DOn x)\<rparr>))
          (save_clauses b (Suc x) cs)
      else if cl_type c = ''controls_if_else'' then
        map_res ((#) (c\<lparr>cl_statement := getInputTargetBlock b ''ELSE''\<rparr>)) (save_clauses b x cs)
      else Inl ''Unknown block type.'')"

definition saveConnections :: "block \<Rightarrow> clause list \<Rightarrow> clause list res" where
  "saveConnections b cs = save_clauses b 1 cs"

text \<open>\<open>compose\<close>: the removals, then the rebuilding.\<close>

fun remove_elseifs :: "nat \<Rightarrow> input list \<Rightarrow> input list res" where
  "remove_elseifs 0 ins = Inr ins"
| "remove_elseifs (Suc x) ins =
     (case remove_input (IFn (Suc x)) ins of Inl e \<Rightarrow> Inl e
      | Inr ins' \<Rightarrow> (case remove_input (DOn (Suc x)) ins' of Inl e \<Rightarrow> Inl e
          | Inr ins'' \<Rightarrow> remove_elseifs x ins''))"

fun rebuild :: "clause list \<Rightarrow> nat \<Rightarrow> nat \<Rightarrow> input list \<Rightarrow> (input list \<times> nat \<times> nat) res" where
  "rebuild [] n m ins = Inr (ins, n, m)"
| "rebuild (c # cs) n m ins =
     (if cl_type c = ''controls_if_elseif'' then
        rebuild cs (Suc n) m (ins @ elseif_inputs (Suc n) (cl_value c) (cl_statement c))
      else if cl_type c = ''controls_if_else'' then
        rebuild cs n (Suc m) (ins @ [else_input (cl_statement c)])
      else Inl ''Unknown block type.'')"

definition compose :: "clause list \<Rightarrow> block \<Rightarrow> block res" where
  "compose cs b =
     (let (elseifs, elses) = b_mut b in
      case (if elses \<noteq> 0 then remove_input ''ELSE'' (b_inputs b) else Inr (b_inputs b)) of
        Inl e \<Rightarrow> Inl e
      | Inr ins \<Rightarrow> (case remove_elseifs elseifs ins of Inl e \<Rightarrow> Inl e
          | Inr ins' \<Rightarrow> (case rebuild cs 0 0 ins' of Inl e \<Rightarrow> Inl e
              | Inr (ins'', n, m) \<Rightarrow> Inr (set_inputs ins'' (n, m) b))))"

subsection \<open>Rebuilding an if block\<close>

text \<open>The inputs of an if block: the first branch, the \<open>elseif\<close> branches, the \<open>else\<close> branch.\<close>

fun elseif_list :: "nat \<Rightarrow> (block \<times> block) list \<Rightarrow> input list" where
  "elseif_list n [] = []"
| "elseif_list n ((v, s) # bs) = elseif_inputs n v s @ elseif_list (Suc n) bs"

definition if_block :: "nat \<Rightarrow> block \<Rightarrow> block \<Rightarrow> (block \<times> block) list \<Rightarrow> block option \<Rightarrow> block \<Rightarrow> flags \<Rightarrow> string option \<Rightarrow> block" where
  "if_block i v s bs e nx fl cm = Block i ''controls_if'' [] (length bs, if e = None then 0 else 1)
     (elseif_inputs 0 v s @ elseif_list 1 bs @ (case e of None \<Rightarrow> [] | Some t \<Rightarrow> [else_input t])) nx fl cm"

lemma name_neq [simp]: "IFn n \<noteq> DOn m" "DOn m \<noteq> IFn n" "IFn n \<noteq> ''ELSE''" "DOn n \<noteq> ''ELSE''"
  "''ELSE'' \<noteq> IFn n" "''ELSE'' \<noteq> DOn n"
  by (simp_all add: IFn_def DOn_def)

lemma name_inj [simp]: "IFn n = IFn m \<longleftrightarrow> n = m" "DOn n = DOn m \<longleftrightarrow> n = m"
  by (simp_all add: IFn_def DOn_def)

lemma elseif_list_append: "elseif_list n (bs @ cs) = elseif_list n bs @ elseif_list (n + length bs) cs"
  by (induction n bs rule: elseif_list.induct) simp_all

lemma remove_input_append:
  "n \<notin> i_name ` set xs \<Longrightarrow> remove_input n (xs @ ys) = map_res ((@) xs) (remove_input n ys)"
  by (induction xs; cases "remove_input n ys") auto

lemma elseif_list_names:
  "i_name ` set (elseif_list n bs) \<subseteq> IFn ` {n..<n + length bs} \<union> DOn ` {n..<n + length bs}"
  by (induction n bs rule: elseif_list.induct) (auto simp: elseif_inputs_def)

text \<open>The two removals of a round undo the append of the last branch.\<close>

lemma remove_elseifs_list:
  "remove_elseifs (length bs) (elseif_inputs 0 v s @ elseif_list 1 bs) = Inr (elseif_inputs 0 v s)"
proof (induction bs rule: rev_induct)
  case (snoc b bs)
  obtain w t where b: "b = (w, t)" by force
  let ?pre = "elseif_inputs 0 v s @ elseif_list 1 bs" and ?n = "Suc (length bs)"
  have names: "IFn ?n \<notin> i_name ` set ?pre" "DOn ?n \<notin> i_name ` set ?pre"
    using elseif_list_names [of 1 bs] by (auto simp: elseif_inputs_def)
  have "remove_input (IFn ?n) (?pre @ elseif_inputs ?n w t) = Inr (?pre @ [Input (DOn ?n) StatementInput t])"
    by (subst remove_input_append [OF names(1)]) (simp add: elseif_inputs_def)
  moreover have "remove_input (DOn ?n) (?pre @ [Input (DOn ?n) StatementInput t]) = Inr ?pre"
    by (subst remove_input_append [OF names(2)]) simp
  ultimately show ?case
    using snoc b by (simp add: elseif_list_append)
qed simp

lemma remove_else:
  "remove_input ''ELSE'' ((elseif_inputs 0 v s @ elseif_list 1 bs) @ [else_input t]) =
   Inr (elseif_inputs 0 v s @ elseif_list 1 bs)"
proof -
  have "''ELSE'' \<notin> i_name ` set (elseif_inputs 0 v s @ elseif_list 1 bs)"
    using elseif_list_names [of 1 bs] by (auto simp: elseif_inputs_def)
  from remove_input_append [OF this] show ?thesis by (simp add: else_input_def)
qed

text \<open>The clauses of given branches.\<close>

definition elseif_clause :: "block \<times> block \<Rightarrow> clause" where
  "elseif_clause b = \<lparr>cl_type = ''controls_if_elseif'', cl_value = fst b, cl_statement = snd b\<rparr>"

definition else_clauses :: "block \<Rightarrow> block option \<Rightarrow> clause list" where
  "else_clauses v e = (case e of None \<Rightarrow> []
     | Some t \<Rightarrow> [\<lparr>cl_type = ''controls_if_else'', cl_value = v, cl_statement = t\<rparr>])"

lemma rebuild_elseifs:
  "rebuild (map elseif_clause bs @ cs) n m ins = rebuild cs (n + length bs) m (ins @ elseif_list (Suc n) bs)"
proof (induction bs arbitrary: n ins)
  case (Cons b bs)
  then show ?case by (cases b) (simp add: elseif_clause_def)
qed simp

lemma compose_if_block:
  "compose (map elseif_clause cs @ else_clauses w e') (if_block i v s bs e nx fl cm) =
   Inr (if_block i v s cs e' nx fl cm)"
  using remove_else [of v s bs] remove_elseifs_list [of bs v s]
  by (cases e; cases e') (simp_all add: compose_def if_block_def else_clauses_def rebuild_elseifs
      rebuild_elseifs [of _ "[]", simplified] set_inputs_def)

lemma find_input_append:
  "find_input n (xs @ ys) = (if n \<in> i_name ` set xs then find_input n xs else find_input n ys)"
  by (induction n xs rule: find_input.induct) auto

lemma find_elseif_list:
  "k < length bs \<Longrightarrow> find_input (IFn (n + k)) (elseif_list n bs) = fst (bs ! k) \<and>
     find_input (DOn (n + k)) (elseif_list n bs) = snd (bs ! k)"
proof (induction n bs arbitrary: k rule: elseif_list.induct)
  case (2 n v s bs)
  then show ?case
  proof (cases k)
    case (Suc j)
    then show ?thesis using "2.IH" [of j] "2.prems" by (simp add: elseif_inputs_def)
  qed (simp add: elseif_inputs_def)
qed simp

lemma if_block_targets:
  assumes "k < length bs"
  shows "getInputTargetBlock (if_block i v s bs e nx fl cm) (IFn (Suc k)) = fst (bs ! k)"
    "getInputTargetBlock (if_block i v s bs e nx fl cm) (DOn (Suc k)) = snd (bs ! k)"
proof -
  have "IFn (Suc k) \<in> i_name ` set (elseif_list 1 bs) \<and> DOn (Suc k) \<in> i_name ` set (elseif_list 1 bs)"
  proof -
    have "IFn (n + j) \<in> i_name ` set (elseif_list n cs) \<and> DOn (n + j) \<in> i_name ` set (elseif_list n cs)"
      if "j < length cs" for n j and cs :: "(block \<times> block) list"
      using that
    proof (induction n cs arbitrary: j rule: elseif_list.induct)
      case (2 n v s bs)
      then show ?case using "2.IH" [of "j - 1"] by (cases j) (auto simp: elseif_inputs_def)
    qed simp
    from this [OF assms, of 1] show ?thesis by simp
  qed
  then show "getInputTargetBlock (if_block i v s bs e nx fl cm) (IFn (Suc k)) = fst (bs ! k)"
    "getInputTargetBlock (if_block i v s bs e nx fl cm) (DOn (Suc k)) = snd (bs ! k)"
    using find_elseif_list [OF assms, of 1]
    by (simp_all add: if_block_def find_input_append elseif_inputs_def)
qed

lemma if_block_else:
  "getInputTargetBlock (if_block i v s bs (Some t) nx fl cm) ''ELSE'' = t"
proof -
  have "''ELSE'' \<notin> i_name ` set (elseif_inputs 0 v s @ elseif_list 1 bs)"
    using elseif_list_names [of 1 bs] by (auto simp: elseif_inputs_def)
  then show ?thesis by (auto simp: if_block_def find_input_append else_input_def elseif_inputs_def)
qed

lemma b_mut_if_block [simp]:
  "b_mut (if_block i v s bs e nx fl cm) = (length bs, if e = None then 0 else 1)"
  by (simp add: if_block_def)

lemma save_elseifs:
  assumes "k + n = length bs"
  shows "save_clauses (if_block i v s bs e nx fl cm) (Suc k)
      (replicate n \<lparr>cl_type = ''controls_if_elseif'', cl_value = NoBlock, cl_statement = NoBlock\<rparr> @ cs) =
    map_res ((@) (map elseif_clause (drop k bs))) (save_clauses (if_block i v s bs e nx fl cm) (Suc (length bs)) cs)"
  using assms
proof (induction n arbitrary: k)
  case 0
  then show ?case by (cases "save_clauses (if_block i v s bs e nx fl cm) (Suc (length bs)) cs") simp_all
next
  case (Suc n)
  then have k: "k < length bs" by simp
  from Suc.IH [of "Suc k"] Suc.prems have IH: "save_clauses (if_block i v s bs e nx fl cm) (Suc (Suc k))
      (replicate n \<lparr>cl_type = ''controls_if_elseif'', cl_value = NoBlock, cl_statement = NoBlock\<rparr> @ cs) =
    map_res ((@) (map elseif_clause (drop (Suc k) bs))) (save_clauses (if_block i v s bs e nx fl cm) (Suc (length bs)) cs)"
    by simp
  have "map elseif_clause (drop k bs) = elseif_clause (bs ! k) # map elseif_clause (drop (Suc k) bs)"
    using k by (simp add: Cons_nth_drop_Suc [symmetric])
  then show ?case
    using if_block_targets [OF k] IH
    by (cases "save_clauses (if_block i v s bs e nx fl cm) (Suc (length bs)) cs")
      (simp_all add: elseif_clause_def [of "bs ! k", symmetric])
qed

lemma save_if_block:
  "saveConnections (if_block i v s bs e nx fl cm) (decompose (if_block i v s bs e nx fl cm)) =
   Inr (map elseif_clause bs @ else_clauses NoBlock e)"
proof -
  note saves = save_elseifs [of 0 "length bs" bs i v s e nx fl cm, simplified]
  show ?thesis
  proof (cases e)
    case None
    then show ?thesis
      using saves [of "[]"] by (simp add: saveConnections_def decompose_def else_clauses_def)
  next
    case (Some t)
    then show ?thesis
      using saves if_block_else [of i v s bs t nx fl cm]
      by (simp add: saveConnections_def decompose_def else_clauses_def)
  qed
qed

text \<open>C19. Closing the mutator without an edit changes nothing: composing the clauses that
  \<open>decompose\<close> made and \<open>saveConnections\<close> filled gives the block back, with every child.\<close>

theorem mutator_roundtrip:
  "(case saveConnections b (decompose b) of Inl e \<Rightarrow> Inl e | Inr cs \<Rightarrow> compose cs b) = Inr b"
  if "b = if_block i v s bs e nx fl cm"
  using compose_if_block [of bs NoBlock e i v s bs e nx fl cm] that save_if_block [of i v s bs e nx fl cm]
  by simp

definition demo_leaf :: "nat \<Rightarrow> block" where
  "demo_leaf i = Block i ''math_number'' [(''NUM'', ''1'')] (0, 0) [] NoBlock new_flags None"

definition demo_if :: block where
  "demo_if = if_block 1 NoBlock NoBlock [(demo_leaf 2, NoBlock), (NoBlock, demo_leaf 3)] (Some (demo_leaf 4)) NoBlock new_flags None"

theorem mutator_roundtrip_witness:
  "(case saveConnections demo_if (decompose demo_if) of Inl e \<Rightarrow> Inl e | Inr cs \<Rightarrow> compose cs demo_if) = Inr demo_if"
  by (rule mutator_roundtrip [OF demo_if_def])

text \<open>C27. After an edit of the mutator's clauses the block has exactly the branches of the clauses,
  in their order and with the children each clause had saved, and no other.\<close>

theorem compose_follows_clauses:
  "compose (map elseif_clause cs @ else_clauses w e') (if_block i v s bs e nx fl cm) =
   Inr (if_block i v s cs e' nx fl cm)"
  by (rule compose_if_block)

lemma elseif_list_empty:
  "concat (map (\<lambda>x. elseif_inputs x NoBlock NoBlock) [n..<n + k]) = elseif_list n (replicate k (NoBlock, NoBlock))"
proof (induction k arbitrary: n)
  case (Suc k)
  have "[n..<n + Suc k] = n # [Suc n..<Suc n + k]" by (simp add: upt_rec)
  then show ?case using Suc [of "Suc n"] by simp
qed simp

text \<open>C28. The mutation element restores the shape of an if block: a new block that reads the
  element of \<open>b\<close>, if there is one, has the same optional branches, empty.\<close>

theorem mutation_roundtrip:
  "(case mutationToDom (if_block i v s bs e nx fl cm) of
      None \<Rightarrow> if_block j NoBlock NoBlock [] None NoBlock fl' None
    | Some attrs \<Rightarrow> domToMutation attrs (if_block j NoBlock NoBlock [] None NoBlock fl' None)) =
   if_block j NoBlock NoBlock (replicate (length bs) (NoBlock, NoBlock)) (map_option (\<lambda>_. NoBlock) e) NoBlock fl' None"
proof -
  have one: "js_parseInt ''1'' = Some 1" using js_parseInt_nat_str [of 1] by (simp add: nat_str.simps digit_def)
  have inputs: "b_inputs (if_block j NoBlock NoBlock [] None NoBlock fl' None) = elseif_inputs 0 NoBlock NoBlock"
    by (simp add: if_block_def)
  show ?thesis
    using elseif_list_empty [of 1 "length bs"]
    by (cases e; cases "length bs = 0")
      (simp_all add: mutationToDom_def domToMutation_def attr_count_def one inputs set_inputs_def if_block_def [of j] Let_def del: upt_Suc)
qed

subsection \<open>Variables (\<open>blocks/variables.js\<close>)\<close>

definition getVars :: "block \<Rightarrow> string option list" where
  "getVars b = [getTitleValue b ''VAR'']"

text \<open>\<open>Blockly.Names.equals\<close>.\<close>

definition names_equal :: "string \<Rightarrow> string \<Rightarrow> bool" where
  "names_equal a b \<longleftrightarrow> js_toLowerCase a = js_toLowerCase b"

text \<open>
  The guard of \<open>renameVar\<close> of \<open>variables_get\<close> and \<open>variables_set\<close>: the name it goes on with,
  and the message it shows. For a name that starts like a number, \<open>variables_get\<close> calls
  \<open>ShowMessage\<close> without a text (\<open>number_message\<close> is \<^const>\<open>None\<close>).
\<close>

definition lua_reserved :: "string list" where
  "lua_reserved = js_split '','' RESERVED_WORDS"

definition guard_name :: "string option \<Rightarrow> string \<Rightarrow> string \<times> string option list" where
  "guard_name number_message newName =
     (if newName \<in> set lua_reserved then (newName @ ''_1'', [Some ''NAME_RESERVED''])
      else if js_parseInt newName \<noteq> None then (''v_'' @ newName, [number_message])
      else (newName, []))"

definition rename_title :: "string \<Rightarrow> string \<Rightarrow> block \<Rightarrow> block res" where
  "rename_title oldName newName b =
     (if names_equal oldName (js_str (getTitleValue b ''VAR'')) then setTitleValue newName ''VAR'' b else Inr b)"

definition renameVar_get :: "string \<Rightarrow> string \<Rightarrow> block \<Rightarrow> block res \<times> string option list" where
  "renameVar_get oldName newName b =
     (let (n, shown) = guard_name None newName in (rename_title oldName n b, shown))"

definition renameVar_set :: "string \<Rightarrow> string \<Rightarrow> block \<Rightarrow> block res \<times> string option list" where
  "renameVar_set oldName newName b =
     (let (n, shown) = guard_name (Some ''NAME_NOT_TEXT'') newName in (rename_title oldName n b, shown))"

text \<open>The sensor blocks take the name as it is; \<open>variables_sensor_set\<close> declares the sensor first.\<close>

definition renameVar_sensor_get :: "string \<Rightarrow> string \<Rightarrow> block \<Rightarrow> block res" where
  "renameVar_sensor_get oldName newName b = rename_title oldName newName b"

definition renameVar_sensor_set :: "string \<Rightarrow> string \<Rightarrow> block \<Rightarrow> gstate \<Rightarrow> block res \<times> gstate" where
  "renameVar_sensor_set oldName newName b s =
     (rename_title oldName newName b,
      CreateCustomSensor newName (Some []) (CreateCustomSensor oldName None s))"

text \<open>
  \<open>customContextMenu\<close>: the text of the new entry and the block it creates (type and variable).
  Without a message the call of \<open>replace\<close> is a type error.
\<close>

definition customContextMenu :: "string option \<Rightarrow> string option \<Rightarrow> block \<Rightarrow> (string \<times> string option \<times> string option) res" where
  "customContextMenu msg ty b = (case msg of None \<Rightarrow> Inl ''TypeError''
     | Some m \<Rightarrow> Inr (js_replace1 ''%1'' (js_str (getTitleValue b ''VAR'')) m, ty, getTitleValue b ''VAR''))"

text \<open>The words, as the code splits them; the last one is empty.\<close>

lemma lua_reserved_eq:
  "lua_reserved = [''Blockly'', ''and'', ''break'', ''do'', ''else'', ''elseif'', ''end'', ''false'',
     ''for'', ''function'', ''if'', ''in'', ''local'', ''nil'', ''not'', ''or'', ''repeat'', ''return'',
     ''then'', ''true'', ''until'', ''while'', []]"
  by code_simp

lemma reserved_suffix: "w \<in> set lua_reserved \<Longrightarrow> w @ ''_1'' \<notin> set lua_reserved \<and> js_parseInt (w @ ''_1'') = None"
  unfolding lua_reserved_eq
  by (simp, elim disjE) (simp_all add: js_parseInt_def js_trimLeft_def js_space_def dec_prefix_def digit_val_def)

lemma v_prefix: "''v_'' @ n \<notin> set lua_reserved" "js_parseInt (''v_'' @ n) = None"
  unfolding lua_reserved_eq
  by (simp_all add: js_parseInt_def js_trimLeft_def js_space_def dec_prefix_def digit_val_def)

lemma guard_name_safe:
  "fst (guard_name m n) \<notin> set lua_reserved" "js_parseInt (fst (guard_name m n)) = None"
  using reserved_suffix v_prefix by (auto simp: guard_name_def)

lemma update_title_value: "update_title v n ti = Some ti' \<Longrightarrow> map_of ti' n = Some v"
  by (induction ti arbitrary: ti') (auto split: if_splits)


definition demo_var :: "string \<Rightarrow> block" where
  "demo_var v = Block 1 ''variables_set'' [(''VAR'', v)] (0, 0) [] NoBlock new_flags None"


end
