(* ===== verification/Toolbox.thy ===== *)
theory Toolbox
  imports BlockOps LuaMeaning
begin

text \<open>
  The palette: the XML \<open>codepage.toolbox\<close> of \<open>generated/en.js\<close> and \<open>generated/es.js\<close> as trees of
  blocks, and the blocks it creates. The blocks of the robot's category are an argument
  (\<open>opt_data\<close>), as in the source. The lemmas connect the block types with the generators:
  what the palette offers can be generated, and every option of a dropdown is one its generator
  knows.
\<close>

subsection \<open>The palette\<close>

text \<open>A \<open>block\<close> element: its type, its \<open>title\<close> children and its \<open>value\<close> children.\<close>

datatype tool = Tool (t_type: string) (t_titles: "(string \<times> string) list") (t_values: "(string \<times> tool) list")

abbreviation plain :: "string \<Rightarrow> tool" where
  "plain ty \<equiv> Tool ty [] []"

definition number_tool :: "string \<Rightarrow> tool" where
  "number_tool d = Tool ''math_number'' [(''NUM'', d)] []"

definition toolbox_en :: "tool list \<Rightarrow> (string \<times> tool list) list" where
  "toolbox_en opt_data = [
     (''Actions'', [Tool ''controls_conditionalBehaviour'' [] [(''BEHAVIOUR_CONDITION'', plain ''controls_behaviourTrigger'')],
        plain ''controls_behaviour'']),
     (''Control'', [plain ''controls_if'', plain ''controls_whileUntil'', plain ''controls_repeat'',
        plain ''controls_sleep'', plain ''controls_timesExecuted'']),
     (''Buti'' @ [CHR 225], opt_data),
     (''Logic'', [plain ''logic_compare'', plain ''logic_operation'',
        Tool ''logic_constrain'' [] [(''LOW'', number_tool ''1''), (''HIGH'', number_tool ''100'')],
        plain ''logic_negate'', plain ''logic_boolean'']),
     (''Maths'', [plain ''math_number'', plain ''math_arithmetic'', plain ''math_single'', plain ''math_trig'',
        plain ''math_round'', plain ''math_divisible'']),
     (''Variables'', [plain ''variables_get'', plain ''variables_set'', plain ''variables_print'',
        plain ''variables_print_stat'', plain ''variables_sensor_set'', plain ''variables_sensor_get''])]"

definition toolbox_es :: "tool list \<Rightarrow> (string \<times> tool list) list" where
  "toolbox_es opt_data = [
     (''Acciones'', [Tool ''controls_conditionalBehaviour'' [] [(''BEHAVIOUR_CONDITION'', plain ''controls_behaviourTrigger'')],
        plain ''controls_behaviour'']),
     (''Control'', [plain ''controls_if'', plain ''controls_whileUntil'', plain ''controls_repeat'',
        plain ''controls_sleep'', plain ''controls_timesExecuted'']),
     (''Buti'' @ [CHR 225], opt_data),
     (''L'' @ [CHR 243] @ ''gica'', [plain ''logic_compare'', plain ''logic_operation'',
        Tool ''logic_constrain'' [] [(''LOW'', number_tool ''1''), (''HIGH'', number_tool ''100'')],
        plain ''logic_negate'', plain ''logic_boolean'']),
     (''Matem'' @ [CHR 225] @ ''ticas'', [plain ''math_number'', plain ''math_arithmetic'', plain ''math_single'',
        plain ''math_trig'', plain ''math_round'', plain ''math_divisible'']),
     (''Variables'', [plain ''variables_get'', plain ''variables_set'', plain ''variables_print'',
        plain ''variables_print_stat'', plain ''variables_sensor_set'', plain ''variables_sensor_get''])]"

definition toolbox :: "language \<Rightarrow> tool list \<Rightarrow> (string \<times> tool list) list" where
  "toolbox l = (case l of English \<Rightarrow> toolbox_en | Spanish \<Rightarrow> toolbox_es)"

subsection \<open>Creating a block from the palette\<close>

text \<open>
  What \<open>Blockly.Xml.domToBlock_\<close> does with these elements: the block, its titles, then the
  child of each \<open>value\<close>, plugged into the input of that name.
\<close>

fun plug_input :: "string \<Rightarrow> block \<Rightarrow> input list \<Rightarrow> input list option" where
  "plug_input n c [] = None"
| "plug_input n c (Input m k t # ins) =
     (if m = n then Some (Input m k c # ins) else map_option ((#) (Input m k t)) (plug_input n c ins))"

definition plug :: "string \<Rightarrow> block \<Rightarrow> block \<Rightarrow> block res" where
  "plug n c b = (case plug_input n c (b_inputs b) of
     None \<Rightarrow> Inl (''Input does not exist: '' @ n)
   | Some ins \<Rightarrow> Inr (set_inputs ins (b_mut b) b))"

fun res_bind :: "'a res \<Rightarrow> ('a \<Rightarrow> 'b res) \<Rightarrow> 'b res" where
  "res_bind (Inl e) f = Inl e"
| "res_bind (Inr x) f = f x"

fun set_titles :: "(string \<times> string) list \<Rightarrow> block \<Rightarrow> block res" where
  "set_titles [] b = Inr b"
| "set_titles ((n, v) # ti) b = res_bind (setTitleValue v n b) (set_titles ti)"

definition plug_flag :: "bool \<Rightarrow> block \<Rightarrow> block" where
  "plug_flag out b = (case b of NoBlock \<Rightarrow> NoBlock
     | Block i ty ti mu ins nx fl cm \<Rightarrow> Block i ty ti mu ins nx (fl\<lparr>plugged := out\<rparr>) cm)"

definition has_output :: "benv \<Rightarrow> string \<Rightarrow> bool" where
  "has_output M ty = (case init_proto M ty of Inl _ \<Rightarrow> False | Inr p \<Rightarrow> p_output p)"

fun build_tool :: "benv \<Rightarrow> nat \<Rightarrow> tool \<Rightarrow> block res"
  and build_values :: "benv \<Rightarrow> nat \<Rightarrow> (string \<times> tool) list \<Rightarrow> block \<Rightarrow> block res" where
  "build_tool M i (Tool ty ti vs) =
     res_bind (new_Block M i ty) (\<lambda>b. res_bind (set_titles ti b) (build_values M (Suc i) vs))"
| "build_values M i [] b = Inr b"
| "build_values M i ((n, t) # vs) b =
     res_bind (build_tool M i t) (\<lambda>c.
     res_bind (plug n (plug_flag (has_output M (t_type t)) c) b) (build_values M (Suc i) vs))"

definition palette :: "language \<Rightarrow> tool list" where
  "palette l = concat (map snd (toolbox l []))"

text \<open>The robot's types, as the server lists them: one entry for each generated block.\<close>

definition robot_tools :: "tool list" where
  "robot_tools = map (plain \<circ> fst) (butia_values @ butia_statements)"

subsection \<open>The blocks the palette creates\<close>

definition tool_ok :: "benv \<Rightarrow> tool \<Rightarrow> bool" where
  "tool_ok M t = (case build_tool M 1 t of Inl _ \<Rightarrow> False | Inr b \<Rightarrow> supported b)"

fun simple_call :: "bcall \<Rightarrow> bool" where
  "simple_call (InterpolateMsg l specs) = False"
| "simple_call _ = True"

lemma run_init_simple: "list_all simple_call cs \<Longrightarrow> \<exists>q. run_init M cs p = Some q"
proof (induction cs arbitrary: p)
  case (Cons c cs)
  have "\<exists>q. run_call M c p = Some q" using Cons.prems by (cases c) simp_all
  then show ?case using Cons by auto
qed simp

lemma supported_proto: "supported (proto_block i ty p) \<longleftrightarrow> node_ok ty (proto_titles p)"
  by (auto simp: proto_block_def new_flags_def getCommentText_def list_all_iff)

definition generator_types :: "string list" where
  "generator_types = map fst lua_generators"

lemma generator_types_eq: "generator_types = [''controls_if'', ''controls_flow_statements'', ''controls_sleep'',
   ''controls_behaviour'', ''controls_conditionalBehaviour'', ''controls_behaviourTrigger'',
   ''controls_whileUntil'', ''controls_repeat'', ''controls_timesExecuted'', ''logic_compare'',
   ''logic_operation'', ''logic_negate'', ''logic_constrain'', ''logic_boolean'', ''math_number'',
   ''math_divisible'', ''math_arithmetic'', ''math_change'', ''math_single'', ''math_round'', ''math_trig'',
   ''math_on_list'', ''math_modulo'', ''math_random_int'', ''math_random_float'', ''variables_get'',
   ''variables_set'', ''variables_text'', ''variables_print'', ''variables_print_stat'',
   ''variables_sensor_get'', ''variables_sensor_set''] @ map fst butia_table"
  by (simp add: generator_types_def lua_generators_def butia_generators_def case_prod_unfold comp_def)

definition option_types :: "string list" where
  "option_types = [''controls_flow_statements'', ''math_single'', ''math_round'', ''math_trig'']"

lemma node_ok_plain:
  "ty \<in> set generator_types \<Longrightarrow> ty \<notin> set failing_types \<Longrightarrow> ty \<notin> set option_types \<Longrightarrow> node_ok ty ti"
  by (auto simp: node_ok_def generator_types_def option_types_def)

lemma plain_ok:
  assumes "Blockly_Blocks (rtl_dir M) ty = Some cs" "list_all simple_call cs"
    and "ty \<in> set generator_types \<and> ty \<notin> set failing_types \<and> ty \<notin> set option_types"
  shows "tool_ok M (plain ty)"
proof -
  obtain p where "run_init M cs empty_proto = Some p" using run_init_simple assms(2) by blast
  then have "init_proto M ty = Inr p" using assms(1) by (simp add: init_proto_def)
  then show ?thesis
    using node_ok_plain assms(3) by (simp add: tool_ok_def new_Block_def supported_proto)
qed

text \<open>The table of block types, split around the robot's blocks.\<close>

definition late_blocks :: "bool \<Rightarrow> (string \<times> bcall list) list" where
  "late_blocks r = [
     (''variables_sensor_get'', block_variables_sensor_get),
     (''variables_sensor_set'', block_variables_sensor_set),
     (''variables_print'', block_variables_print),
     (''variables_print_stat'', block_variables_print_stat),
     (''variables_get'', block_variables_get),
     (''variables_set'', block_variables_set),
     (''variables_text'', block_variables_text),
     (''math_number'', block_math_number),
     (''math_divisible'', block_math_divisible),
     (''math_arithmetic'', block_math_arithmetic),
     (''math_single'', block_math_single),
     (''math_trig'', block_math_trig),
     (''math_round'', block_math_round),
     (''logic_compare'', block_logic_compare r),
     (''logic_operation'', block_logic_operation),
     (''logic_negate'', block_logic_negate),
     (''logic_constrain'', block_logic_constrain),
     (''logic_boolean'', block_logic_boolean)]"

definition control_blocks :: "bool \<Rightarrow> (string \<times> bcall list) list" where
  "control_blocks r = [
     (''controls_if'', block_controls_if),
     (''controls_if_if'', block_controls_if_if),
     (''controls_if_elseif'', block_controls_if_elseif),
     (''controls_if_else'', block_controls_if_else),
     (''logic_compare'', block_control_compare r),
     (''logic_operation'', block_control_operation),
     (''logic_negate'', block_control_negate),
     (''logic_boolean'', block_control_boolean),
     (''controls_whileUntil'', block_controls_whileUntil),
     (''controls_behaviour'', block_controls_behaviour),
     (''controls_conditionalBehaviour'', block_controls_conditionalBehaviour),
     (''controls_behaviourTrigger'', block_controls_behaviourTrigger),
     (''controls_sleep'', block_controls_sleep),
     (''controls_repeat'', block_controls_repeat),
     (''controls_timesExecuted'', block_controls_timesExecuted)]"

definition robot_types :: "string list" where
  "robot_types = map fst (butia_values @ butia_statements)"

lemma Blockly_Blocks_split:
  "Blockly_Blocks r ty = map_of (late_blocks r @ (butia_values @ butia_statements) @ control_blocks r) ty"
  by (simp add: Blockly_Blocks_def block_scripts_def late_blocks_def control_blocks_def)

lemma robot_types_eq: "robot_types = map fst butia_table"
  by (simp add: robot_types_def butia_values_def butia_statements_def butia_table_def)

lemma robot_names: "robot_types = [''mover adelante'', ''mover atras'', ''detener'', ''girar derecha'',
   ''girar izquierda'', ''mover'', ''distance. (5)'', ''grey (2)'', ''grey (3)'', ''move forward'', ''move back'',
   ''stop'', ''turn right'', ''turn left'', ''move'']"
  by (simp add: robot_types_eq butia_table_def)

lemma map_of_skip: "k \<notin> fst ` set A \<Longrightarrow> map_of (A @ B) k = map_of B k"
  by (induction A) auto

lemma map_of_middle: "k \<notin> fst ` set B \<Longrightarrow> map_of (A @ B @ C) k = map_of (A @ C) k"
  by (induction A) (auto simp: map_of_skip simp del: map_of_append)

lemma map_of_prefix: "map_of B k = Some v \<Longrightarrow> map_of (B @ C) k = Some v"
  by (induction B) (auto simp del: map_of_append)

lemma Blockly_Blocks_other:
  "ty \<notin> set robot_types \<Longrightarrow> Blockly_Blocks r ty = map_of (late_blocks r @ control_blocks r) ty"
  unfolding Blockly_Blocks_split robot_types_def set_map by (rule map_of_middle)

lemma Blockly_Blocks_robot:
  assumes "ty \<in> set robot_types" and "ty \<notin> fst ` set (late_blocks r)"
  shows "\<exists>cs. Blockly_Blocks r ty = Some cs \<and> (ty, cs) \<in> set (butia_values @ butia_statements)"
proof -
  obtain cs where cs: "map_of (butia_values @ butia_statements) ty = Some cs"
    using assms(1) unfolding robot_types_def by (metis map_of_eq_None_iff not_None_eq set_map)
  then show ?thesis
    unfolding Blockly_Blocks_split map_of_skip [OF assms(2)]
    using map_of_prefix [OF cs] map_of_SomeD [OF cs] by blast
qed

definition simple_types :: "string list" where
  "simple_types = [''controls_behaviour'', ''controls_behaviourTrigger'', ''controls_conditionalBehaviour'',
     ''controls_if'', ''controls_whileUntil'', ''controls_repeat'', ''controls_sleep'', ''controls_timesExecuted'',
     ''logic_compare'', ''logic_operation'', ''logic_boolean'', ''math_number'', ''math_arithmetic'', ''math_divisible'',
     ''variables_get'', ''variables_set'', ''variables_print'', ''variables_print_stat'',
     ''variables_sensor_set'', ''variables_sensor_get'']"

lemma simple_blocks:
  "list_all (\<lambda>(ty, cs). ty \<in> {''logic_negate'', ''logic_constrain''} \<or> list_all simple_call cs)
     (late_blocks r @ control_blocks r)"
  by (simp add: late_blocks_def control_blocks_def block_controls_if_def block_controls_if_if_def block_controls_if_elseif_def block_controls_if_else_def block_control_compare_def block_control_operation_def block_control_negate_def block_control_boolean_def block_controls_whileUntil_def block_controls_behaviour_def block_controls_conditionalBehaviour_def block_controls_behaviourTrigger_def block_controls_sleep_def block_controls_repeat_def block_controls_timesExecuted_def block_logic_compare_def block_logic_operation_def block_logic_negate_def block_logic_constrain_def block_logic_boolean_def block_math_number_def block_math_divisible_def block_math_arithmetic_def block_math_single_def block_math_trig_def block_math_round_def block_variables_sensor_get_def block_variables_sensor_set_def block_variables_print_def block_variables_print_stat_def block_variables_get_def block_variables_set_def block_variables_text_def)

lemma simple_types_known: "set simple_types \<subseteq> fst ` set (late_blocks r @ control_blocks r)"
  by (simp add: simple_types_def late_blocks_def control_blocks_def)

lemma simple_types_generated:
  "list_all (\<lambda>ty. ty \<in> set generator_types \<and> ty \<notin> set failing_types \<and> ty \<notin> set option_types \<and>
     ty \<notin> {''logic_negate'', ''logic_constrain''} \<and> ty \<notin> set robot_types) simple_types"
  by (simp add: simple_types_def generator_types_eq failing_types_def option_types_def robot_names)

lemma robot_types_generated:
  "list_all (\<lambda>ty. ty \<in> set generator_types \<and> ty \<notin> set failing_types \<and> ty \<notin> set option_types \<and>
     ty \<notin> fst ` set (late_blocks r)) robot_types"
proof -
  have "list_all (\<lambda>ty. ty \<notin> set failing_types \<and> ty \<notin> set option_types \<and> ty \<notin> fst ` set (late_blocks r)) robot_types"
    unfolding robot_names by (simp add: late_blocks_def failing_types_def option_types_def)
  then show ?thesis unfolding robot_types_eq generator_types_eq by (auto simp: list_all_iff)
qed

lemma robot_blocks_simple: "(ty, cs) \<in> set (butia_values @ butia_statements) \<Longrightarrow> list_all simple_call cs"
  unfolding butia_values_def butia_statements_def by auto

lemma simple_type_ok: "ty \<in> set simple_types \<Longrightarrow> tool_ok M (plain ty)"
proof -
  assume ty: "ty \<in> set simple_types"
  then have gen: "ty \<in> set generator_types \<and> ty \<notin> set failing_types \<and> ty \<notin> set option_types"
    and other: "ty \<notin> {''logic_negate'', ''logic_constrain''}" "ty \<notin> set robot_types"
    using simple_types_generated by (simp_all add: list_all_iff)
  obtain cs where cs: "map_of (late_blocks (rtl_dir M) @ control_blocks (rtl_dir M)) ty = Some cs"
    using ty simple_types_known [of "rtl_dir M"] by (metis map_of_eq_None_iff not_None_eq subset_eq)
  then have "list_all simple_call cs"
    using simple_blocks [of "rtl_dir M"] other(1) map_of_SomeD [OF cs] by (auto simp: list_all_iff)
  then show ?thesis
    using plain_ok [OF _ _ gen] cs Blockly_Blocks_other [OF other(2)] by simp
qed

lemma robot_type_ok: "ty \<in> set robot_types \<Longrightarrow> tool_ok M (plain ty)"
proof -
  assume ty: "ty \<in> set robot_types"
  then have gen: "ty \<in> set generator_types \<and> ty \<notin> set failing_types \<and> ty \<notin> set option_types"
    and late: "ty \<notin> fst ` set (late_blocks (rtl_dir M))"
    using robot_types_generated [of "rtl_dir M"] by (simp_all add: list_all_iff)
  show ?thesis
    using Blockly_Blocks_robot [OF ty late] robot_blocks_simple plain_ok [OF _ _ gen] by blast
qed

text \<open>The blocks whose message is interpolated and those with a checked operator.\<close>

lemma special_lookup:
  "Blockly_Blocks r ''logic_negate'' = Some block_logic_negate"
  "Blockly_Blocks r ''logic_constrain'' = Some block_logic_constrain"
  "Blockly_Blocks r ''math_single'' = Some block_math_single"
  "Blockly_Blocks r ''math_round'' = Some block_math_round"
  "Blockly_Blocks r ''math_trig'' = Some block_math_trig"
  "Blockly_Blocks r ''math_number'' = Some block_math_number"
  "Blockly_Blocks r ''controls_conditionalBehaviour'' = Some block_controls_conditionalBehaviour"
  "Blockly_Blocks r ''controls_behaviourTrigger'' = Some block_controls_behaviourTrigger"
  by (simp_all add: Blockly_Blocks_other robot_names late_blocks_def control_blocks_def)

lemmas run_simps = empty_proto_def add_input_def on_last_input_def append_title_def interpolateMsg_def
  Let_def digit_val_def js_trim_def js_space_def text_or_undefined_def

lemma option_type_ok:
  "ty \<in> {''math_single'', ''math_round'', ''math_trig''} \<Longrightarrow> tool_ok M (plain ty)"
proof -
  assume ty: "ty \<in> {''math_single'', ''math_round'', ''math_trig''}"
  then have "ty \<in> set generator_types" "ty \<notin> set failing_types" "ty \<noteq> ''controls_flow_statements''"
    by (auto simp: generator_types_eq failing_types_def)
  moreover have "\<exists>p. init_proto M ty = Inr p \<and>
      (\<exists>oper. map_of (proto_titles p) ''OP'' = Some oper \<and> oper \<in> set single_operators)"
    using ty by (elim insertE emptyE)
      (simp_all add: init_proto_def special_lookup block_math_single_def block_math_round_def
        block_math_trig_def run_simps proto_titles_def single_operators_def)
  ultimately show ?thesis
    unfolding generator_types_def
    by (auto simp: tool_ok_def new_Block_def supported_proto node_ok_def simp del: set_map)
qed

definition negate_title_ok :: "benv \<Rightarrow> bool" where
  "negate_title_ok M \<longleftrightarrow> y_msg M ''CONTROL_NEGATE_TITLE'' \<in> {Some ''not %1'', Some ''no %1''} \<and>
     y_msg M ''MATH_CONSTRAIN_TITLE'' \<in> {Some ''%1 between %2 and %3'', Some ''%1 entre %2 y %3''}"

lemma negate_ok: "negate_title_ok M \<Longrightarrow> tool_ok M (plain ''logic_negate'')"
proof -
  assume "negate_title_ok M"
  then have "\<exists>p. init_proto M ''logic_negate'' = Inr p"
    by (auto simp: negate_title_ok_def init_proto_def special_lookup block_logic_negate_def run_simps)
  moreover have "node_ok ''logic_negate'' ti" for ti
    by (rule node_ok_plain) (simp_all add: generator_types_eq failing_types_def option_types_def)
  ultimately show ?thesis by (auto simp: tool_ok_def new_Block_def supported_proto)
qed

lemma nested_nodes: "node_ok ''logic_constrain'' ti" "node_ok ''math_number'' ti"
  "node_ok ''controls_conditionalBehaviour'' ti" "node_ok ''controls_behaviourTrigger'' ti"
  by (rule node_ok_plain; simp add: generator_types_eq failing_types_def option_types_def)+

lemma constrain_tokens:
  "msg_tokens [] ''%1 between %2 and %3'' = [([], Some 1), ('' between '', Some 2), ('' and '', Some 3), ([], None)]"
  "msg_tokens [] ''%1 entre %2 y %3'' = [([], Some 1), ('' entre '', Some 2), ('' y '', Some 3), ([], None)]"
  by code_simp+

lemma constrain_proto:
  assumes "negate_title_ok M"
  shows "\<exists>p. init_proto M ''logic_constrain'' = Inr p \<and> proto_titles p = [] \<and>
    map pi_name (p_inputs p) = [''VALUE'', ''LOW'', ''HIGH''] \<and> map pi_kind (p_inputs p) = replicate 3 ValueInput"
proof -
  have upt: "[0..<3] = [0, 1, 2 :: nat]" by (simp add: upt_rec)
  consider "y_msg M ''MATH_CONSTRAIN_TITLE'' = Some ''%1 between %2 and %3''"
    | "y_msg M ''MATH_CONSTRAIN_TITLE'' = Some ''%1 entre %2 y %3''"
    using assms by (auto simp: negate_title_ok_def)
  then show ?thesis
    by cases (simp_all add: init_proto_def special_lookup block_logic_constrain_def interpolateMsg_def constrain_tokens
        empty_proto_def add_input_def on_last_input_def js_trim_def js_space_def proto_titles_def upt
        numeral_3_eq_3 Let_def del: msg_tokens.simps)
qed

lemma map_three: "map f xs = [x, y, z] \<Longrightarrow> \<exists>a b c. xs = [a, b, c] \<and> f a = x \<and> f b = y \<and> f c = z"
  by (auto simp: map_eq_Cons_conv)

definition number_block :: "nat \<Rightarrow> string \<Rightarrow> block" where
  "number_block i d = Block i ''math_number'' [(''NUM'', d)] (0, 0) [Input [] DummyInput NoBlock] NoBlock new_flags None"

lemma build_number: "build_tool M i (number_tool d) = Inr (number_block i d)"
  by (simp add: number_tool_def new_Block_def init_proto_def special_lookup block_math_number_def run_simps
      proto_block_def proto_titles_def setTitleValue_def number_block_def new_flags_def)

lemma supported_number: "supported (plug_flag out (number_block i d))"
  by (simp add: number_block_def plug_flag_def new_flags_def getCommentText_def nested_nodes)

lemma constrain_ok:
  assumes "negate_title_ok M"
  shows "tool_ok M (Tool ''logic_constrain'' [] [(''LOW'', number_tool ''1''), (''HIGH'', number_tool ''100'')])"
proof -
  obtain p where p: "init_proto M ''logic_constrain'' = Inr p" "proto_titles p = []"
    "map pi_name (p_inputs p) = [''VALUE'', ''LOW'', ''HIGH'']"
    using constrain_proto [OF assms] by (elim exE conjE) (rule that)
  obtain a b c where inputs: "p_inputs p = [a, b, c]" "pi_name a = ''VALUE''" "pi_name b = ''LOW''" "pi_name c = ''HIGH''"
    using map_three [OF p(3)] by (elim exE conjE) (rule that)
  have new: "new_Block M i ''logic_constrain'' = Inr (Block i ''logic_constrain'' [] (p_mut p)
      [Input ''VALUE'' (pi_kind a) NoBlock, Input ''LOW'' (pi_kind b) NoBlock, Input ''HIGH'' (pi_kind c) NoBlock] NoBlock
      (new_flags\<lparr>inlined := p_inline p, movable := p_movable p\<rparr>) None)" for i
    by (simp add: new_Block_def p(1) proto_block_def p(2) inputs)
  show ?thesis
    by (simp add: tool_ok_def new build_number plug_def set_inputs_def supported_number new_flags_def
        getCommentText_def nested_nodes)
qed

text \<open>The inputs a sequence of calls makes, whatever the texts are.\<close>

definition shape :: "proto \<Rightarrow> (string \<times> ikind) list" where
  "shape p = map (\<lambda>i. (pi_name i, pi_kind i)) (p_inputs p)"

fun call_inputs :: "bcall \<Rightarrow> (string \<times> ikind) list" where
  "call_inputs AppendDummyInput = [([], DummyInput)]"
| "call_inputs (AppendValueInput n) = [(n, ValueInput)]"
| "call_inputs (AppendStatementInput n) = [(n, StatementInput)]"
| "call_inputs _ = []"

lemma shape_last: "(\<And>i. pi_name (f i) = pi_name i \<and> pi_kind (f i) = pi_kind i) \<Longrightarrow> shape (on_last_input f p) = shape p"
  by (cases "p_inputs p" rule: rev_cases) (simp_all add: on_last_input_def shape_def)

lemma run_call_shape: "simple_call c \<Longrightarrow> run_call M c p = Some q \<Longrightarrow> shape q = shape p @ call_inputs c"
proof (cases c)
  case (AppendTitle f n)
  moreover assume "run_call M c p = Some q"
  ultimately show ?thesis
    by (cases f) (auto simp: append_title_def shape_last split: if_splits)
qed (auto simp: shape_last, auto simp: shape_def add_input_def)

lemma run_init_shape:
  "list_all simple_call cs \<Longrightarrow> run_init M cs p = Some q \<Longrightarrow> shape q = shape p @ concat (map call_inputs cs)"
proof (induction cs arbitrary: p)
  case (Cons c cs)
  then obtain r where "run_call M c p = Some r" "run_init M cs r = Some q"
    by (cases "run_call M c p") auto
  then show ?case using Cons run_call_shape [of c M p r] by simp
qed simp

lemma shape_inputs: "map (\<lambda>j. Input (pi_name j) (pi_kind j) NoBlock) (p_inputs p) = map (\<lambda>(n, k). Input n k NoBlock) (shape p)"
  by (simp add: shape_def)

lemma shape_empty [simp]: "shape empty_proto = []"
  by (simp add: shape_def empty_proto_def)

lemma behaviour_ok:
  "tool_ok M (Tool ''controls_conditionalBehaviour'' [] [(''BEHAVIOUR_CONDITION'', plain ''controls_behaviourTrigger'')])"
proof -
  have simple: "list_all simple_call block_controls_conditionalBehaviour" "list_all simple_call block_controls_behaviourTrigger"
    by (simp_all add: block_controls_conditionalBehaviour_def block_controls_behaviourTrigger_def)
  obtain p where p: "run_init M block_controls_conditionalBehaviour empty_proto = Some p"
    using run_init_simple [OF simple(1)] by blast
  obtain q where q: "run_init M block_controls_behaviourTrigger empty_proto = Some q"
    using run_init_simple [OF simple(2)] by blast
  have ip: "init_proto M ''controls_conditionalBehaviour'' = Inr p"
    unfolding init_proto_def special_lookup option.case p by (rule refl)
  have iq: "init_proto M ''controls_behaviourTrigger'' = Inr q"
    unfolding init_proto_def special_lookup option.case q by (rule refl)
  have "shape p = [([], DummyInput), (''BEHAVIOUR_CONDITION'', StatementInput), (''BEHAVIOUR_CODE'', StatementInput)]"
    using run_init_shape [OF simple(1) p] by (simp add: block_controls_conditionalBehaviour_def)
  moreover have "list_all supported_input (b_inputs (proto_block i ty q))" for i ty
    by (simp add: proto_block_def list_all_iff)
  ultimately show ?thesis
    using ip iq by (simp add: tool_ok_def new_Block_def proto_block_def shape_inputs plug_def set_inputs_def
        plug_flag_def new_flags_def getCommentText_def nested_nodes)
qed

lemma titles_en:
  "yatay_msg English ''CONTROL_NEGATE_TITLE'' = Some ''not %1''"
  "yatay_msg English ''MATH_CONSTRAIN_TITLE'' = Some ''%1 between %2 and %3''"
  unfolding yatay_msg_def language_table_def language.case msg_en_def
  by (rule lookup_hit | (rule lookup_miss, (simp; fail)))+

lemma titles_es:
  "yatay_msg Spanish ''CONTROL_NEGATE_TITLE'' = Some ''no %1''"
  "yatay_msg Spanish ''MATH_CONSTRAIN_TITLE'' = Some ''%1 entre %2 y %3''"
  unfolding yatay_msg_def language_table_def language.case msg_es_def
  by (rule lookup_hit | (rule lookup_miss, (simp; fail)))+

lemma language_titles: "y_msg M = yatay_msg l \<Longrightarrow> negate_title_ok M"
  by (cases l) (simp_all add: negate_title_ok_def titles_en titles_es)

lemma palette_cases:
  assumes "t \<in> set (palette l)"
  obtains (simple) ty where "t = plain ty" "ty \<in> set simple_types"
    | (operator) ty where "t = plain ty" "ty \<in> {''math_single'', ''math_round'', ''math_trig''}"
    | (negate) "t = plain ''logic_negate''"
    | (constrain) "t = Tool ''logic_constrain'' [] [(''LOW'', number_tool ''1''), (''HIGH'', number_tool ''100'')]"
    | (behaviour) "t = Tool ''controls_conditionalBehaviour'' [] [(''BEHAVIOUR_CONDITION'', plain ''controls_behaviourTrigger'')]"
proof -
  have "set (palette English) = set (palette Spanish)"
    by (simp add: palette_def toolbox_def toolbox_en_def toolbox_es_def)
  then have "t \<in> set (palette English)" using assms by (cases l) simp_all
  then have "(\<exists>ty. t = plain ty \<and> ty \<in> set simple_types) \<or>
      (\<exists>ty. t = plain ty \<and> ty \<in> {''math_single'', ''math_round'', ''math_trig''}) \<or> t = plain ''logic_negate'' \<or>
      t = Tool ''logic_constrain'' [] [(''LOW'', number_tool ''1''), (''HIGH'', number_tool ''100'')] \<or>
      t = Tool ''controls_conditionalBehaviour'' [] [(''BEHAVIOUR_CONDITION'', plain ''controls_behaviourTrigger'')]"
    unfolding palette_def toolbox_def language.case toolbox_en_def simple_types_def
    by (simp, elim disjE) simp_all
  then show thesis using that by (elim disjE exE conjE) assumption+
qed



end
