(* ===== verification/XmlText.thy ===== *)
theory XmlText
  imports Prelude
begin

text \<open>
  XML documents and their text, as \<open>Blockly.Xml.domToText\<close> (\<open>XMLSerializer\<close>) writes and
  \<open>Blockly.Xml.textToDom\<close> (\<open>DOMParser\<close>) reads them: elements with attributes, and text nodes.
  Elements are written with an opening and a closing tag. The parser takes fuel; twice the
  length of the text is enough for every text the printer writes.
\<close>

subsection \<open>Documents\<close>

datatype xml =
    Elem (x_name: string) (x_attrs: "(string \<times> string) list") (x_kids: "xml list")
  | Txt (x_data: string)

text \<open>\<open>getAttribute\<close>.\<close>

definition getAttribute :: "xml \<Rightarrow> string \<Rightarrow> string option" where
  "getAttribute x n = (case x of Elem _ at _ \<Rightarrow> map_of at n | Txt _ \<Rightarrow> None)"

text \<open>\<open>textContent\<close>.\<close>

fun textContent :: "xml \<Rightarrow> string" where
  "textContent (Txt s) = s"
| "textContent (Elem n at ks) = concat (map textContent ks)"

subsection \<open>Printing\<close>

definition xml_escape :: "char \<Rightarrow> string" where
  "xml_escape c =
     (if c = CHR ''&'' then ''&amp;''
      else if c = CHR ''<'' then ''&lt;''
      else if c = CHR ''>'' then ''&gt;''
      else if c = CHR 34 then ''&quot;''
      else [c])"

definition escape_text :: "string \<Rightarrow> string" where
  "escape_text s = concat (map xml_escape s)"

definition attr_text :: "string \<times> string \<Rightarrow> string" where
  "attr_text a = CHR 32 # fst a @ ''='' @ CHR 34 # escape_text (snd a) @ [CHR 34]"

fun domToText :: "xml \<Rightarrow> string" where
  "domToText (Txt s) = escape_text s"
| "domToText (Elem n at ks) =
     CHR ''<'' # n @ concat (map attr_text at) @ ''>'' @ concat (map domToText ks) @ ''</'' @ n @ ''>''"

subsection \<open>Parsing\<close>

definition name_char :: "char \<Rightarrow> bool" where
  "name_char c \<longleftrightarrow> \<not> js_space c \<and> c \<notin> {CHR ''<'', CHR ''>'', CHR ''/'', CHR ''='', CHR 34, CHR 39, CHR ''&''}"

definition entities :: "(string \<times> char) list" where
  "entities = [(''amp;'', CHR ''&''), (''lt;'', CHR ''<''), (''gt;'', CHR ''>''), (''quot;'', CHR 34), (''apos;'', CHR 39)]"

text \<open>The text up to a stop character, with its entities resolved.\<close>

fun find_entity :: "(string \<times> char) list \<Rightarrow> string \<Rightarrow> (char \<times> nat) option" where
  "find_entity [] s = None"
| "find_entity ((e, c) # es) s = (if is_prefix e s then Some (c, length e) else find_entity es s)"

function unescape :: "string \<Rightarrow> string option" where
  "unescape [] = Some []"
| "unescape (c # s) =
     (if c = CHR ''&'' then
        (case find_entity entities s of None \<Rightarrow> None
         | Some (d, k) \<Rightarrow> map_option ((#) d) (unescape (drop k s)))
      else map_option ((#) c) (unescape s))"
  by pat_completeness auto
termination
  by (relation "measure length") auto

fun parse_attrs :: "nat \<Rightarrow> string \<Rightarrow> ((string \<times> string) list \<times> string) option" where
  "parse_attrs 0 s = None"
| "parse_attrs (Suc k) s0 =
     (let s = js_trimLeft s0 in
      if s = [] then None
      else if hd s = CHR ''>'' \<or> is_prefix ''/>'' s then Some ([], s)
      else (let n = takeWhile name_char s; r = dropWhile name_char s in
        if n = [] \<or> \<not> is_prefix [CHR ''='', CHR 34] r then None
        else (let v = takeWhile (\<lambda>c. c \<noteq> CHR 34) (drop 2 r); q = dropWhile (\<lambda>c. c \<noteq> CHR 34) (drop 2 r) in
          if q = [] then None
          else (case unescape v of None \<Rightarrow> None
            | Some v' \<Rightarrow> map_option (\<lambda>(at, r'). ((n, v') # at, r')) (parse_attrs k (tl q))))))"

fun parse_nodes :: "nat \<Rightarrow> string \<Rightarrow> (xml list \<times> string) option"
  and parse_elem :: "nat \<Rightarrow> string \<Rightarrow> (xml \<times> string) option" where
  "parse_nodes 0 s = None"
| "parse_nodes (Suc k) s =
     (if s = [] \<or> is_prefix ''</'' s then Some ([], s)
      else if hd s = CHR ''<'' then
        (case parse_elem k (tl s) of None \<Rightarrow> None
         | Some (x, r) \<Rightarrow> map_option (\<lambda>(xs, q). (x # xs, q)) (parse_nodes k r))
      else
        (case unescape (takeWhile (\<lambda>c. c \<noteq> CHR ''<'') s) of None \<Rightarrow> None
         | Some t \<Rightarrow> map_option (\<lambda>(xs, q). (Txt t # xs, q)) (parse_nodes k (dropWhile (\<lambda>c. c \<noteq> CHR ''<'') s))))"
| "parse_elem 0 s = None"
| "parse_elem (Suc k) s =
     (let n = takeWhile name_char s; r = dropWhile name_char s in
      if n = [] then None
      else (case parse_attrs k r of None \<Rightarrow> None
        | Some (at, r') \<Rightarrow>
            if is_prefix ''/>'' r' then Some (Elem n at [], drop 2 r')
            else (case parse_nodes k (tl r') of None \<Rightarrow> None
              | Some (ks, q) \<Rightarrow>
                  if is_prefix (''</'' @ n @ ''>'') q then Some (Elem n at ks, drop (length n + 3) q) else None)))"

definition not_xml :: string where
  "not_xml = ''Blockly.Xml.textToDom did not obtain a valid XML tree.''"

text \<open>\<open>textToDom\<close>: the text must be a single element named \<open>xml\<close>.\<close>

definition textToDom :: "string \<Rightarrow> xml res" where
  "textToDom s =
     (case s of [] \<Rightarrow> Inl not_xml
      | c # t \<Rightarrow>
          if c \<noteq> CHR ''<'' then Inl not_xml
          else (case parse_elem (2 * length s) t of None \<Rightarrow> Inl not_xml
            | Some (x, r) \<Rightarrow> if r = [] \<and> js_toLowerCase (x_name x) = ''xml'' then Inr x else Inl not_xml))"

subsection \<open>Reading back what was written\<close>

definition xml_name :: "string \<Rightarrow> bool" where
  "xml_name n \<longleftrightarrow> n \<noteq> [] \<and> list_all name_char n"

text \<open>Documents in normal form: proper names, no empty text node and no two text nodes in a row.\<close>

fun no_double_text :: "xml list \<Rightarrow> bool" where
  "no_double_text (Txt s # Txt t # ks) = False"
| "no_double_text (k # ks) = no_double_text ks"
| "no_double_text [] = True"

fun normal :: "xml \<Rightarrow> bool" where
  "normal (Txt s) \<longleftrightarrow> s \<noteq> []"
| "normal (Elem n at ks) \<longleftrightarrow> xml_name n \<and> list_all (\<lambda>a. xml_name (fst a)) at \<and> list_all normal ks \<and> no_double_text ks"

lemma unescape_append: "unescape (xml_escape c @ s) = map_option ((#) c) (unescape s)"
  by (simp add: xml_escape_def entities_def)

lemma unescape_text [simp]: "unescape (escape_text s) = Some s"
  by (induction s) (simp_all add: escape_text_def unescape_append)

lemma escape_clean: "c \<in> set (escape_text s) \<Longrightarrow> c \<noteq> CHR ''<'' \<and> c \<noteq> CHR 34 \<and> c \<noteq> CHR ''>''"
  by (auto simp: escape_text_def xml_escape_def split: if_splits)

lemma takeWhile_stop: "\<forall>c \<in> set a. P c \<Longrightarrow> b = [] \<or> \<not> P (hd b) \<Longrightarrow> takeWhile P (a @ b) = a \<and> dropWhile P (a @ b) = b"
  by (induction a) (cases b; auto)+

lemma name_prefix:
  assumes "xml_name n" and "s = [] \<or> \<not> name_char (hd s)"
  shows "takeWhile name_char (n @ s) = n" "dropWhile name_char (n @ s) = s"
  using takeWhile_stop [of n name_char s] assms by (auto simp: xml_name_def list_all_iff)

lemma not_name [simp]: "\<not> name_char CHR ''=''" "\<not> name_char CHR 32" "\<not> name_char CHR ''>''" "\<not> name_char CHR ''/''"
  "\<not> name_char CHR ''<''"
  by (simp_all add: name_char_def js_space_def)

lemma name_head:
  assumes "xml_name n"
  shows "js_trimLeft (n @ s) = n @ s" "hd (n @ s) \<noteq> CHR ''>''" "\<not> is_prefix ''/>'' (n @ s)" "n @ s \<noteq> []"
    "\<not> is_prefix ''/'' (n @ s)"
proof -
  obtain c m where n: "n = c # m" using assms by (cases n) (auto simp: xml_name_def)
  then have "name_char c" using assms by (simp add: xml_name_def)
  then show "js_trimLeft (n @ s) = n @ s" "hd (n @ s) \<noteq> CHR ''>''" "\<not> is_prefix ''/>'' (n @ s)" "n @ s \<noteq> []"
      "\<not> is_prefix ''/'' (n @ s)"
    using n by (auto simp: name_char_def js_trimLeft_def)
qed

lemma quoted:
  "takeWhile (\<lambda>c. c \<noteq> CHR 34) (escape_text v @ CHR 34 # s) = escape_text v"
  "dropWhile (\<lambda>c. c \<noteq> CHR 34) (escape_text v @ CHR 34 # s) = CHR 34 # s"
  using takeWhile_stop [of "escape_text v" "\<lambda>c. c \<noteq> CHR 34" "CHR 34 # s"] escape_clean [of _ v] by auto

lemma trim_space [simp]: "js_trimLeft (CHR 32 # s) = js_trimLeft s"
  by (simp add: js_trimLeft_def js_space_def)

lemma parse_attrs_text:
  "list_all (\<lambda>a. xml_name (fst a)) at \<Longrightarrow> length at < k \<Longrightarrow>
   parse_attrs k (concat (map attr_text at) @ CHR ''>'' # s) = Some (at, CHR ''>'' # s)"
proof (induction at arbitrary: k)
  case Nil
  then show ?case by (cases k) (simp_all add: js_trimLeft_def js_space_def)
next
  case (Cons a at)
  obtain n v where a: "a = (n, v)" by force
  obtain j where k: "k = Suc j" using Cons.prems by (cases k) auto
  have n: "xml_name n" using Cons.prems a by simp
  let ?q = "concat (map attr_text at) @ CHR ''>'' # s"
  let ?r = "CHR ''='' # CHR 34 # escape_text v @ CHR 34 # ?q"
  have shown: "concat (map attr_text (a # at)) @ CHR ''>'' # s = CHR 32 # n @ ?r"
    by (simp add: a attr_text_def)
  have IH: "parse_attrs j ?q = Some (at, CHR ''>'' # s)" using Cons k by simp
  have tw: "takeWhile name_char (n @ ?r) = n" and dw: "dropWhile name_char (n @ ?r) = ?r"
    using name_prefix [OF n, of ?r] by simp_all
  have "n \<noteq> []" using n by (simp add: xml_name_def)
  then show ?case
    unfolding shown k parse_attrs.simps trim_space name_head(1) [OF n] Let_def tw dw
    using name_head(2-4) [OF n, of ?r] IH quoted [of v ?q] by (simp add: a)
qed

fun xml_need :: "xml \<Rightarrow> nat" where
  "xml_need (Txt s) = 1"
| "xml_need (Elem n at ks) = 3 + length at + sum_list (map (\<lambda>k. xml_need k + 1) ks)"

lemma text_end:
  "s \<noteq> [] \<Longrightarrow> r = CHR ''<'' # q \<Longrightarrow> escape_text s \<noteq> [] \<and> hd (escape_text s @ r) \<noteq> CHR ''<'' \<and>
   takeWhile (\<lambda>c. c \<noteq> CHR ''<'') (escape_text s @ r) = escape_text s \<and>
   dropWhile (\<lambda>c. c \<noteq> CHR ''<'') (escape_text s @ r) = r"
proof -
  assume s: "s \<noteq> []" and r: "r = CHR ''<'' # q"
  have ne: "escape_text s \<noteq> []"
    using s by (cases s) (simp_all add: escape_text_def xml_escape_def)
  then have "hd (escape_text s) \<in> set (escape_text s)" by simp
  then have "hd (escape_text s) \<noteq> CHR ''<''" using escape_clean by blast
  then show ?thesis
    using ne r takeWhile_stop [of "escape_text s" "\<lambda>c. c \<noteq> CHR ''<''" r] escape_clean [of _ s] by auto
qed

lemma nodes_start:
  "ks \<noteq> [] \<Longrightarrow> (\<forall>t. hd ks \<noteq> Txt t) \<Longrightarrow> \<exists>q. concat (map domToText ks) @ s = CHR ''<'' # q"
  by (cases ks; cases "hd ks") auto

lemma no_double_tl: "no_double_text (x # ks) \<Longrightarrow> no_double_text ks"
  by (cases x; cases ks; cases "hd ks") auto

lemma no_double_hd: "no_double_text (Txt t # ks) \<Longrightarrow> ks = [] \<or> (\<forall>u. hd ks \<noteq> Txt u)"
  by (cases ks) auto

lemma parse_nodes_text:
  assumes elems: "\<And>x k s. x \<in> set ks \<Longrightarrow> normal x \<Longrightarrow> xml_need x \<le> k \<Longrightarrow> \<forall>t. x \<noteq> Txt t \<Longrightarrow>
      parse_elem k (tl (domToText x) @ s) = Some (x, s)"
    and "list_all normal ks" "no_double_text ks" "sum_list (map (\<lambda>k. xml_need k + 1) ks) < k"
  shows "parse_nodes k (concat (map domToText ks) @ ''</'' @ s) = Some (ks, ''</'' @ s)"
  using assms
proof (induction ks arbitrary: k)
  case Nil
  then show ?case by (cases k) simp_all
next
  case (Cons x ks)
  obtain j where k: "k = Suc j" using Cons.prems(4) by (cases k) auto
  have rest: "no_double_text ks" using no_double_tl [OF Cons.prems(3)] .
  have need: "xml_need x \<le> j" "sum_list (map (\<lambda>k. xml_need k + 1) ks) < j" using Cons.prems(4) k by auto
  have IH: "parse_nodes j (concat (map domToText ks) @ ''</'' @ s) = Some (ks, ''</'' @ s)"
  proof (rule Cons.IH)
    show "parse_elem i (tl (domToText y) @ r) = Some (y, r)"
      if "y \<in> set ks" "normal y" "xml_need y \<le> i" "\<forall>t. y \<noteq> Txt t" for y i r
      by (rule Cons.prems(1)) (use that in simp_all)
    show "list_all normal ks" using Cons.prems(2) by simp
  qed (rule rest, rule need(2))
  show ?case
  proof (cases x)
    case (Elem n at kk)
    let ?r = "concat (map domToText ks) @ ''</'' @ s"
    have nm: "xml_name n" using Cons.prems(2) Elem by simp
    have shown: "concat (map domToText (x # ks)) @ ''</'' @ s = CHR ''<'' # tl (domToText x) @ ?r"
      by (simp add: Elem)
    have no_close: "\<not> is_prefix ''</'' (CHR ''<'' # tl (domToText x) @ ?r)"
      using name_head(5) [OF nm] by (simp add: Elem)
    have "parse_elem j (tl (domToText x) @ ?r) = Some (x, ?r)"
      by (rule Cons.prems(1)) (use Cons.prems(2) need(1) Elem in simp_all)
    then show ?thesis unfolding shown k using no_close IH by simp
  next
    case (Txt t)
    let ?r = "concat (map domToText ks) @ ''</'' @ s"
    have "ks = [] \<or> (\<forall>u. hd ks \<noteq> Txt u)" using no_double_hd Cons.prems(3) Txt by blast
    then obtain q where r: "?r = CHR ''<'' # q"
      using nodes_start [of ks "''</'' @ s"] by (cases "ks = []") auto
    have t: "t \<noteq> []" using Cons.prems(2) Txt by simp
    note stop = text_end [OF t r]
    have no_close: "\<not> is_prefix ''</'' (escape_text t @ ?r)"
      using stop by (cases "escape_text t") auto
    have "hd (escape_text t) \<noteq> CHR ''<''"
      using stop by (cases "escape_text t") simp_all
    then show ?thesis
      using stop no_close IH by (simp add: Txt k)
  qed
qed

lemma after_close: "drop (length n + 3) (''</'' @ n @ ''>'' @ s) = s"
proof -
  have "drop (length (''</'' @ n @ ''>'')) ((''</'' @ n @ ''>'') @ s) = s"
    by (simp only: append_eq_conv_conj [symmetric] drop_append) simp
  then show ?thesis by (simp add: numeral_3_eq_3)
qed

lemma parse_elem_text:
  "normal x \<Longrightarrow> xml_need x \<le> k \<Longrightarrow> \<forall>t. x \<noteq> Txt t \<Longrightarrow> parse_elem k (tl (domToText x) @ s) = Some (x, s)"
proof (induction x arbitrary: k s)
  case (Elem n at ks)
  obtain j where k: "k = Suc j" using Elem.prems(2) by (cases k) auto
  have n: "xml_name n" using Elem.prems(1) by simp
  let ?e = "CHR ''<'' # CHR ''/'' # n @ CHR ''>'' # s"
  have shown: "tl (domToText (Elem n at ks)) @ s =
      n @ concat (map attr_text at) @ CHR ''>'' # concat (map domToText ks) @ ''</'' @ (n @ CHR ''>'' # s)"
    by simp
  have at: "parse_attrs j (concat (map attr_text at) @ CHR ''>'' # concat (map domToText ks) @ ''</'' @ (n @ CHR ''>'' # s)) =
      Some (at, CHR ''>'' # concat (map domToText ks) @ ''</'' @ (n @ CHR ''>'' # s))"
    using parse_attrs_text Elem.prems k by simp
  have start: "concat (map attr_text at) @ CHR ''>'' # q = [] \<or> \<not> name_char (hd (concat (map attr_text at) @ CHR ''>'' # q))" for q
    by (cases at) (simp_all add: attr_text_def)
  have nodes: "parse_nodes j (concat (map domToText ks) @ ''</'' @ (n @ CHR ''>'' # s)) = Some (ks, ''</'' @ (n @ CHR ''>'' # s))"
    by (rule parse_nodes_text) (use Elem k in auto)
  have close: "is_prefix (''</'' @ n @ ''>'') (''</'' @ (n @ CHR ''>'' # s))"
    by (simp add: is_prefix_iff)
  have "n \<noteq> []" using n by (simp add: xml_name_def)
  then show ?case
    unfolding shown k parse_elem.simps Let_def name_prefix [OF n start] at
    using nodes close after_close [of n s] by simp
qed simp

lemma need_kids:
  "(\<And>k. k \<in> set ks \<Longrightarrow> xml_need k + 1 \<le> 2 * length (domToText k)) \<Longrightarrow>
   sum_list (map (\<lambda>k. xml_need k + 1) ks) \<le> 2 * length (concat (map domToText ks))"
proof (induction ks)
  case (Cons k ks)
  have "xml_need k + 1 \<le> 2 * length (domToText k)" using Cons.prems by simp
  moreover have "sum_list (map (\<lambda>k. xml_need k + 1) ks) \<le> 2 * length (concat (map domToText ks))"
    using Cons.IH Cons.prems by simp
  ultimately show ?case by simp
qed simp

lemma need_text: "normal x \<Longrightarrow> xml_need x + 1 \<le> 2 * length (domToText x)"
proof (induction x)
  case (Elem n at ks)
  have "sum_list (map (\<lambda>k. xml_need k + 1) ks) \<le> 2 * length (concat (map domToText ks))"
    by (rule need_kids) (use Elem in \<open>auto simp: list_all_iff\<close>)
  moreover have "length at \<le> length (concat (map attr_text at))"
    by (induction at) (auto simp: attr_text_def)
  ultimately show ?case by simp
next
  case (Txt t)
  then show ?case by (cases t) (auto simp: escape_text_def xml_escape_def)
qed

text \<open>Reading a written document gives it back.\<close>

theorem text_roundtrip:
  assumes "normal x" and "js_toLowerCase (x_name x) = ''xml''" and "x = Elem n at ks"
  shows "textToDom (domToText x) = Inr x"
proof -
  have cons: "domToText x = CHR ''<'' # tl (domToText x)" using assms(3) by simp
  have "parse_elem (2 * length (domToText x)) (tl (domToText x) @ []) = Some (x, [])"
    by (rule parse_elem_text) (use assms need_text [OF assms(1)] in auto)
  then have "(case parse_elem (2 * length (CHR ''<'' # tl (domToText x))) (tl (domToText x)) of None \<Rightarrow> Inl not_xml
      | Some (x, r) \<Rightarrow> if r = [] \<and> js_toLowerCase (x_name x) = ''xml'' then Inr x else Inl not_xml) = Inr x"
    using assms(2) cons by simp
  then show ?thesis by (subst cons) (simp add: textToDom_def)
qed

end
