(* ===== verification/XmlBlocks.thy ===== *)
theory XmlBlocks
  imports BlockOps XmlText
begin

text \<open>
  \<open>Blockly.Xml\<close> of \<open>blockly_compressed.js\<close>: blocks written as XML elements (\<open>blockToDom_\<close>,
  \<open>workspaceToDom\<close>) and built from them again (\<open>domToBlock_\<close>, \<open>domToWorkspace\<close>). Loading may
  throw half way; the blocks made so far then stay in the workspace. The theorems say that
  loading what was saved gives the blocks back, with new numbers in a fixed order.
\<close>

subsection \<open>Exceptions\<close>

text \<open>An \<open>Error\<close> has a \<open>message\<close>; Blockly also throws plain strings, which have none.\<close>

datatype exn = Error string | Thrown string

fun exn_message :: "exn \<Rightarrow> string option" where
  "exn_message (Error m) = Some m"
| "exn_message (Thrown s) = None"

definition type_error :: exn where
  "type_error = Error ''TypeError''"

subsection \<open>Environments\<close>

text \<open>
  What is drawn and not kept in the blocks: the direction and width of the drawing, the state of
  a comment's bubble (pinned, height, width) by block number, and the key by which
  \<open>getTopBlocks(true)\<close> sorts positions, \<open>y + sin(3\<degree>) * x\<close>.
\<close>

record view =
  v_rtl :: bool
  v_width :: int
  v_bubble :: "nat \<Rightarrow> bool \<times> nat \<times> nat"
  v_key :: "int \<times> int \<Rightarrow> int"

text \<open>The registry of block types, and what a field's change handler makes of a value set in it.\<close>

record loader =
  l_proto :: "string \<Rightarrow> proto res"
  l_fix :: "string \<Rightarrow> string \<Rightarrow> string \<Rightarrow> string"

definition has_out :: "loader \<Rightarrow> string \<Rightarrow> bool" where
  "has_out L ty = (case l_proto L ty of Inl _ \<Rightarrow> False | Inr p \<Rightarrow> p_output p)"

definition has_prev :: "loader \<Rightarrow> string \<Rightarrow> bool" where
  "has_prev L ty = (case l_proto L ty of Inl _ \<Rightarrow> False | Inr p \<Rightarrow> p_prev p)"

text \<open>The top blocks of a workspace, with their positions.\<close>

type_synonym top = "block \<times> int \<times> int"

definition int_str :: "int \<Rightarrow> string" where
  "int_str i = (if i < 0 then CHR ''-'' # nat_str (nat (- i)) else nat_str (nat i))"

definition bool_str :: "bool \<Rightarrow> string" where
  "bool_str b = (if b then ''true'' else ''false'')"

subsection \<open>Writing\<close>

text \<open>\<open>goog.dom.createDom(tag, null, s)\<close> adds no text node for an empty text.\<close>

definition text_kids :: "string \<Rightarrow> xml list" where
  "text_kids s = (if s = [] then [] else [Txt s])"

definition title_dom :: "string \<times> string \<Rightarrow> xml" where
  "title_dom t = Elem ''title'' [(''name'', fst t)] (text_kids (snd t))"

definition comment_dom :: "view \<Rightarrow> nat \<Rightarrow> string option \<Rightarrow> xml list" where
  "comment_dom V i cm = (case cm of None \<Rightarrow> []
     | Some t \<Rightarrow> (case v_bubble V i of (pinned, h, w) \<Rightarrow>
         [Elem ''comment'' [(''pinned'', bool_str pinned), (''h'', nat_str h), (''w'', nat_str w)] (text_kids t)]))"

definition mutation_kids :: "block \<Rightarrow> xml list" where
  "mutation_kids b = (case mutationToDom b of None \<Rightarrow> [] | Some at \<Rightarrow> [Elem ''mutation'' at []])"

text \<open>\<open>inline\<close> is written for a block with a value input; the other flags when they are not the default.\<close>

definition block_attrs :: "string \<Rightarrow> input list \<Rightarrow> flags \<Rightarrow> (string \<times> string) list" where
  "block_attrs ty ins fl =
     [(''type'', ty)] @
     (if list_ex (\<lambda>i. i_kind i = ValueInput) ins then [(''inline'', bool_str (inlined fl))] else []) @
     (if collapsed fl then [(''collapsed'', ''true'')] else []) @
     (if disabled fl then [(''disabled'', ''true'')] else []) @
     (if deletable fl then [] else [(''deletable'', ''false'')]) @
     (if movable fl then [] else [(''movable'', ''false'')]) @
     (if editable fl then [] else [(''editable'', ''false'')])"

fun blockToDom :: "view \<Rightarrow> block \<Rightarrow> xml" and input_dom :: "view \<Rightarrow> input \<Rightarrow> xml list" where
  "blockToDom V NoBlock = Txt []"
| "blockToDom V (Block i ty ti mu ins nx fl cm) =
     Elem ''block'' (block_attrs ty ins fl)
       (mutation_kids (Block i ty ti mu ins nx fl cm) @ map title_dom ti @ comment_dom V i cm @
        concat (map (input_dom V) ins) @
        (if nx = NoBlock then [] else [Elem ''next'' [] [blockToDom V nx]]))"
| "input_dom V (Input n k t) =
     (if k = DummyInput \<or> t = NoBlock then []
      else [Elem (if k = ValueInput then ''value'' else ''statement'') [(''name'', n)] [blockToDom V t]])"

text \<open>\<open>getTopBlocks(true)\<close>, and \<open>workspaceToDom\<close>.\<close>

definition surface_order :: "view \<Rightarrow> top list \<Rightarrow> top list" where
  "surface_order V ws = sort_key (\<lambda>(b, xy). v_key V xy) ws"

definition mirror :: "view \<Rightarrow> int \<Rightarrow> int" where
  "mirror V x = (if v_rtl V then v_width V - x else x)"

fun add_attrs :: "(string \<times> string) list \<Rightarrow> xml \<Rightarrow> xml" where
  "add_attrs at (Elem n at' ks) = Elem n (at' @ at) ks"
| "add_attrs at (Txt s) = Txt s"

definition top_dom :: "view \<Rightarrow> top \<Rightarrow> xml" where
  "top_dom V t = (case t of (b, x, y) \<Rightarrow>
     add_attrs [(''x'', int_str (mirror V x)), (''y'', int_str y)] (blockToDom V b))"

definition xhtml :: string where
  "xhtml = ''http://www.w3.org/1999/xhtml''"

definition workspaceToDom :: "view \<Rightarrow> top list \<Rightarrow> xml" where
  "workspaceToDom V ws = Elem ''xml'' [(''xmlns'', xhtml)] (map (top_dom V) (surface_order V ws))"

subsection \<open>Loading\<close>

text \<open>\<open>d && c.setX("true" == d)\<close> for an attribute \<open>d\<close>.\<close>

definition flag_attr :: "(string \<times> string) list \<Rightarrow> string \<Rightarrow> bool \<Rightarrow> bool" where
  "flag_attr at n old = (case map_of at n of None \<Rightarrow> old | Some v \<Rightarrow> if v = [] then old else v = ''true'')"

text \<open>
  A new block with the flags of its element. \<open>setCollapsed(true)\<close> appends an input for the text
  shown in place of the others.
\<close>

definition flag_block :: "(string \<times> string) list \<Rightarrow> block \<Rightarrow> block" where
  "flag_block at b = (case b of NoBlock \<Rightarrow> NoBlock
     | Block i ty ti mu ins nx fl cm \<Rightarrow>
         Block i ty ti mu
           (if flag_attr at ''collapsed'' (collapsed fl) \<and> \<not> collapsed fl
            then ins @ [Input ''_TEMP_COLLAPSED_INPUT'' DummyInput NoBlock] else ins) nx
           (fl\<lparr>inlined := flag_attr at ''inline'' (inlined fl),
              collapsed := flag_attr at ''collapsed'' (collapsed fl),
              disabled := flag_attr at ''disabled'' (disabled fl),
              deletable := flag_attr at ''deletable'' (deletable fl),
              movable := flag_attr at ''movable'' (movable fl),
              editable := flag_attr at ''editable'' (editable fl)\<rparr>) cm)"

definition set_comment :: "string \<Rightarrow> block \<Rightarrow> block" where
  "set_comment s b = (case b of NoBlock \<Rightarrow> NoBlock
     | Block i ty ti mu ins nx fl cm \<Rightarrow> Block i ty ti mu ins nx fl (Some s))"

definition set_next :: "block \<Rightarrow> block \<Rightarrow> block" where
  "set_next c b = (case b of NoBlock \<Rightarrow> NoBlock
     | Block i ty ti mu ins nx fl cm \<Rightarrow> Block i ty ti mu ins c fl cm)"

definition plug_block :: "bool \<Rightarrow> block \<Rightarrow> block" where
  "plug_block out b = (case b of NoBlock \<Rightarrow> NoBlock
     | Block i ty ti mu ins nx fl cm \<Rightarrow> Block i ty ti mu ins nx (fl\<lparr>plugged := out\<rparr>) cm)"

text \<open>A block whose type is not known: it is in the workspace, without inputs.\<close>

definition bare_block :: "nat \<Rightarrow> string \<Rightarrow> block" where
  "bare_block i ty = Block i ty [] (0, 0) [] NoBlock new_flags None"

fun find_input_kind :: "string \<Rightarrow> input list \<Rightarrow> (ikind \<times> block) option" where
  "find_input_kind n [] = None"
| "find_input_kind n (Input m k t # ins) = (if m = n then Some (k, t) else find_input_kind n ins)"

fun fill_input :: "string \<Rightarrow> block \<Rightarrow> input list \<Rightarrow> input list" where
  "fill_input n c [] = []"
| "fill_input n c (Input m k t # ins) = (if m = n then Input m k c # ins else Input m k t # fill_input n c ins)"

text \<open>
  Connecting a child to an input: by its output if it has one, by its previous connection
  otherwise (\<open>Blockly.Connection.prototype.connect\<close>).
\<close>

definition attach :: "loader \<Rightarrow> string \<Rightarrow> ikind \<times> block \<Rightarrow> block \<Rightarrow> block \<Rightarrow> exn + block" where
  "attach L n spot c b =
     (let out = has_out L (b_type c) in
      if \<not> out \<and> \<not> has_prev L (b_type c) then Inl (Thrown ''Child block does not have output or previous statement.'')
      else if fst spot = DummyInput then Inl type_error
      else if fst spot \<noteq> (if out then ValueInput else StatementInput) then Inl (Thrown ''Attempt to connect incompatible types.'')
      else if snd spot \<noteq> NoBlock then
        Inl (Thrown (''Source connection already connected ('' @ (if out then ''value'' else ''block'') @ '').''))
      else Inr (set_inputs (fill_input n (plug_block out c) (b_inputs b)) (b_mut b) b))"

text \<open>The last child of an element that is not blank text, if it is a block.\<close>

fun blank :: "xml \<Rightarrow> bool" where
  "blank (Txt s) = list_all js_space s"
| "blank (Elem n at ks) = False"

definition block_child :: "xml list \<Rightarrow> xml option" where
  "block_child ks = (case filter (\<lambda>x. \<not> blank x) (rev ks) of [] \<Rightarrow> None
     | x # _ \<Rightarrow> (case x of Txt s \<Rightarrow> None | Elem n at cs \<Rightarrow> if js_toLowerCase n = ''block'' then Some x else None))"

lemma block_child_in: "block_child ks = Some x \<Longrightarrow> x \<in> set ks"
proof -
  assume "block_child ks = Some x"
  then obtain xs where "filter (\<lambda>x. \<not> blank x) (rev ks) = x # xs"
    by (auto simp: block_child_def split: list.splits xml.splits if_splits)
  then have "x \<in> set (filter (\<lambda>x. \<not> blank x) (rev ks))" by simp
  then show ?thesis by simp
qed

lemma block_child_size [termination_simp]: "block_child ks = Some x \<Longrightarrow> size x < Suc (size_list size ks + n)"
  using size_list_estimation' [OF block_child_in, of ks x "size x" size] by fastforce

type_synonym 'a loading = "(exn \<times> block list + 'a) \<times> nat"

text \<open>
  \<open>domToBlock_\<close>: a new block takes the next number, before its children. On an exception the
  blocks made so far, outermost first, are returned with it.
\<close>

definition shape_of :: "loader \<Rightarrow> string option \<Rightarrow> proto res" where
  "shape_of L ty = (case ty of None \<Rightarrow> Inr empty_proto | Some t \<Rightarrow> if t = [] then Inr empty_proto else l_proto L t)"

fun domToBlock :: "loader \<Rightarrow> nat \<Rightarrow> xml \<Rightarrow> block loading"
  and load_kids :: "loader \<Rightarrow> proto \<Rightarrow> nat \<Rightarrow> xml list \<Rightarrow> block \<Rightarrow> block loading" where
  "domToBlock L k (Txt s) = (Inr NoBlock, k)"
| "domToBlock L k (Elem n at ks) =
     (let ty = (case map_of at ''type'' of None \<Rightarrow> [] | Some t \<Rightarrow> t) in
      case shape_of L (map_of at ''type'') of
        Inl e \<Rightarrow> (Inl (Error e, [bare_block (Suc k) ty]), Suc k)
      | Inr p \<Rightarrow> load_kids L p (Suc k) ks (flag_block at (proto_block (Suc k) ty p)))"
| "load_kids L p k [] b = (Inr b, k)"
| "load_kids L p k (Txt s # ks) b =
     (if list_all js_space s then load_kids L p k ks b else (Inl (type_error, [b]), k))"
| "load_kids L p k (Elem n at cs # ks) b =
     (let g = js_str (map_of at ''name''); tag = js_toLowerCase n in
      if tag = ''mutation'' then load_kids L p k ks (if p_mutator p \<noteq> [] then domToMutation at b else b)
      else if tag = ''comment'' then load_kids L p k ks (set_comment (concat (map textContent cs)) b)
      else if tag = ''title'' then
        (case setTitleValue (l_fix L (b_type b) g (concat (map textContent cs))) g b of
           Inl e \<Rightarrow> (Inl (Error e, [b]), k)
         | Inr b' \<Rightarrow> load_kids L p k ks b')
      else if tag = ''value'' \<or> tag = ''statement'' then
        (case find_input_kind g (b_inputs b) of
           None \<Rightarrow> (Inl (Thrown (''Input does not exist: '' @ g), [b]), k)
         | Some spot \<Rightarrow> (case block_child cs of
             None \<Rightarrow> load_kids L p k ks b
           | Some e \<Rightarrow> (case domToBlock L k e of
               (Inl (x, rest), k') \<Rightarrow> (Inl (x, b # rest), k')
             | (Inr c, k') \<Rightarrow> (case attach L g spot c b of
                 Inl x \<Rightarrow> (Inl (x, [b, c]), k')
               | Inr b' \<Rightarrow> load_kids L p k' ks b'))))
      else if tag = ''next'' then
        (case block_child cs of
           None \<Rightarrow> load_kids L p k ks b
         | Some e \<Rightarrow>
             if \<not> p_next p then (Inl (Thrown ''Next statement does not exist.'', [b]), k)
             else if b_next b \<noteq> NoBlock then (Inl (Thrown ''Next statement is already connected.'', [b]), k)
             else (case domToBlock L k e of
               (Inl (x, rest), k') \<Rightarrow> (Inl (x, b # rest), k')
             | (Inr c, k') \<Rightarrow>
                 if \<not> has_prev L (b_type c) then
                   (Inl (Thrown ''Next block does not have previous statement.'', [b, c]), k')
                 else load_kids L p k' ks (set_next c b)))
      else load_kids L p k ks b)"

declare domToBlock.simps(2) [simp del] load_kids.simps(3) [simp del]

text \<open>\<open>domToWorkspace\<close>: the blocks join the workspace and move to their positions.\<close>

definition position_of :: "view \<Rightarrow> xml \<Rightarrow> int \<times> int" where
  "position_of V x = (case (Option.bind (getAttribute x ''x'') js_parseInt, Option.bind (getAttribute x ''y'') js_parseInt) of
     (Some a, Some b) \<Rightarrow> (mirror V a, b) | _ \<Rightarrow> (0, 0))"

fun load_tops :: "loader \<Rightarrow> view \<Rightarrow> nat \<Rightarrow> xml list \<Rightarrow> top list \<Rightarrow> exn option \<times> top list \<times> nat" where
  "load_tops L V k [] ws = (None, ws, k)"
| "load_tops L V k (Txt s # xs) ws = load_tops L V k xs ws"
| "load_tops L V k (Elem n at cs # xs) ws =
     (if js_toLowerCase n = ''block'' then
        (case domToBlock L k (Elem n at cs) of
           (Inl (e, bs), k') \<Rightarrow> (Some e, ws @ map (\<lambda>b. (b, 0, 0)) bs, k')
         | (Inr b, k') \<Rightarrow> load_tops L V k' xs (ws @ [(b, position_of V (Elem n at cs))]))
      else load_tops L V k xs ws)"

definition domToWorkspace :: "loader \<Rightarrow> view \<Rightarrow> xml \<Rightarrow> top list \<times> nat \<Rightarrow> exn option \<times> top list \<times> nat" where
  "domToWorkspace L V x s = (case x of Txt _ \<Rightarrow> (None, s) | Elem n at ks \<Rightarrow> load_tops L V (snd s) ks (fst s))"

subsection \<open>What can be written and loaded\<close>

text \<open>The numbers a loaded block and its descendants get: in the order parent, inputs, next.\<close>

fun renumber :: "nat \<Rightarrow> block \<Rightarrow> block \<times> nat" and renumber_ins :: "nat \<Rightarrow> input list \<Rightarrow> input list \<times> nat" where
  "renumber k NoBlock = (NoBlock, k)"
| "renumber k (Block i ty ti mu ins nx fl cm) =
     (case renumber_ins (Suc k) ins of (ins', k1) \<Rightarrow>
       (case renumber k1 nx of (nx', k2) \<Rightarrow> (Block (Suc k) ty ti mu ins' nx' fl cm, k2)))"
| "renumber_ins k [] = ([], k)"
| "renumber_ins k (Input n kd t # ins) =
     (case renumber k t of (t', k1) \<Rightarrow>
       (case renumber_ins k1 ins of (ins', k2) \<Rightarrow> (Input n kd t' # ins', k2)))"

text \<open>
  A block that its type can have made: its titles are those of the type, with values that its
  change handlers keep; its inputs are those of the type and of the mutation; every child fits
  its connection; and the flags that are not written have the value of the type.
\<close>

definition input_shape :: "input \<Rightarrow> string \<times> ikind" where
  "input_shape i = (i_name i, i_kind i)"

definition real_names :: "input list \<Rightarrow> string list" where
  "real_names ins = map i_name (filter (\<lambda>i. i_kind i \<noteq> DummyInput) ins)"

definition mutation_inputs :: "nat \<times> nat \<Rightarrow> input list" where
  "mutation_inputs mu = concat (map (\<lambda>x. elseif_inputs x NoBlock NoBlock) [1..<Suc (fst mu)]) @
     (if snd mu \<noteq> 0 then [else_input NoBlock] else [])"

definition node_loadable :: "loader \<Rightarrow> proto \<Rightarrow> string \<Rightarrow> (string \<times> string) list \<Rightarrow> nat \<times> nat \<Rightarrow> input list \<Rightarrow> flags \<Rightarrow> bool" where
  "node_loadable L p ty ti mu ins fl \<longleftrightarrow>
     map fst ti = map fst (proto_titles p) \<and> distinct (map fst ti) \<and>
     list_all (\<lambda>(n, v). l_fix L ty n v = v) ti \<and>
     p_mut p = (0, 0) \<and> snd mu \<le> 1 \<and> (mu = (0, 0) \<or> p_mutator p \<noteq> []) \<and>
     map input_shape ins = map (\<lambda>j. (pi_name j, pi_kind j)) (p_inputs p) @ map input_shape (mutation_inputs mu) \<and>
     distinct (real_names ins) \<and> [] \<notin> set (real_names ins) \<and>
     list_all (\<lambda>i. i_kind i = DummyInput \<longrightarrow> i_name i = []) ins \<and>
     \<not> collapsed fl \<and> (list_ex (\<lambda>i. i_kind i = ValueInput) ins \<or> inlined fl = p_inline p) \<and>
     (movable fl \<longrightarrow> p_movable p)"

definition fits :: "loader \<Rightarrow> ikind \<Rightarrow> block \<Rightarrow> bool" where
  "fits L k t \<longleftrightarrow> (case t of NoBlock \<Rightarrow> True | Block i ty ti mu ins nx fl cm \<Rightarrow>
     (k = ValueInput \<and> has_out L ty \<and> plugged fl) \<or>
     (k = StatementInput \<and> \<not> has_out L ty \<and> has_prev L ty \<and> \<not> plugged fl))"

definition follows :: "loader \<Rightarrow> proto \<Rightarrow> block \<Rightarrow> bool" where
  "follows L p nx \<longleftrightarrow> (case nx of NoBlock \<Rightarrow> True | Block i ty ti mu ins nx' fl cm \<Rightarrow>
     p_next p \<and> has_prev L ty \<and> \<not> plugged fl)"

fun loadable :: "loader \<Rightarrow> block \<Rightarrow> bool" and loadable_ins :: "loader \<Rightarrow> input list \<Rightarrow> bool" where
  "loadable L NoBlock = True"
| "loadable L (Block i ty ti mu ins nx fl cm) \<longleftrightarrow>
     ty \<noteq> [] \<and> (case l_proto L ty of Inl _ \<Rightarrow> False
       | Inr p \<Rightarrow> node_loadable L p ty ti mu ins fl \<and> follows L p nx) \<and>
     loadable_ins L ins \<and> loadable L nx"
| "loadable_ins L [] = True"
| "loadable_ins L (Input n k t # ins) \<longleftrightarrow> fits L k t \<and> loadable L t \<and> loadable_ins L ins"

subsection \<open>The parts of an element, one after the other\<close>

lemma lower_tags [simp]:
  "js_toLowerCase ''mutation'' = ''mutation''" "js_toLowerCase ''comment'' = ''comment''"
  "js_toLowerCase ''title'' = ''title''" "js_toLowerCase ''value'' = ''value''"
  "js_toLowerCase ''statement'' = ''statement''" "js_toLowerCase ''next'' = ''next''"
  "js_toLowerCase ''block'' = ''block''" "js_toLowerCase ''xml'' = ''xml''"
  by (simp_all add: js_toLowerCase_def js_lower1_def)

lemma text_of_kids [simp]: "concat (map textContent (text_kids s)) = s"
  by (simp add: text_kids_def)

text \<open>Titles: each element sets the title of its name.\<close>

lemma update_title_skip: "n \<notin> set (map fst pre) \<Longrightarrow> update_title v n (pre @ (n, w) # ti) = Some (pre @ (n, v) # ti)"
  by (induction pre) auto

lemma load_title:
  "load_kids L p k (title_dom (n, v) # ks) b =
   (case setTitleValue (l_fix L (b_type b) n v) n b of Inl e \<Rightarrow> (Inl (Error e, [b]), k) | Inr b' \<Rightarrow> load_kids L p k ks b')"
  by (simp add: title_dom_def load_kids.simps(3) Let_def js_str_def)

lemma load_titles:
  "map fst ti = map fst ti0 \<Longrightarrow> distinct (map fst (pre @ ti)) \<Longrightarrow> list_all (\<lambda>(n, v). l_fix L ty n v = v) ti \<Longrightarrow>
   load_kids L p k (map title_dom ti @ ks) (Block i ty (pre @ ti0) mu ins nx fl cm) =
   load_kids L p k ks (Block i ty (pre @ ti) mu ins nx fl cm)"
proof (induction ti arbitrary: ti0 pre)
  case (Cons a ti)
  obtain n v where a: "a = (n, v)" by force
  obtain w ti1 where t0: "ti0 = (n, w) # ti1" using Cons.prems(1) a by (cases ti0) auto
  have fresh: "n \<notin> set (map fst pre)" using Cons.prems(2) a by auto
  have fix_v: "l_fix L ty n v = v" using Cons.prems(3) a by simp
  have "load_kids L p k (map title_dom ti @ ks) (Block i ty ((pre @ [(n, v)]) @ ti1) mu ins nx fl cm) =
      load_kids L p k ks (Block i ty ((pre @ [(n, v)]) @ ti) mu ins nx fl cm)"
    by (rule Cons.IH) (use Cons.prems a t0 in auto)
  then show ?case
    using update_title_skip [OF fresh, of v w ti1]
    by (simp add: a t0 load_title fix_v setTitleValue_def)
qed simp

text \<open>The comment and the mutation.\<close>

lemma load_comment:
  "load_kids L p k (comment_dom V j cm @ ks) (Block i ty ti mu ins nx fl None) =
   load_kids L p k ks (Block i ty ti mu ins nx fl cm)"
proof (cases cm)
  case (Some t)
  obtain pn h w where "v_bubble V j = (pn, h, w)" by (cases "v_bubble V j") auto
  then show ?thesis
    by (simp add: Some comment_dom_def load_kids.simps(3) Let_def set_comment_def)
qed (simp add: comment_dom_def)

lemma load_mutation:
  assumes "snd mu \<le> 1" and "mu = (0, 0) \<or> p_mutator p \<noteq> []"
  shows "load_kids L p k (mutation_kids (Block j ty ti mu ins nx fl cm) @ ks) (Block i ty ti' (0, 0) ins0 NoBlock fl' None) =
    load_kids L p k ks (Block i ty ti' mu (ins0 @ mutation_inputs mu) NoBlock fl' None)"
proof (cases "mu = (0, 0)")
  case True
  then show ?thesis by (simp add: mutation_kids_def mutationToDom_def mutation_inputs_def)
next
  case False
  obtain n m where mu: "mu = (n, m)" by force
  have m: "m = 0 \<or> m = 1" using assms(1) mu by auto
  have nz: "n \<noteq> 0 \<or> m \<noteq> 0" using False mu by auto
  let ?at = "(if n \<noteq> 0 then [(''elseif'', nat_str n)] else []) @ (if m \<noteq> 0 then [(''else'', ''1'')] else [])"
  have dom: "mutation_kids (Block j ty ti mu ins nx fl cm) = [Elem ''mutation'' ?at []]"
    using nz by (simp add: mu mutation_kids_def mutationToDom_def)
  have one: "js_parseInt ''1'' = Some 1"
    using js_parseInt_nat_str [of 1] by (simp add: nat_str.simps digit_def)
  have "attr_count ?at ''elseif'' = int n" by (simp add: attr_count_def)
  moreover have "attr_count ?at ''else'' = int m" using m one by (auto simp: attr_count_def)
  ultimately have "domToMutation ?at (Block i ty ti' (0, 0) ins0 NoBlock fl' None) =
      Block i ty ti' mu (ins0 @ mutation_inputs mu) NoBlock fl' None"
    by (simp add: domToMutation_def set_inputs_def mutation_inputs_def mu Let_def del: upt_Suc)
  moreover have "p_mutator p \<noteq> []" using assms(2) False by simp
  ultimately show ?thesis unfolding dom by (simp add: load_kids.simps(3) Let_def)
qed

text \<open>The flags.\<close>

lemma bool_attr [simp]: "bool_str b \<noteq> []" "bool_str b = ''true'' \<longleftrightarrow> b"
  by (simp_all add: bool_str_def)

lemma flag_attrs:
  assumes "list_all (\<lambda>(n, v). n = ''x'' \<or> n = ''y'') ex"
  shows "map_of (block_attrs ty ins fl @ ex) ''type'' = Some ty"
    "flag_attr (block_attrs ty ins fl @ ex) ''inline'' d =
       (if list_ex (\<lambda>i. i_kind i = ValueInput) ins then inlined fl else d)"
    "flag_attr (block_attrs ty ins fl @ ex) ''collapsed'' d = (collapsed fl \<or> d)"
    "flag_attr (block_attrs ty ins fl @ ex) ''disabled'' d = (disabled fl \<or> d)"
    "flag_attr (block_attrs ty ins fl @ ex) ''deletable'' d = (deletable fl \<and> d)"
    "flag_attr (block_attrs ty ins fl @ ex) ''movable'' d = (movable fl \<and> d)"
    "flag_attr (block_attrs ty ins fl @ ex) ''editable'' d = (editable fl \<and> d)"
proof -
  have other: "n \<noteq> ''x'' \<Longrightarrow> n \<noteq> ''y'' \<Longrightarrow> map_of ex n = None" for n
    using assms by (auto simp: map_of_eq_None_iff list_all_iff)
  show "map_of (block_attrs ty ins fl @ ex) ''type'' = Some ty" by (simp add: block_attrs_def)
  show "flag_attr (block_attrs ty ins fl @ ex) ''inline'' d =
       (if list_ex (\<lambda>i. i_kind i = ValueInput) ins then inlined fl else d)"
    by (simp add: flag_attr_def block_attrs_def other)
  show "flag_attr (block_attrs ty ins fl @ ex) ''collapsed'' d = (collapsed fl \<or> d)"
    by (simp add: flag_attr_def block_attrs_def other)
  show "flag_attr (block_attrs ty ins fl @ ex) ''disabled'' d = (disabled fl \<or> d)"
    by (simp add: flag_attr_def block_attrs_def other)
  show "flag_attr (block_attrs ty ins fl @ ex) ''deletable'' d = (deletable fl \<and> d)"
    by (simp add: flag_attr_def block_attrs_def other)
  show "flag_attr (block_attrs ty ins fl @ ex) ''movable'' d = (movable fl \<and> d)"
    by (simp add: flag_attr_def block_attrs_def other)
  show "flag_attr (block_attrs ty ins fl @ ex) ''editable'' d = (editable fl \<and> d)"
    by (simp add: flag_attr_def block_attrs_def other)
qed

fun clear_input :: "input \<Rightarrow> input" where
  "clear_input (Input n k t) = Input n k NoBlock"

lemma new_flagged_block:
  assumes "list_all (\<lambda>(n, v). n = ''x'' \<or> n = ''y'') ex"
    and "\<not> collapsed fl" and "list_ex (\<lambda>i. i_kind i = ValueInput) ins \<or> inlined fl = p_inline p"
    and "movable fl \<longrightarrow> p_movable p"
  shows "flag_block (block_attrs ty ins fl @ ex) (proto_block i ty p) =
    Block i ty (proto_titles p) (p_mut p) (map (\<lambda>j. Input (pi_name j) (pi_kind j) NoBlock) (p_inputs p)) NoBlock
      (fl\<lparr>plugged := False\<rparr>) None"
  using assms(2-4) by (auto simp: flag_block_def proto_block_def flag_attrs [OF assms(1)] new_flags_def)

text \<open>The inputs and the next block.\<close>

lemma find_middle:
  assumes "n \<notin> set (map i_name pre)"
  shows "find_input_kind n (pre @ Input n k t # post) = Some (k, t)"
    and "fill_input n c (pre @ Input n k t # post) = pre @ Input n k c # post"
proof -
  have "find_input_kind n (pre @ Input n k t # post) = Some (k, t) \<and>
      fill_input n c (pre @ Input n k t # post) = pre @ Input n k c # post"
    using assms
  proof (induction pre)
    case (Cons i pre)
    then show ?case by (cases i) auto
  qed simp
  then show "find_input_kind n (pre @ Input n k t # post) = Some (k, t)"
    and "fill_input n c (pre @ Input n k t # post) = pre @ Input n k c # post" by simp_all
qed

lemma load_child:
  assumes "i_kind i \<noteq> DummyInput" and "n = i_name i" and "js_toLowerCase tag = ''value'' \<or> js_toLowerCase tag = ''statement''"
    and "block_child cs = Some e" and "domToBlock L k e = (Inr c, k')"
    and "fits L (i_kind i) (plug_block (i_kind i = ValueInput) c)" and "c \<noteq> NoBlock"
    and "n \<notin> set (map i_name pre)"
  shows "load_kids L p k (Elem tag [(''name'', n)] cs # ks) (Block j ty ti mu (pre @ Input n (i_kind i) NoBlock # post) nx fl cm) =
    load_kids L p k' ks (Block j ty ti mu (pre @ Input n (i_kind i) (plug_block (i_kind i = ValueInput) c) # post) nx fl cm)"
proof -
  obtain cj cty cti cmu cins cnx cfl ccm where c: "c = Block cj cty cti cmu cins cnx cfl ccm"
    using assms(7) by (cases c) auto
  have "attach L n (i_kind i, NoBlock) c (Block j ty ti mu (pre @ Input n (i_kind i) NoBlock # post) nx fl cm) =
      Inr (Block j ty ti mu (pre @ Input n (i_kind i) (plug_block (i_kind i = ValueInput) c) # post) nx fl cm)"
    using assms(1,6,8) by (auto simp: attach_def fits_def c plug_block_def set_inputs_def find_middle(2) Let_def)
  then show ?thesis
    using assms(3,4,5,8)
    by (elim disjE; simp add: load_kids.simps(3) Let_def js_str_def find_middle(1))
qed

subsection \<open>Loading what was written\<close>

lemma add_no_attrs [simp]: "add_attrs [] x = x"
  by (cases x) simp_all

lemma block_is_child [simp]:
  "b \<noteq> NoBlock \<Longrightarrow> block_child [blockToDom V b] = Some (blockToDom V b)"
  by (cases b) (simp_all add: block_child_def)

lemma renumber_kind [simp]: "fst (renumber k b) = NoBlock \<longleftrightarrow> b = NoBlock"
  by (cases b) (auto split: prod.splits)

lemma renumber_type [simp]: "b \<noteq> NoBlock \<Longrightarrow> b_type (fst (renumber k b)) = b_type b"
  by (cases b) (auto split: prod.splits)

lemma plug_type [simp]: "b \<noteq> NoBlock \<Longrightarrow> b_type (plug_block p b) = b_type b"
  by (cases b) (auto simp: plug_block_def)

lemma plug_kind [simp]: "plug_block p b = NoBlock \<longleftrightarrow> b = NoBlock"
  by (cases b) (auto simp: plug_block_def)

lemma plug_twice [simp]: "plug_block p (plug_block q b) = plug_block p b"
  by (cases b) (auto simp: plug_block_def)

lemma plug_same:
  "fits L k t \<Longrightarrow> plug_block (k = ValueInput) (fst (renumber n t)) = fst (renumber n t)"
  "follows L p t \<Longrightarrow> plug_block False (fst (renumber n t)) = fst (renumber n t)"
  by (cases t; auto simp: fits_def follows_def plug_block_def split: prod.splits)+

lemma fits_renumber [simp]: "fits L k (fst (renumber n t)) = fits L k t"
  by (cases t) (auto simp: fits_def split: prod.splits)

lemma load_next:
  assumes "follows L p nx" and "nx \<noteq> NoBlock"
    and "domToBlock L k (blockToDom V nx) = (Inr (plug_block False (fst (renumber n nx))), k')"
  shows "load_kids L p k [Elem ''next'' [] [blockToDom V nx]] (Block i ty ti mu ins NoBlock fl cm) =
    (Inr (Block i ty ti mu ins (fst (renumber n nx)) fl cm), k')"
proof -
  have "p_next p" "has_prev L (b_type nx)" using assms(1,2) by (cases nx; auto simp: follows_def)+
  then show ?thesis
    using assms plug_same(2) [OF assms(1), of n]
    by (simp add: load_kids.simps(3) Let_def set_next_def)
qed

lemma load_start:
  assumes "map_of at ''type'' = Some ty" and "ty \<noteq> []" and "l_proto L ty = Inr p"
  shows "domToBlock L k (Elem n at ks) = load_kids L p (Suc k) ks (flag_block at (proto_block (Suc k) ty p))"
  using assms by (simp add: domToBlock.simps(2) shape_of_def)

text \<open>The general statement, for a block and for a list of inputs.\<close>

lemma inputs_cleared:
  assumes "node_loadable L p ty ti mu ins fl" and "loadable_ins L ins"
  shows "map (\<lambda>j. Input (pi_name j) (pi_kind j) NoBlock) (p_inputs p) @ mutation_inputs mu = map clear_input ins"
proof -
  let ?mk = "\<lambda>(n, k). Input n k NoBlock"
  have "map ?mk (map input_shape ins) = map clear_input ins"
    by (induction ins) (auto simp: input_shape_def elim: clear_input.elims, metis clear_input.elims input.sel(1,2))
  moreover have "map ?mk (map input_shape (mutation_inputs mu)) = mutation_inputs mu"
    by (auto simp: mutation_inputs_def input_shape_def elseif_inputs_def else_input_def map_concat comp_def)
  moreover have eq: "map input_shape ins =
      map (\<lambda>j. (pi_name j, pi_kind j)) (p_inputs p) @ map input_shape (mutation_inputs mu)"
    using assms(1) unfolding node_loadable_def by blast
  ultimately have "map ?mk (map (\<lambda>j. (pi_name j, pi_kind j)) (p_inputs p)) @ mutation_inputs mu = map clear_input ins"
    unfolding eq map_append by simp
  then show ?thesis by (simp add: comp_def)
qed

definition inputs_apart :: "input list \<Rightarrow> input list \<Rightarrow> bool" where
  "inputs_apart pre ins \<longleftrightarrow> distinct (real_names ins) \<and> [] \<notin> set (real_names ins) \<and>
     list_all (\<lambda>i. i_kind i = DummyInput \<longrightarrow> i_name i = []) ins \<and>
     set (map i_name pre) \<inter> set (real_names ins) = {}"

lemma inputs_apart_Cons:
  assumes "inputs_apart pre (Input n k t # ins)"
  shows "inputs_apart (pre @ [Input n k t']) ins" and "k \<noteq> DummyInput \<Longrightarrow> n \<notin> set (map i_name pre)"
  using assms by (cases k; auto simp: inputs_apart_def real_names_def)+

lemma load_written:
  shows "loadable L b \<Longrightarrow> b \<noteq> NoBlock \<Longrightarrow> list_all (\<lambda>(n, v). n = ''x'' \<or> n = ''y'') ex \<Longrightarrow>
      domToBlock L k (add_attrs ex (blockToDom V b)) = (Inr (plug_block False (fst (renumber k b))), snd (renumber k b))"
    and "loadable_ins L ins \<Longrightarrow> inputs_apart pre ins \<Longrightarrow>
      load_kids L p k (concat (map (input_dom V) ins) @ ks) (Block i ty ti mu (pre @ map clear_input ins) nx fl cm) =
      load_kids L p (snd (renumber_ins k ins)) ks (Block i ty ti mu (pre @ fst (renumber_ins k ins)) nx fl cm)"
proof (induction L b and L ins arbitrary: k ex and k pre p ks i ty ti mu nx fl cm rule: loadable_loadable_ins.induct)
  case (2 L i ty ti mu ins nx fl cm)
  obtain p where p: "l_proto L ty = Inr p" and node: "node_loadable L p ty ti mu ins fl" and nx: "follows L p nx"
    using "2.prems"(1) by (cases "l_proto L ty") auto
  have ty: "ty \<noteq> []" and ins: "loadable_ins L ins" and lnx: "loadable L nx" using "2.prems"(1) by simp_all
  obtain ins' k1 where r1: "renumber_ins (Suc k) ins = (ins', k1)" by force
  obtain nx' k2 where r2: "renumber k1 nx = (nx', k2)" by force
  let ?fl = "fl\<lparr>plugged := False\<rparr>"
  let ?next = "if nx = NoBlock then [] else [Elem ''next'' [] [blockToDom V nx]]"
  have start: "flag_block (block_attrs ty ins fl @ ex) (proto_block (Suc k) ty p) =
      Block (Suc k) ty ([] @ proto_titles p) (0, 0) (map (\<lambda>j. Input (pi_name j) (pi_kind j) NoBlock) (p_inputs p)) NoBlock ?fl None"
    using new_flagged_block [OF "2.prems"(3)] node by (simp add: node_loadable_def)
  have titles: "map fst ti = map fst (proto_titles p)" "distinct (map fst ([] @ ti))" "list_all (\<lambda>(n, v). l_fix L ty n v = v) ti"
    and mut: "snd mu \<le> 1" "mu = (0, 0) \<or> p_mutator p \<noteq> []"
    using node unfolding node_loadable_def append_Nil by blast+
  have apart: "inputs_apart [] ins"
    using node by (simp add: node_loadable_def inputs_apart_def)
  have "domToBlock L k (add_attrs ex (blockToDom V (Block i ty ti mu ins nx fl cm))) =
      load_kids L p (Suc k) (mutation_kids (Block i ty ti mu ins nx fl cm) @ map title_dom ti @ comment_dom V i cm @
          concat (map (input_dom V) ins) @ ?next)
        (flag_block (block_attrs ty ins fl @ ex) (proto_block (Suc k) ty p))"
    unfolding blockToDom.simps add_attrs.simps by (rule load_start [OF flag_attrs(1) [OF "2.prems"(3)] ty p])
  also have "\<dots> = load_kids L p (Suc k) (map title_dom ti @ comment_dom V i cm @ concat (map (input_dom V) ins) @ ?next)
        (Block (Suc k) ty ([] @ proto_titles p) mu (map clear_input ins) NoBlock ?fl None)"
    unfolding start load_mutation [OF mut] inputs_cleared [OF node ins] ..
  also have "\<dots> = load_kids L p (Suc k) (comment_dom V i cm @ concat (map (input_dom V) ins) @ ?next)
        (Block (Suc k) ty ([] @ ti) mu (map clear_input ins) NoBlock ?fl None)"
    by (rule load_titles [OF titles])
  also have "\<dots> = load_kids L p (Suc k) (concat (map (input_dom V) ins) @ ?next)
        (Block (Suc k) ty ti mu ([] @ map clear_input ins) NoBlock ?fl cm)"
    unfolding append_Nil by (rule load_comment)
  also have "\<dots> = load_kids L p k1 ?next (Block (Suc k) ty ti mu ins' NoBlock ?fl cm)"
    using "2.IH"(1) [OF ins apart, where k = "Suc k"] r1 by simp
  also have "\<dots> = (Inr (Block (Suc k) ty ti mu ins' nx' ?fl cm), k2)"
  proof (cases "nx = NoBlock")
    case True
    then show ?thesis using r2 by auto
  next
    case False
    have "domToBlock L k1 (add_attrs [] (blockToDom V nx)) = (Inr (plug_block False (fst (renumber k1 nx))), snd (renumber k1 nx))"
      by (rule "2.IH"(2) [OF lnx False]) simp
    then show ?thesis using load_next [OF nx False, of k1 V k1 k2] r2 False by simp
  qed
  finally show ?case using r1 r2 by (simp add: plug_block_def)
next
  case (4 L n kd t ins)
  obtain t' k1 where r1: "renumber k t = (t', k1)" by force
  obtain ins' k2 where r2: "renumber_ins k1 ins = (ins', k2)" by force
  have good: "fits L kd t" "loadable L t" "loadable_ins L ins" using "4.prems"(1) by simp_all
  note apart = inputs_apart_Cons [OF "4.prems"(2)]
  have rest: "load_kids L p k1 (concat (map (input_dom V) ins) @ ks) (Block i ty ti mu ((pre @ [Input n kd t']) @ map clear_input ins) nx fl cm) =
      load_kids L p k2 ks (Block i ty ti mu ((pre @ [Input n kd t']) @ ins') nx fl cm)"
    using "4.IH"(2) [OF good(3) apart(1), where k = k1] r2 by simp
  show ?case
  proof (cases "t = NoBlock")
    case True
    then show ?thesis using rest r1 r2 by auto
  next
    case False
    have kd: "kd \<noteq> DummyInput" using good(1) False by (cases t) (auto simp: fits_def)
    have same: "plug_block (kd = ValueInput) t' = t'" using plug_same(1) [OF good(1), of k] r1 by simp
    have "domToBlock L k (add_attrs [] (blockToDom V t)) = (Inr (plug_block False (fst (renumber k t))), snd (renumber k t))"
      by (rule "4.IH"(1) [OF good(2) False]) simp
    then have dom: "domToBlock L k (blockToDom V t) = (Inr (plug_block False t'), k1)" using r1 by simp
    have fit: "fits L kd (plug_block (kd = ValueInput) (plug_block False t'))"
      using good(1) same r1 fits_renumber [of L kd k t] by simp
    have t': "plug_block False t' \<noteq> NoBlock" using False renumber_kind [of k t] r1 by simp
    have "load_kids L p k (Elem (if kd = ValueInput then ''value'' else ''statement'') [(''name'', n)] [blockToDom V t] #
          concat (map (input_dom V) ins) @ ks) (Block i ty ti mu (pre @ Input n kd NoBlock # map clear_input ins) nx fl cm) =
        load_kids L p k1 (concat (map (input_dom V) ins) @ ks) (Block i ty ti mu (pre @ Input n kd t' # map clear_input ins) nx fl cm)"
      using load_child [of "Input n kd t", OF _ _ _ block_is_child [OF False] dom _ t' apart(2) [OF kd]] kd fit same by simp
    then show ?thesis using rest r1 r2 False kd by simp
  qed
qed simp_all

subsection \<open>Whole workspaces, as text\<close>

definition top_ok :: "loader \<Rightarrow> top \<Rightarrow> bool" where
  "top_ok L t \<longleftrightarrow> fst t \<noteq> NoBlock \<and> loadable L (fst t) \<and> \<not> plugged (b_flags (fst t))"

fun renumber_tops :: "nat \<Rightarrow> top list \<Rightarrow> top list \<times> nat" where
  "renumber_tops k [] = ([], k)"
| "renumber_tops k ((b, xy) # ws) =
     (case renumber k b of (b', k1) \<Rightarrow> (case renumber_tops k1 ws of (ws', k2) \<Rightarrow> ((b', xy) # ws', k2)))"

lemma js_parseInt_int_str [simp]: "js_parseInt (int_str i) = Some i"
proof (cases "i < 0")
  case True
  obtain n where n: "nat (- i) = n" "i = - int n" using True by (metis int_nat_eq less_le_not_le neg_0_less_iff_less nat_0_le minus_minus order.strict_implies_order)
  have "dec_prefix (nat_str n) = nat_str n"
    using digits_nat_str by (simp add: dec_prefix_def takeWhile_eq_all_conv)
  then show ?thesis
    using True n dec_val_nat_str [of n]
    by (simp add: int_str_def js_parseInt_def js_trimLeft_def js_space_def Let_def)
qed (simp add: int_str_def)

lemma mirror_mirror [simp]: "mirror V (mirror V x) = x"
  by (simp add: mirror_def)

lemma top_position [simp]: "b \<noteq> NoBlock \<Longrightarrow> position_of V (top_dom V (b, x, y)) = (x, y)"
  by (cases b) (simp_all add: position_of_def top_dom_def getAttribute_def block_attrs_def)

lemma top_dom_block: "b \<noteq> NoBlock \<Longrightarrow> \<exists>at ks. top_dom V (b, x, y) = Elem ''block'' at ks"
  by (cases b) (simp_all add: top_dom_def)

lemma load_top:
  "top_ok L (b, x, y) \<Longrightarrow> domToBlock L k (top_dom V (b, x, y)) = (Inr (fst (renumber k b)), snd (renumber k b))"
proof -
  assume ok: "top_ok L (b, x, y)"
  then have "plug_block False (fst (renumber k b)) = fst (renumber k b)"
    by (cases b) (auto simp: top_ok_def plug_block_def split: prod.splits)
  then show ?thesis
    using load_written(1) [of L b "[(''x'', int_str (mirror V x)), (''y'', int_str y)]" k V] ok
    by (simp add: top_ok_def top_dom_def)
qed

lemma load_tops_written:
  "list_all (top_ok L) ws \<Longrightarrow>
   load_tops L V k (map (top_dom V) ws) done = (None, done @ fst (renumber_tops k ws), snd (renumber_tops k ws))"
proof (induction ws arbitrary: k "done")
  case (Cons t ws)
  obtain b x y where t: "t = (b, x, y)" by (cases t) auto
  have ok: "top_ok L (b, x, y)" "b \<noteq> NoBlock" using Cons.prems t by (simp_all add: top_ok_def)
  obtain at ks where dom: "top_dom V (b, x, y) = Elem ''block'' at ks" using top_dom_block [OF ok(2)] by blast
  obtain b' k1 where r: "renumber k b = (b', k1)" by force
  have "load_tops L V k (Elem ''block'' at ks # map (top_dom V) ws) done =
      load_tops L V k1 (map (top_dom V) ws) (done @ [(b', x, y)])"
    using load_top [OF ok(1), of k V] top_position [OF ok(2), of V x y] r by (simp add: dom)
  also have "\<dots> = (None, (done @ [(b', x, y)]) @ fst (renumber_tops k1 ws), snd (renumber_tops k1 ws))"
    by (rule Cons.IH) (use Cons.prems in simp)
  finally show ?case using r by (simp add: t dom split: prod.splits)
qed simp

text \<open>What is written is a document the parser reads back.\<close>

lemma names_ok [simp]:
  "xml_name ''type''" "xml_name ''inline''" "xml_name ''collapsed''" "xml_name ''disabled''" "xml_name ''deletable''"
  "xml_name ''movable''" "xml_name ''editable''" "xml_name ''name''" "xml_name ''pinned''" "xml_name ''h''" "xml_name ''w''"
  "xml_name ''x''" "xml_name ''y''" "xml_name ''xmlns''" "xml_name ''elseif''" "xml_name ''else''" "xml_name ''block''"
  "xml_name ''title''" "xml_name ''comment''" "xml_name ''mutation''" "xml_name ''value''" "xml_name ''statement''"
  "xml_name ''next''" "xml_name ''xml''"
  by (simp_all add: xml_name_def name_char_def js_space_def)

definition elem :: "xml \<Rightarrow> bool" where
  "elem x \<longleftrightarrow> (case x of Elem _ _ _ \<Rightarrow> True | Txt _ \<Rightarrow> False)"

lemma elem_Elem [simp]: "elem (Elem n at ks)"
  by (simp add: elem_def)

lemma no_double_elems: "list_all elem ks \<Longrightarrow> no_double_text ks"
  by (induction ks rule: no_double_text.induct) (auto simp: elem_def)

lemma normal_text_kids [simp]: "list_all normal (text_kids s) \<and> no_double_text (text_kids s)"
  by (simp add: text_kids_def)

lemma elem_titles: "list_all elem (map title_dom ti) \<and> list_all normal (map title_dom ti)"
  by (induction ti) (simp_all add: title_dom_def)

lemma elem_comment: "list_all elem (comment_dom V i cm) \<and> list_all normal (comment_dom V i cm)"
  by (simp add: comment_dom_def split: option.split prod.split)

lemma elem_mutation: "list_all elem (mutation_kids b) \<and> list_all normal (mutation_kids b)"
  by (simp add: mutation_kids_def mutationToDom_def split: option.split prod.split)

lemma normal_written:
  "b \<noteq> NoBlock \<Longrightarrow> normal (blockToDom V b) \<and> elem (blockToDom V b)"
  "list_all normal (input_dom V i) \<and> list_all elem (input_dom V i)"
proof (induction b and i)
  case (Block i ty ti mu ins nx fl cm)
  have "list_all (\<lambda>a. xml_name (fst a)) (block_attrs ty ins fl)" by (simp add: block_attrs_def)
  moreover have "list_all normal (concat (map (input_dom V) ins)) \<and> list_all elem (concat (map (input_dom V) ins))"
    using Block.IH(1) by (induction ins) simp_all
  ultimately show ?case
    using Block.IH(2) elem_titles [of ti] elem_comment [of V i cm] elem_mutation [of "Block i ty ti mu ins nx fl cm"]
    by (auto intro!: no_double_elems)
qed simp_all

lemma normal_workspace:
  assumes "list_all (\<lambda>t. fst t \<noteq> NoBlock) ws"
  shows "normal (workspaceToDom V ws)"
proof -
  have "normal (top_dom V t) \<and> elem (top_dom V t)" if "t \<in> set ws" for t
  proof -
    obtain b x y where t: "t = (b, x, y)" by (cases t) auto
    then have "b \<noteq> NoBlock" using assms that by (auto simp: list_all_iff)
    then have "normal (blockToDom V b)" using normal_written(1) by blast
    then show ?thesis using \<open>b \<noteq> NoBlock\<close> by (cases b) (simp_all add: t top_dom_def)
  qed
  then have "list_all normal (map (top_dom V) (surface_order V ws)) \<and> list_all elem (map (top_dom V) (surface_order V ws))"
    by (simp add: list_all_iff surface_order_def)
  then show ?thesis by (simp add: workspaceToDom_def no_double_elems)
qed

lemma workspace_text_parses:
  assumes "list_all (\<lambda>t. fst t \<noteq> NoBlock) ws"
  shows "textToDom (domToText (workspaceToDom V ws)) = Inr (workspaceToDom V ws)"
  by (rule text_roundtrip [OF normal_workspace [OF assms]]) (simp_all add: workspaceToDom_def)

lemma read_written:
  assumes "list_all (top_ok L) ws"
  shows "textToDom (domToText (workspaceToDom V ws)) = Inr (workspaceToDom V ws)"
    and "domToWorkspace L V (workspaceToDom V ws) ([], k) = (None, renumber_tops k (surface_order V ws))"
proof -
  show "textToDom (domToText (workspaceToDom V ws)) = Inr (workspaceToDom V ws)"
    by (rule workspace_text_parses) (use assms in \<open>auto simp: top_ok_def list_all_iff\<close>)
  have "list_all (top_ok L) (surface_order V ws)"
    using assms by (simp add: list_all_iff surface_order_def)
  then show "domToWorkspace L V (workspaceToDom V ws) ([], k) = (None, renumber_tops k (surface_order V ws))"
    using load_tops_written [of L "surface_order V ws" V k "[]"] by (simp add: domToWorkspace_def workspaceToDom_def)
qed

text \<open>The numbers of a loaded block, in the order of its descendants, are consecutive.\<close>

lemma renumber_ids:
  "map b_id (getDescendants (fst (renumber k b))) = [Suc k ..< Suc (snd (renumber k b))] \<and> k \<le> snd (renumber k b)"
  "map b_id (concat (map input_descendants (fst (renumber_ins k ins)))) = [Suc k ..< Suc (snd (renumber_ins k ins))] \<and>
     k \<le> snd (renumber_ins k ins)"
proof (induction k b and k ins rule: renumber_renumber_ins.induct)
  case (2 k i ty ti mu ins nx fl cm)
  obtain ins' k1 where r1: "renumber_ins (Suc k) ins = (ins', k1)" by force
  obtain nx' k2 where r2: "renumber k1 nx = (nx', k2)" by force
  have "map b_id (concat (map input_descendants ins')) = [Suc (Suc k) ..< Suc k1]" "Suc k \<le> k1"
    using "2.IH"(1) r1 by simp_all
  moreover have "map b_id (getDescendants nx') = [Suc k1 ..< Suc k2]" "k1 \<le> k2"
    using "2.IH"(2) [OF r1 [symmetric]] r2 by simp_all
  ultimately show ?case
    using r1 r2 upt_add_eq_append [of "Suc (Suc k)" "Suc k1" "k2 - k1"] by (simp add: upt_conv_Cons del: upt_Suc)
next
  case (4 k n kd t ins)
  obtain t' k1 where r1: "renumber k t = (t', k1)" by force
  obtain ins' k2 where r2: "renumber_ins k1 ins = (ins', k2)" by force
  have "map b_id (getDescendants t') = [Suc k ..< Suc k1]" "k \<le> k1" using "4.IH"(1) r1 by simp_all
  moreover have "map b_id (concat (map input_descendants ins')) = [Suc k1 ..< Suc k2]" "k1 \<le> k2"
    using "4.IH"(2) [OF r1 [symmetric]] r2 by simp_all
  ultimately show ?case
    using r1 r2 upt_add_eq_append [of "Suc k" "Suc k1" "k2 - k1"] by (simp del: upt_Suc)
qed simp_all

text \<open>C3. What is saved can be loaded: the text written for a workspace, parsed and loaded into an
  empty workspace, gives every block back - types, titles, optional branches, children, comments,
  flags - at its position, in the order of the surface, with consecutive new numbers; and no
  exception is thrown.
\<close>

theorem workspace_survives_text:
  assumes "list_all (top_ok L) ws"
  shows "map_res (\<lambda>x. domToWorkspace L V x ([], k)) (textToDom (domToText (workspaceToDom V ws))) =
    Inr (None, renumber_tops k (surface_order V ws))"
  using read_written [OF assms] by simp

definition demo_env :: benv where
  "demo_env = \<lparr>y_msg = Some, b_msg = Some, rtl_dir = False\<rparr>"

definition demo_registry :: "(string \<times> bcall list) list" where
  "demo_registry = [(''controls_behaviour'', block_controls_behaviour), (''controls_if'', block_controls_if),
     (''logic_boolean'', block_logic_boolean)]"

definition demo_proto :: "string \<Rightarrow> proto res" where
  "demo_proto ty = (case map_of demo_registry ty of None \<Rightarrow> Inl (unknown_block ty)
     | Some cs \<Rightarrow> (case run_init demo_env cs empty_proto of None \<Rightarrow> Inl ''Assertion failed'' | Some p \<Rightarrow> Inr p))"

definition demo_loader :: loader where
  "demo_loader = \<lparr>l_proto = demo_proto, l_fix = (\<lambda>ty n v. v)\<rparr>"

definition demo_view :: view where
  "demo_view = \<lparr>v_rtl = False, v_width = 800, v_bubble = (\<lambda>_. (False, 80, 160)), v_key = (\<lambda>(x, y). y)\<rparr>"

definition demo_behaviour :: block where
  "demo_behaviour =
     Block 7 ''controls_behaviour'' [(''TEXT'', ''a<b''), (''PR'', ''1'')] (0, 0)
       [Input [] DummyInput NoBlock,
        Input ''BEHAVIOUR_CODE'' StatementInput
          (Block 9 ''controls_if'' [] (0, 1)
            [Input ''IF0'' ValueInput
               (Block 12 ''logic_boolean'' [(''BOOL'', ''TRUE'')] (0, 0) [Input [] DummyInput NoBlock] NoBlock
                 (new_flags\<lparr>plugged := True\<rparr>) None),
             Input ''DO0'' StatementInput NoBlock,
             Input ''ELSE'' StatementInput NoBlock] NoBlock new_flags (Some ''why & how''))]
       NoBlock (new_flags\<lparr>disabled := True\<rparr>) None"

lemma demo_top_ok: "top_ok demo_loader (demo_behaviour, 20, 30)"
  by code_simp

theorem workspace_survives_text_witness:
  "list_all (top_ok demo_loader) [(demo_behaviour, 20, 30)] \<and>
   map_res (\<lambda>x. domToWorkspace demo_loader demo_view x ([], 4)) (textToDom (domToText (workspaceToDom demo_view [(demo_behaviour, 20, 30)]))) =
    Inr (None, renumber_tops 4 (surface_order demo_view [(demo_behaviour, 20, 30)]))"
  using workspace_survives_text [of demo_loader "[(demo_behaviour, 20, 30)]" demo_view 4] demo_top_ok by simp

end
