(* ===== verification/AppState.thy ===== *)
theory AppState
  imports XmlBlocks Storage Transport LuaCode
begin

text \<open>
  The state of the page: the variables of the name spaces \<open>Yatay\<close> and \<open>Yatay.Common\<close>, the main
  workspace, what the page shows, the pending timers and the requests sent to the server. An
  operation of the page is an action on this state that may end with an exception; what it did
  before the exception stays.
\<close>

subsection \<open>The state\<close>

text \<open>An entry \<open>[id, text, name, size]\<close> of \<open>Yatay.Common.behaviours\<close>.\<close>

record behaviour =
  bx_id :: nat
  bx_text :: string
  bx_name :: string
  bx_size :: nat

text \<open>\<open>maxBlocks\<close>: a number, \<open>Infinity\<close> (the text \<open>'Infinity'\<close> compares equal to it), or another text.\<close>

datatype capacity = MaxInfinity | MaxNumber nat | MaxText string

text \<open>What a timer does when it fires.\<close>

datatype timer =
    Rearm string \<comment> \<open>give a button its handler back\<close>
  | ClearMessage
  | PlaceTop \<comment> \<open>move the first block into view and select it\<close>
  | ClickRun
  | SelectBlock int
  | ResizeWindow
  | PollResults
  | DebugPoll
  | RefreshBlocks

text \<open>Requests to the server, by their handlers; \<open>SaveReq\<close> carries the variables of its closure.\<close>

datatype request =
    InitReq | TestReq | KillReq
  | SaveReq string bool nat "string list"
  | LoadBxsReq bool | DeleteBxsReq
  | PollReq | PollDebugReq | RefreshReq
  | LoadProjsReq | SaveTempReq string | UserIdReq

text \<open>What the user notices besides the page itself.\<close>

datatype effect =
    Alerted string
  | Reloaded
  | WentTo string
  | Shook string
  | SavedFile string string
  | Downloaded string
  | PlayedTour
  | ResizedWindow
  | Rendered
  | Appended string string \<comment> \<open>an element and what is inserted before, after or into it\<close>

record app =
  a_ws :: "top list" \<comment> \<open>the top blocks of \<open>Blockly.mainWorkspace\<close>\<close>
  a_uid :: nat \<comment> \<open>\<open>Blockly.uidCounter_\<close>\<close>
  a_selected :: "nat option" \<comment> \<open>\<open>Blockly.selected\<close>\<close>
  a_max :: capacity
  a_cats :: "bool list" \<comment> \<open>the categories of the toolbox that are not disposed of\<close>
  a_gen :: gstate \<comment> \<open>\<open>Yatay.variables\<close> and \<open>Yatay.complex_sensors\<close>\<close>
  a_recovered :: "(string \<times> proto) list" \<comment> \<open>types defined by \<open>tryToRecover\<close>\<close>
  a_missing :: "string list"
  a_unavailable :: "string list" \<comment> \<open>\<open>Yatay.not_available_sensors\<close>\<close>
  a_behaviours :: "behaviour list"
  a_items :: "(nat \<times> string) list" \<comment> \<open>the entries of \<open>#bx_list\<close>\<close>
  a_edited :: "string list"
  a_active :: "nat option" \<comment> \<open>\<open>editedBxs.active\<close>; \<open>-1\<close> is \<^const>\<open>None\<close>\<close>
  a_editor :: "string option" \<comment> \<open>the text in CodeMirror, once it exists\<close>
  a_tabs :: "string list"
  a_tab :: "nat option" \<comment> \<open>the tab of class \<open>active\<close>\<close>
  a_testMode :: bool
  a_butiaSel :: bool \<comment> \<open>\<open>isButiaBlockSelected\<close>\<close>
  a_debug :: bool
  a_debugOffset :: nat
  a_debugLast :: "int option"
  a_refresh :: bool
  a_countBlocks :: "nat option"
  a_wsXml :: string \<comment> \<open>\<open>currentWorkspaceXml\<close>\<close>
  a_fileCode :: string
  a_bxsCode :: "(string \<times> (string \<times> string) list) list"
  a_activesBxs :: "(string \<times> string list) list"
  a_activesProj :: "string list"
  a_joinProj :: string
  a_vel :: string
  a_lang :: string
  a_url :: "string \<times> string" \<comment> \<open>the address up to the path, and \<open>location.search\<close>\<close>
  a_openToolbox :: bool
  a_classes :: "string list" \<comment> \<open>of \<open>#content_blocks\<close>\<close>
  a_store :: storage
  a_jar :: jar
  a_shown :: "string \<Rightarrow> bool"
  a_html :: "string \<Rightarrow> string" \<comment> \<open>contents and values of elements\<close>
  a_disabled :: "string \<Rightarrow> bool" \<comment> \<open>the attribute of form elements\<close>
  a_armed :: "string \<Rightarrow> bool" \<comment> \<open>the button has its handler\<close>
  a_timers :: "(nat \<times> timer) list"
  a_requests :: "(request \<times> (string \<times> string) list) list"
  a_effects :: "effect list"

text \<open>What does not change while the page is open.\<close>

record env =
  e_tablet :: bool \<comment> \<open>\<open>Yatay.Tablet != undefined\<close>\<close>
  e_msgs :: benv
  e_fix :: "string \<Rightarrow> string \<Rightarrow> string \<Rightarrow> string"
  e_view :: view
  e_num :: "string \<Rightarrow> string"
  e_less :: "string \<Rightarrow> string \<Rightarrow> bool"
  e_inherited :: "string \<Rightarrow> bool"
  e_gmt :: "int \<Rightarrow> string"
  e_now :: int
  e_agent :: string \<comment> \<open>\<open>navigator.userAgent\<close>\<close>
  e_butia :: "string list" \<comment> \<open>the types in the third category of the toolbox\<close>
  e_nested :: "nat \<Rightarrow> int \<times> int" \<comment> \<open>where a block inside another one is drawn\<close>
  e_origin :: "int \<times> int" \<comment> \<open>\<open>viewLeft\<close> and \<open>viewTop\<close>, rounded\<close>

definition msg :: "env \<Rightarrow> string \<Rightarrow> string" where
  "msg E k = text_or_undefined (y_msg (e_msgs E) k)"

text \<open>\<open>Blockly.Blocks\<close>: the types recovered so far come first.\<close>

definition loader_of :: "env \<Rightarrow> app \<Rightarrow> loader" where
  "loader_of E s = \<lparr>l_proto = (\<lambda>ty. case map_of (a_recovered s) ty of Some p \<Rightarrow> Inr p | None \<Rightarrow> init_proto (e_msgs E) ty),
     l_fix = e_fix E\<rparr>"

subsection \<open>Actions\<close>

type_synonym act = "app \<Rightarrow> exn option \<times> app"

definition upd :: "(app \<Rightarrow> app) \<Rightarrow> act" where
  "upd f s = (None, f s)"

definition raise :: "exn \<Rightarrow> act" where
  "raise e s = (Some e, s)"

definition skip :: act where
  "skip s = (None, s)"

text \<open>Statements in sequence, up to the first exception.\<close>

fun seqs :: "act list \<Rightarrow> act" where
  "seqs [] s = (None, s)"
| "seqs (a # as) s = (case a s of (None, t) \<Rightarrow> seqs as t | (Some e, t) \<Rightarrow> (Some e, t))"

text \<open>A statement that reads the state, \<open>if\<close>, and \<open>try { } catch(e) {}\<close>.\<close>

definition reads :: "(app \<Rightarrow> 'a) \<Rightarrow> ('a \<Rightarrow> act) \<Rightarrow> act" where
  "reads f a s = a (f s) s"

definition ifs :: "(app \<Rightarrow> bool) \<Rightarrow> act \<Rightarrow> act \<Rightarrow> act" where
  "ifs c a b s = (if c s then a s else b s)"

definition whens :: "(app \<Rightarrow> bool) \<Rightarrow> act \<Rightarrow> act" where
  "whens c a s = (if c s then a s else (None, s))"

definition attempt :: "act \<Rightarrow> act" where
  "attempt a s = (None, snd (a s))"

text \<open>A result that may be an exception; the JSON parser's is an \<open>Error\<close>.\<close>

definition reads_res :: "(app \<Rightarrow> 'a res) \<Rightarrow> ('a \<Rightarrow> act) \<Rightarrow> act" where
  "reads_res f a s = (case f s of Inl e \<Rightarrow> (Some (Error e), s) | Inr x \<Rightarrow> a x s)"

named_theorems act_simps \<open>how actions run\<close>

lemmas [act_simps] = upd_def raise_def skip_def reads_def ifs_def whens_def attempt_def reads_res_def

lemma seqs_append [act_simps]:
  "seqs (as @ bs) s = (case seqs as s of (None, t) \<Rightarrow> seqs bs t | (Some e, t) \<Rightarrow> (Some e, t))"
  by (induction as arbitrary: s) (auto split: prod.splits option.splits)

lemma seqs_reads: "seqs [a, reads f g] s = seqs [a, g (f (snd (a s)))] s"
  by (simp add: reads_def split: prod.split option.split)

lemma seqs_nested: "seqs [a, seqs bs] s = seqs (a # bs) s"
  by (simp split: prod.split option.split)

subsection \<open>The page\<close>

text \<open>The elements that are there on one kind of device only (\<open>bodies/mobile.html\<close>, \<open>bodies/tablet.html\<close>).\<close>

definition present :: "env \<Rightarrow> string \<Rightarrow> bool" where
  "present E i \<longleftrightarrow> (if e_tablet E then i \<notin> {''btn_more'', ''btn_bxs_ready''} else i \<noteq> ''btn_speed'')"

definition show_el :: "env \<Rightarrow> string \<Rightarrow> act" where
  "show_el E i = upd (\<lambda>s. if present E i then s\<lparr>a_shown := (a_shown s)(i := True)\<rparr> else s)"

definition hide_el :: "env \<Rightarrow> string \<Rightarrow> act" where
  "hide_el E i = upd (\<lambda>s. if present E i then s\<lparr>a_shown := (a_shown s)(i := False)\<rparr> else s)"

text \<open>\<open>toggle\<close>; an animation is taken to be over before the next event.\<close>

definition toggle_el :: "env \<Rightarrow> string \<Rightarrow> act" where
  "toggle_el E i = upd (\<lambda>s. if present E i then s\<lparr>a_shown := (a_shown s)(i := \<not> a_shown s i)\<rparr> else s)"

definition set_html :: "string \<Rightarrow> string \<Rightarrow> act" where
  "set_html i t = upd (\<lambda>s. s\<lparr>a_html := (a_html s)(i := t)\<rparr>)"

definition disarm :: "string \<Rightarrow> act" where
  "disarm i = upd (\<lambda>s. s\<lparr>a_armed := (a_armed s)(i := False)\<rparr>)"

definition setTimeout :: "nat \<Rightarrow> timer \<Rightarrow> act" where
  "setTimeout ms t = upd (\<lambda>s. s\<lparr>a_timers := a_timers s @ [(ms, t)]\<rparr>)"

definition ajax :: "request \<Rightarrow> (string \<times> string) list \<Rightarrow> act" where
  "ajax r d = upd (\<lambda>s. s\<lparr>a_requests := a_requests s @ [(r, d)]\<rparr>)"

definition happens :: "effect \<Rightarrow> act" where
  "happens e = upd (\<lambda>s. s\<lparr>a_effects := a_effects s @ [e]\<rparr>)"

text \<open>The frame of every button handler: disarmed for 800 milliseconds.\<close>

definition debounced :: "string \<Rightarrow> act list \<Rightarrow> act" where
  "debounced i as = seqs (disarm i # as @ [setTimeout 800 (Rearm i)])"

definition initially_hidden :: "string list" where
  "initially_hidden = [''btn_back'', ''btn_debug'', ''btn_stop'', ''btn_speed'', ''btn_bxs_ready'', ''behaviours_popup'',
     ''results_popup'', ''edition_error_detail'', ''code_modal'', ''loader_modal'', ''projmaneger_modal'', ''delete_modal'',
     ''edition_error_modal'', ''speed_modal'']"

text \<open>
  The page before its first event: the initial values of the variables, an empty workspace, and
  what the browser brings (address, language chosen, storage, cookies) with the number of
  categories and the sensors the server reports missing.
\<close>

definition new_page :: "nat \<Rightarrow> string list \<Rightarrow> string \<Rightarrow> string \<times> string \<Rightarrow> storage \<Rightarrow> jar \<Rightarrow> app" where
  "new_page cats missing lang url st j = \<lparr>a_ws = [], a_uid = 0, a_selected = None, a_max = MaxInfinity,
     a_cats = replicate cats True, a_gen = \<lparr>g_vars = [], g_sensors = Some Map.empty\<rparr>, a_recovered = [], a_missing = missing,
     a_unavailable = [], a_behaviours = [], a_items = [], a_edited = [], a_active = None, a_editor = None, a_tabs = [],
     a_tab = None, a_testMode = False, a_butiaSel = False, a_debug = False, a_debugOffset = 0, a_debugLast = None,
     a_refresh = False, a_countBlocks = None,
     a_wsXml = domToText (Elem ''xml'' [(''xmlns'', xhtml)] []), a_fileCode = [], a_bxsCode = [], a_activesBxs = [],
     a_activesProj = [], a_joinProj = [], a_vel = ''undefined'', a_lang = lang, a_url = url, a_openToolbox = False,
     a_classes = [], a_store = st, a_jar = j, a_shown = (\<lambda>i. i \<notin> set initially_hidden), a_html = (\<lambda>_. []),
     a_disabled = (\<lambda>_. False), a_armed = (\<lambda>_. True), a_timers = [], a_requests = [], a_effects = []\<rparr>"

subsection \<open>The workspace\<close>

definition all_blocks :: "app \<Rightarrow> block list" where
  "all_blocks s = getAllBlocks (map fst (a_ws s))"

definition block_count :: "app \<Rightarrow> nat" where
  "block_count s = length (all_blocks s)"

text \<open>\<open>getAllBlocks()[0]\<close> is the first top block.\<close>

definition first_block :: "app \<Rightarrow> block option" where
  "first_block s = (case a_ws s of [] \<Rightarrow> None | (b, xy) # _ \<Rightarrow> if b = NoBlock then None else Some b)"

definition is_behaviour :: "block \<Rightarrow> bool" where
  "is_behaviour b \<longleftrightarrow> b \<noteq> NoBlock \<and> (b_type b = ''controls_behaviour'' \<or> b_type b = ''controls_conditionalBehaviour'')"

text \<open>
  \<open>getAllBlocks()[0].inputList[0].titleRow[0]\<close>: the first field of the first input, by name if it
  has one; reading it of a block without inputs or fields is a type error.
\<close>

definition first_field :: "loader \<Rightarrow> block \<Rightarrow> (string option \<times> string) option" where
  "first_field L b = (case l_proto L (b_type b) of Inl _ \<Rightarrow> None
     | Inr p \<Rightarrow> (case p_inputs p of [] \<Rightarrow> None | i # _ \<Rightarrow> (case pi_row i of [] \<Rightarrow> None | r # _ \<Rightarrow> Some r)))"

definition first_value :: "loader \<Rightarrow> block \<Rightarrow> string option" where
  "first_value L b = (case first_field L b of None \<Rightarrow> None
     | Some (None, t) \<Rightarrow> Some t | Some (Some n, t) \<Rightarrow> getTitleValue b n)"

definition set_first_value :: "loader \<Rightarrow> string \<Rightarrow> block \<Rightarrow> exn + block" where
  "set_first_value L v b = (case first_field L b of None \<Rightarrow> Inl type_error
     | Some (None, t) \<Rightarrow> Inr b
     | Some (Some n, t) \<Rightarrow> (case setTitleValue (l_fix L (b_type b) n v) n b of Inl e \<Rightarrow> Inl (Error e) | Inr b' \<Rightarrow> Inr b'))"

definition first_name :: "env \<Rightarrow> app \<Rightarrow> string option" where
  "first_name E s = Option.bind (first_block s) (first_value (loader_of E s))"

text \<open>Replacing the first block, the first of the top blocks.\<close>

definition rename_first :: "env \<Rightarrow> string \<Rightarrow> act" where
  "rename_first E v s = (case a_ws s of [] \<Rightarrow> (Some type_error, s)
     | (b, xy) # ws \<Rightarrow> (case set_first_value (loader_of E s) v b of
         Inl e \<Rightarrow> (Some e, s) | Inr b' \<Rightarrow> (None, s\<lparr>a_ws := (b', xy) # ws\<rparr>)))"

text \<open>Disposing of blocks; a disposed block is not selected any more.\<close>

definition put_ws :: "top list \<Rightarrow> app \<Rightarrow> app" where
  "put_ws ws s = s\<lparr>a_ws := ws,
     a_selected := (case a_selected s of None \<Rightarrow> None
       | Some i \<Rightarrow> if i \<in> set (map b_id (getAllBlocks (map fst ws))) then Some i else None)\<rparr>"

definition clear_ws :: act where
  "clear_ws = upd (put_ws [])"

definition new_variables :: act where
  "new_variables = upd (\<lambda>s. s\<lparr>a_gen := (a_gen s)\<lparr>g_vars := []\<rparr>\<rparr>)"

definition ws_text :: "env \<Rightarrow> app \<Rightarrow> string" where
  "ws_text E s = domToText (workspaceToDom (e_view E) (a_ws s))"

definition domToWs :: "env \<Rightarrow> xml \<Rightarrow> act" where
  "domToWs E x s = (case domToWorkspace (loader_of E s) (e_view E) x (a_ws s, a_uid s) of
     (e, ws, k) \<Rightarrow> (e, s\<lparr>a_ws := ws, a_uid := k\<rparr>))"

text \<open>\<open>Blockly.Xml.textToDom\<close> throws a plain string.\<close>

definition load_text :: "env \<Rightarrow> string \<Rightarrow> act" where
  "load_text E t s = (case textToDom t of Inl e \<Rightarrow> (Some (Thrown e), s) | Inr x \<Rightarrow> domToWs E x s)"

text \<open>A change to every block of the workspace.\<close>

fun map_block :: "(block \<Rightarrow> block) \<Rightarrow> block \<Rightarrow> block" and map_input :: "(block \<Rightarrow> block) \<Rightarrow> input \<Rightarrow> input" where
  "map_block f NoBlock = NoBlock"
| "map_block f (Block i ty ti mu ins nx fl cm) = f (Block i ty ti mu (map (map_input f) ins) (map_block f nx) fl cm)"
| "map_input f (Input n k t) = Input n k (map_block f t)"

definition set_flags :: "(flags \<Rightarrow> flags) \<Rightarrow> block \<Rightarrow> block" where
  "set_flags g b = (case b of NoBlock \<Rightarrow> NoBlock | Block i ty ti mu ins nx fl cm \<Rightarrow> Block i ty ti mu ins nx (g fl) cm)"

definition each_block :: "(block \<Rightarrow> block) \<Rightarrow> act" where
  "each_block f = upd (\<lambda>s. s\<lparr>a_ws := map (\<lambda>(b, xy). (map_block f b, xy)) (a_ws s)\<rparr>)"

subsection \<open>Generating code\<close>

text \<open>
  The generator of a recovered type returns the empty text: such a block contributes what a
  disabled one does, except where it has a comment to write.
\<close>

definition silence :: "env \<Rightarrow> app \<Rightarrow> block \<Rightarrow> block" where
  "silence E s b =
     (if map_of (a_recovered s) (b_type b) \<noteq> None \<and>
         (case comment_code b (a_gen s) of Inr (c, _) \<Rightarrow> c = [] | Inl _ \<Rightarrow> False)
      then set_flags (\<lambda>fl. fl\<lparr>disabled := True\<rparr>) b else b)"

definition genv_of :: "env \<Rightarrow> app \<Rightarrow> genv" where
  "genv_of E s = \<lparr>g_debug = a_debug s, g_vel = a_vel s, g_msg = msg E, g_num = e_num E, g_less = e_less E,
     g_output = has_out (loader_of E s), g_first = first_name E s, g_proto = e_inherited E\<rparr>"

text \<open>\<open>Blockly.Lua.workspaceToCode()\<close>; what it throws is taken as an \<open>Error\<close>.\<close>

definition with_code :: "env \<Rightarrow> (string \<Rightarrow> act) \<Rightarrow> act" where
  "with_code E k s =
     (case workspaceToCode (genv_of E s) (map (\<lambda>(b, xy). map_block (silence E s) b) (surface_order (e_view E) (a_ws s))) (a_gen s) of
        Inl e \<Rightarrow> (Some (Error e), s)
      | Inr (code, g) \<Rightarrow> k code (s\<lparr>a_gen := g\<rparr>))"

end
