(* ===== verification/Behaviours.thy ===== *)
theory Behaviours
  imports AppState
begin

text \<open>
  The behaviours of the project (\<open>js/common.js\<close>, \<open>js/yatay.js\<close>): a behaviour that is ready leaves
  the workspace for the list \<open>Yatay.Common.behaviours\<close> as XML text (\<open>bxReady\<close>) and comes back
  from it (\<open>bxToWorkspace\<close>); every change is saved under a name of its own (\<open>AutoSave\<close>,
  \<open>saveTask\<close>, \<open>saveInBrowser\<close>); and the dialogs that discard blocks.
\<close>

subsection \<open>Messages, and blocks outside behaviours\<close>

definition ShowMessage :: "env \<Rightarrow> string \<Rightarrow> act" where
  "ShowMessage E t = seqs [
     set_html ''result_console'' [],
     set_html ''result_sensor'' t,
     show_el E ''results_popup'',
     setTimeout 3000 ClearMessage]"

definition fire_ClearMessage :: "env \<Rightarrow> act" where
  "fire_ClearMessage E = seqs [set_html ''result_sensor'' [], hide_el E ''results_popup'']"

definition kept_tops :: "app \<Rightarrow> top list" where
  "kept_tops s = filter (\<lambda>t. is_behaviour (fst t)) (a_ws s)"

definition leaveOnlyBehavioursInWspace :: "env \<Rightarrow> act" where
  "leaveOnlyBehavioursInWspace E =
     whens (\<lambda>s. \<not> a_butiaSel s \<and> \<not> a_testMode s)
       (reads (\<lambda>s. length (kept_tops s) < length (a_ws s)) (\<lambda>warn. seqs [
          upd (\<lambda>s. put_ws (kept_tops s) s),
          whens (\<lambda>_. warn) (ShowMessage E (msg E ''DIALOG_NONBXS_BLOCKS_WARN''))]))"

definition workspaceHasBehaviour :: "app \<Rightarrow> bool" where
  "workspaceHasBehaviour s \<longleftrightarrow> list_ex is_behaviour (all_blocks s)"

definition justOneBehaviour :: "app \<Rightarrow> bool" where
  "justOneBehaviour s \<longleftrightarrow> (case a_ws s of [(b, xy)] \<Rightarrow> is_behaviour b | _ \<Rightarrow> False)"

subsection \<open>Ready behaviours\<close>

definition bx_popup :: "env \<Rightarrow> string" where
  "bx_popup E = (if e_tablet E then ''behaviours_popup'' else ''btn_bxs_ready'')"

definition shortname :: "string \<Rightarrow> string" where
  "shortname name = (if length name > 13 then take 12 name @ ''...'' else name)"

definition push_behaviour :: "behaviour \<Rightarrow> act" where
  "push_behaviour x = upd (\<lambda>s. s\<lparr>a_behaviours := a_behaviours s @ [x]\<rparr>)"

definition list_behaviour :: "env \<Rightarrow> block \<Rightarrow> act" where
  "list_behaviour E b = seqs [
     new_variables,
     reads (\<lambda>s. (ws_text E s, first_name E s, block_count s)) (\<lambda>(text, name, size).
       case name of None \<Rightarrow> raise type_error | Some n \<Rightarrow> seqs [
         push_behaviour \<lparr>bx_id = b_id b, bx_text = text, bx_name = n, bx_size = size\<rparr>,
         show_el E (bx_popup E),
         upd (\<lambda>s. s\<lparr>a_items := a_items s @ [(b_id b, shortname n)]\<rparr>),
         clear_ws,
         upd (\<lambda>s. s\<lparr>a_countBlocks := Some 0\<rparr>)])]"

definition bxReady :: "env \<Rightarrow> act" where
  "bxReady E = debounced ''btn_bx_ready'' [
     leaveOnlyBehavioursInWspace E,
     reads first_block (\<lambda>first. case first of None \<Rightarrow> skip | Some b \<Rightarrow>
       whens (\<lambda>_. is_behaviour b) (list_behaviour E b))]"

text \<open>
  Back in the workspace a block can be edited and moved, except in debug mode; the trigger keeps
  its place; and it is enabled unless its sensor is missing or not available.
\<close>

definition ready_block :: "app \<Rightarrow> block \<Rightarrow> block" where
  "ready_block s b = set_flags (\<lambda>fl.
     (if a_debug s then fl\<lparr>editable := False, movable := False\<rparr>
      else fl\<lparr>editable := True, movable := (if b_type b = ''controls_behaviourTrigger'' then movable fl else True)\<rparr>)
     \<lparr>disabled := b_type b \<in> set (a_missing s) \<or> b_type b \<in> set (a_unavailable s)\<rparr>) b"

definition bx_step :: "env \<Rightarrow> nat \<Rightarrow> nat \<Rightarrow> act" where
  "bx_step E ident i = reads a_behaviours (\<lambda>bxs.
     whens (\<lambda>_. i < length bxs \<and> bx_id (bxs ! i) = ident)
       (case textToDom (bx_text (bxs ! i)) of
          Inl e \<Rightarrow> raise (Thrown e)
        | Inr code \<Rightarrow> seqs [
            upd (\<lambda>s. s\<lparr>a_items := filter (\<lambda>(j, n). j \<noteq> ident) (a_items s)\<rparr>),
            upd (\<lambda>s. s\<lparr>a_behaviours := splice1 i (a_behaviours s)\<rparr>),
            whens (\<lambda>s. block_count s > 0) (bxReady E),
            domToWs E code,
            reads ready_block each_block]))"

definition bxToWorkspace :: "env \<Rightarrow> nat \<Rightarrow> act" where
  "bxToWorkspace E ident = seqs [
     reads (length \<circ> a_behaviours) (\<lambda>n. seqs (map (bx_step E ident) [0..<n])),
     whens (\<lambda>s. a_behaviours s = []) (hide_el E (bx_popup E)),
     upd (\<lambda>s. s\<lparr>a_countBlocks := Some (block_count s)\<rparr>),
     setTimeout 100 PlaceTop]"

text \<open>The timer: the first block moves near the upper left corner of the view and is selected.\<close>

definition fire_PlaceTop :: "env \<Rightarrow> act" where
  "fire_PlaceTop E = seqs [
     upd (\<lambda>s. s\<lparr>a_countBlocks := Some (block_count s)\<rparr>),
     (\<lambda>s. case a_ws s of [] \<Rightarrow> (Some type_error, s)
        | (b, x, y) # ws \<Rightarrow> (None, s\<lparr>a_ws := (b, fst (e_origin E) + 15, snd (e_origin E) + 15) # ws,
             a_selected := Some (b_id b)\<rparr>))]"

subsection \<open>Saving\<close>

text \<open>The names already saved on the server, \<open>localStorage.yatay_bxs_autosaved\<close>.\<close>

definition names_text :: "string list \<Rightarrow> string" where
  "names_text l = json_text (JArr (map JStr l))"

fun str_of :: "json \<Rightarrow> string option" where
  "str_of (JStr t) = Some t"
| "str_of _ = None"

definition autosaved_list :: "storage \<Rightarrow> string list res" where
  "autosaved_list st = (case yatay_bxs_autosaved st of
     None \<Rightarrow> Inr []
   | Some t \<Rightarrow> if t = [] then Inr []
       else (case json_parse t of
          Some (JArr vs) \<Rightarrow> (case all_some (map str_of vs) of None \<Rightarrow> Inl ''SyntaxError'' | Some l \<Rightarrow> Inr l)
        | _ \<Rightarrow> Inl ''SyntaxError''))"

text \<open>The number of blocks sent: a conditional behaviour with its trigger only counts as one.\<close>

definition total_blocks :: "app \<Rightarrow> nat" where
  "total_blocks s =
     (if block_count s = 2 \<and> (case a_ws s of (b, _) # _ \<Rightarrow> b_type b = ''controls_conditionalBehaviour'' | [] \<Rightarrow> False)
      then 1 else block_count s)"

definition cookie :: "app \<Rightarrow> string \<Rightarrow> string" where
  "cookie s n = js_str (getCookie n (a_jar s))"

definition saveTask :: "env \<Rightarrow> string \<Rightarrow> string \<Rightarrow> act" where
  "saveTask E block code = reads_res (autosaved_list \<circ> a_store) (\<lambda>saved_names.
     reads (\<lambda>s. (cookie s ''project_name'', total_blocks s)) (\<lambda>(project, count).
       (let vals = encode_code code; newborn = block \<notin> set saved_names in
        whens (\<lambda>_. project \<noteq> [] \<and> vals \<noteq> [])
          (ajax (SaveReq block newborn count saved_names)
             [(''id'', ''save''), (''newborn'', bool_str newborn), (''project'', project), (''block'', block),
              (''code'', vals), (''blockCount'', nat_str count)]))))"

text \<open>The answer is the name the server saved the behaviour under; it is written into the first block.\<close>

definition saveTask_reply :: "env \<Rightarrow> string \<Rightarrow> bool \<Rightarrow> nat \<Rightarrow> string list \<Rightarrow> string \<Rightarrow> act" where
  "saveTask_reply E block newborn count saved_names content =
     whens (\<lambda>_. content \<noteq> [] \<and> newborn) (seqs [
       whens (\<lambda>_. count > 1)
         (upd (\<lambda>s. s\<lparr>a_store := (a_store s)\<lparr>yatay_bxs_autosaved := Some (names_text (saved_names @ [content]))\<rparr>\<rparr>)),
       whens (\<lambda>_. block \<noteq> content) (rename_first E content)])"

text \<open>
  The loop of \<open>AutoSave\<close>: the name itself, then the name with 1, 2, \<open>\<dots>\<close> behind it, until it is
  not the name of a ready behaviour.
\<close>

definition numbered :: "string \<Rightarrow> nat \<Rightarrow> string" where
  "numbered originalname index = (if index = 0 then originalname else originalname @ nat_str index)"

lemma numbered_inject [simp]: "numbered n i = numbered n j \<longleftrightarrow> i = j"
  by (simp add: numbered_def)

lemma finite_taken: "finite {i. index \<le> i \<and> numbered n i \<in> set names}"
proof -
  have "inj_on (numbered n) {i. index \<le> i \<and> numbered n i \<in> set names}" by (simp add: inj_on_def)
  then show ?thesis by (rule finite_imageD [rotated]) (auto intro: finite_subset [of _ "set names"])
qed

function free_index :: "string list \<Rightarrow> string \<Rightarrow> nat \<Rightarrow> nat" where
  "free_index names originalname index =
     (if numbered originalname index \<in> set names then free_index names originalname (Suc index) else index)"
  by pat_completeness auto
termination
proof (relation "measure (\<lambda>(names, n, index). card {i. index \<le> i \<and> numbered n i \<in> set names})", goal_cases)
  case (2 names n index)
  let ?S = "\<lambda>index. {i. index \<le> i \<and> numbered n i \<in> set names}"
  have "index \<in> ?S index" "index \<notin> ?S (Suc index)" "?S (Suc index) \<subseteq> ?S index"
    using 2 by auto
  then have "?S (Suc index) \<subset> ?S index" by blast
  then show ?case by (simp add: finite_taken psubset_card_mono)
qed simp

declare free_index.simps [simp del]

definition bx_names :: "app \<Rightarrow> string list" where
  "bx_names s = map bx_name (a_behaviours s)"

definition free_name :: "app \<Rightarrow> string \<Rightarrow> string" where
  "free_name s name = numbered name (free_index (bx_names s) name 0)"

definition save_local :: "env \<Rightarrow> string \<Rightarrow> string \<Rightarrow> act" where
  "save_local E name code = reads_res (\<lambda>s. saveInBrowser (bx_names s) name code (a_store s))
     (\<lambda>st. upd (\<lambda>s. s\<lparr>a_store := st\<rparr>))"

definition AutoSave :: "env \<Rightarrow> act" where
  "AutoSave E = seqs [
     whens (\<lambda>s. block_count s \<ge> 1) (seqs [
       new_variables,
       reads (\<lambda>s. (ws_text E s, first_name E s)) (\<lambda>(code, first).
         case first of None \<Rightarrow> raise type_error | Some originalname \<Rightarrow>
         reads (\<lambda>s. free_name s originalname) (\<lambda>name. seqs [
           whens (\<lambda>_. name \<noteq> originalname) (rename_first E name),
           whens (\<lambda>s. a_countBlocks s \<noteq> Some (block_count s)) (seqs [
             upd (\<lambda>s. s\<lparr>a_countBlocks := Some (block_count s)\<rparr>),
             saveTask E name code]),
           save_local E name code]))]),
     upd (\<lambda>s. s\<lparr>a_countBlocks := Some (block_count s)\<rparr>)]"

text \<open>The listener on the workspace, \<open>change\<close> in \<open>Yatay.init\<close>.\<close>

definition change :: "env \<Rightarrow> act" where
  "change E = seqs [
     new_variables,
     reads (ws_text E) (\<lambda>xmlText. seqs [
       whens (\<lambda>s. a_wsXml s \<noteq> xmlText \<and> justOneBehaviour s) (seqs [
         upd (\<lambda>s. s\<lparr>a_wsXml := xmlText\<rparr>),
         AutoSave E]),
       upd (\<lambda>s. s\<lparr>a_wsXml := xmlText\<rparr>)])]"

subsection \<open>Discarding\<close>

definition clearWorkspace :: "env \<Rightarrow> act" where
  "clearWorkspace E = seqs [
     whens justOneBehaviour
       (reads (first_name E) (\<lambda>first. case first of None \<Rightarrow> raise type_error | Some name \<Rightarrow>
         reads_res (\<lambda>s. forget_behaviour (Some name) (a_store s)) (\<lambda>st. upd (\<lambda>s. s\<lparr>a_store := st\<rparr>)))),
     clear_ws]"

definition discard :: "env \<Rightarrow> string \<Rightarrow> act" where
  "discard E param = seqs [
     (if param = ''All'' then seqs [
        upd (\<lambda>s. s\<lparr>a_store := discard_storage (a_store s)\<rparr>),
        clear_ws,
        upd (\<lambda>s. s\<lparr>a_behaviours := []\<rparr>),
        upd (\<lambda>s. s\<lparr>a_items := []\<rparr>),
        hide_el E (bx_popup E)]
      else clearWorkspace E),
     hide_el E ''delete_modal'']"

subsection \<open>What the palette and the context menu allow\<close>

text \<open>\<open>getTopBlocks().length > remainingCapacity()\<close>; nothing is greater than NaN.\<close>

definition over_capacity :: "app \<Rightarrow> bool" where
  "over_capacity s = (case a_max s of
     MaxInfinity \<Rightarrow> False
   | MaxNumber n \<Rightarrow> int (length (a_ws s)) > int n - int (block_count s)
   | MaxText t \<Rightarrow> False)"

definition filterForCapacity :: "app \<Rightarrow> string \<Rightarrow> bool" where
  "filterForCapacity s ty =
     (let off = over_capacity s \<or> ty \<in> set (a_unavailable s) in
      if \<not> off \<and> (ty = ''controls_behaviour'' \<or> ty = ''controls_conditionalBehaviour'')
      then workspaceHasBehaviour s else off)"

definition duplicate_allowed :: "app \<Rightarrow> string \<Rightarrow> bool" where
  "duplicate_allowed s ty \<longleftrightarrow>
     \<not> (ty \<in> {''controls_behaviour'', ''controls_conditionalBehaviour'', ''controls_behaviourTrigger''} \<and> length (a_ws s) > 0)"

end
