(* ===== verification/Restore.thy ===== *)
theory Restore
  imports Behaviours
begin

text \<open>
  Bringing saved work back (\<open>js/common.js\<close>): the behaviours of the browser's storage when the page
  loads, a file the user opens, and behaviours chosen from the server; with \<open>tryToRecover\<close>, which
  defines a substitute for a type that is not there any more and tries again. The loop
  \<open>while (!success)\<close> has no bound; it is given fuel, and \<^const>\<open>None\<close> means that it is still
  running when the fuel is spent.
\<close>

subsection \<open>Substitutes for missing types\<close>

definition block_tag :: "string \<Rightarrow> string \<Rightarrow> string" where
  "block_tag ty extra = ''<block type='' @ [CHR 34] @ ty @ [CHR 34] @ extra @ ''>''"

definition inline_true :: string where
  "inline_true = '' inline='' @ [CHR 34] @ ''true'' @ [CHR 34]"

definition disabled_true :: string where
  "disabled_true = '' disabled='' @ [CHR 34] @ ''true'' @ [CHR 34]"

text \<open>How the missing block is connected, as far as its text tells.\<close>

definition inputs_inline :: "string \<Rightarrow> string \<Rightarrow> bool" where
  "inputs_inline ty code \<longleftrightarrow> length (js_split (block_tag ty []) (js_replaceAll disabled_true [] code)) = 1"

definition is_actuator :: "string \<Rightarrow> string \<Rightarrow> bool" where
  "is_actuator ty code \<longleftrightarrow>
     (let parts = js_split (block_tag ty (if inputs_inline ty code then inline_true else []))
                   (js_replaceAll disabled_true [] code)
      in length parts > 1 \<and> is_prefix ''<next>'' (parts ! 1))"

definition recovered_calls :: "string \<Rightarrow> bool \<Rightarrow> bool \<Rightarrow> bcall list" where
  "recovered_calls ty actuator inputsInline =
     [SetColour 120, AppendDummyInput, AppendTitle (FLabel (Lit ty)) None, SetInputsInline True] @
     (if actuator then [SetPreviousStatement True, SetNextStatement True] else [SetOutput (Some ''Number'')]) @
     (if inputsInline then
        [AppendValueInput ''1'', AppendDummyInput, AppendTitle (FLabel (Lit '','')) None,
         AppendValueInput ''2'', AppendDummyInput, AppendTitle (FLabel (Lit '','')) None,
         AppendValueInput ''3'', AppendDummyInput, AppendTitle (FLabel (Lit '','')) None,
         AppendValueInput ''4''] else []) @
     [SetTooltip (Tip (Lit []))]"

definition recovered_proto :: "env \<Rightarrow> string \<Rightarrow> string \<Rightarrow> proto" where
  "recovered_proto E ty code =
     (case run_init (e_msgs E) (recovered_calls ty (is_actuator ty code) (inputs_inline ty code)) empty_proto of
        None \<Rightarrow> empty_proto | Some p \<Rightarrow> p)"

definition tryToRecover :: "env \<Rightarrow> string \<Rightarrow> string \<Rightarrow> act" where
  "tryToRecover E blockInFault code = upd (\<lambda>s. s\<lparr>a_recovered := (blockInFault, recovered_proto E blockInFault code) # a_recovered s\<rparr>)"

subsection \<open>Loading until it works\<close>

text \<open>The part of the message between its first two quotation marks.\<close>

definition blockInFault :: "exn \<Rightarrow> string option" where
  "blockInFault e = (case exn_message e of None \<Rightarrow> None
     | Some m \<Rightarrow> (let parts = js_split [CHR 34] m in if length parts > 2 then Some (parts ! 1) else None))"

type_synonym fact = "app \<Rightarrow> (exn option \<times> app) option"

definition recover_from :: "env \<Rightarrow> string \<Rightarrow> string \<Rightarrow> act" where
  "recover_from E ty code = seqs [
     tryToRecover E ty code,
     upd (\<lambda>s. s\<lparr>a_unavailable := a_unavailable s @ [ty]\<rparr>)]"

fun load_retry :: "env \<Rightarrow> nat \<Rightarrow> string \<Rightarrow> fact" where
  "load_retry E 0 code s = None"
| "load_retry E (Suc n) code s =
     (case textToDom code of Inl e \<Rightarrow> Some (Some (Thrown e), s)
      | Inr x \<Rightarrow> (case domToWs E x s of
          (None, s1) \<Rightarrow> Some (None, s1)
        | (Some e, s1) \<Rightarrow>
            (let s2 = snd (clear_ws s1) in
             case blockInFault e of
               Some ty \<Rightarrow> load_retry E n code (snd (recover_from E ty code s2))
             | None \<Rightarrow> Some (ShowMessage E (msg E ''CANNOT_PARSE_BLOCKS'') s2))))"

subsection \<open>When the page loads\<close>

fun restore_list :: "env \<Rightarrow> nat \<Rightarrow> saved \<Rightarrow> fact" where
  "restore_list E n [] s = Some (None, s)"
| "restore_list E n ((name, code) # l) s =
     (case whens (\<lambda>s. block_count s > 0) (bxReady E) s of
        (Some e, s1) \<Rightarrow> Some (Some e, s1)
      | (None, s1) \<Rightarrow>
          if name \<in> set (bx_names s1) then restore_list E n l s1
          else (case load_retry E n code s1 of
              None \<Rightarrow> None
            | Some (Some e, s2) \<Rightarrow> Some (Some e, s2)
            | Some (None, s2) \<Rightarrow> restore_list E n l s2))"

definition set_speed :: "env \<Rightarrow> act" where
  "set_speed E = seqs [
     ifs (\<lambda>s. yatay_speed (a_store s) = None)
       (upd (\<lambda>s. s\<lparr>a_store := (a_store s)\<lparr>yatay_speed := Some ''100''\<rparr>, a_vel := ''100''\<rparr>))
       (upd (\<lambda>s. s\<lparr>a_vel := js_str (yatay_speed (a_store s))\<rparr>)),
     reads a_vel (\<lambda>v. seqs [set_html ''rngSpeed'' v, set_html ''lblSpeed'' v])]"

text \<open>Exceptions of the restoring part are swallowed.\<close>

definition window_load :: "env \<Rightarrow> nat \<Rightarrow> fact" where
  "window_load E n s =
     (case (case saved_list (a_store s) of Inl e \<Rightarrow> Some (Some (Error e), s)
            | Inr l \<Rightarrow> (case restore_list E n l s of
                Some (None, s1) \<Rightarrow> Some (bxReady E s1) | r \<Rightarrow> r)) of
        None \<Rightarrow> None
      | Some (_, s1) \<Rightarrow> Some (set_speed E s1))"

subsection \<open>Files and projects\<close>

definition xmlEndTag :: string where
  "xmlEndTag = ''</xml>''"

definition load_files :: "env \<Rightarrow> string list \<Rightarrow> act" where
  "load_files E parts = seqs (concat (map (\<lambda>p. [load_text E (p @ xmlEndTag), bxReady E]) parts))"

text \<open>A name that is not there reads as \<open>undefined\<close>, which does not parse.\<close>

fun load_chosen :: "env \<Rightarrow> nat \<Rightarrow> (string \<times> string) list \<Rightarrow> fact" where
  "load_chosen E n [] s = Some (None, s)"
| "load_chosen E n ((project, name) # l) s =
     (case whens (\<lambda>s. block_count s > 0) (bxReady E) s of
        (Some e, s1) \<Rightarrow> Some (Some e, s1)
      | (None, s1) \<Rightarrow> (case map_of (a_bxsCode s1) project of
          None \<Rightarrow> Some (Some type_error, s1)
        | Some codes \<Rightarrow> (case load_retry E n (text_or_undefined (map_of codes name)) s1 of
            None \<Rightarrow> None
          | Some (Some e, s2) \<Rightarrow> Some (Some e, s2)
          | Some (None, s2) \<Rightarrow> load_chosen E n l s2)))"

definition chosen :: "app \<Rightarrow> (string \<times> string) list" where
  "chosen s = concat (map (\<lambda>p. case map_of (a_activesBxs s) p of None \<Rightarrow> [] | Some l \<Rightarrow> map (\<lambda>n. (p, n)) l) (a_activesProj s))"

definition forget_choice :: act where
  "forget_choice = upd (\<lambda>s. s\<lparr>a_bxsCode := [], a_activesBxs := [], a_activesProj := []\<rparr>)"

definition fromXml :: "env \<Rightarrow> nat \<Rightarrow> fact" where
  "fromXml E n s0 =
     (case leaveOnlyBehavioursInWspace E s0 of
        (Some e, s) \<Rightarrow> Some (Some e, s)
      | (None, s) \<Rightarrow>
          if a_fileCode s \<noteq> [] then
            Some (seqs [
              whens (\<lambda>s. block_count s > 0) (bxReady E),
              load_files E (butlast (js_split xmlEndTag (a_fileCode s))),
              upd (\<lambda>s. s\<lparr>a_fileCode := []\<rparr>),
              hide_el E ''loader_modal''] s)
          else if a_activesProj s \<noteq> [] then
            (case load_chosen E n (chosen s) s of
               None \<Rightarrow> None
             | Some (Some e, s1) \<Rightarrow> Some (Some e, s1)
             | Some (None, s1) \<Rightarrow> Some (seqs [forget_choice, hide_el E ''loader_modal'', bxReady E] s1))
          else Some (happens (Shook ''loader_modal'') s))"

definition contains :: "string \<Rightarrow> string \<Rightarrow> bool" where
  "contains p s \<longleftrightarrow> js_indexOf p s \<noteq> None"

definition is_android_browser :: "string \<Rightarrow> bool" where
  "is_android_browser nua \<longleftrightarrow>
     (contains ''Mozilla/5.0'' nua \<and> (contains ''Mobile'' nua \<or> contains ''Android'' nua) \<and> contains ''AppleWebKit'' nua) \<and>
     \<not> contains ''Chrome'' nua"

definition android_warning :: string where
  "android_warning = ''Tu navegador Android solo permite descargar extensiones conocidas. Se descargar'' @ [char_of (225 :: nat)] @
     '' el archivo como .apk, puedes cambiarle la extension luego :)''"

definition saveTempLocal :: "string \<Rightarrow> bool \<Rightarrow> act" where
  "saveTempLocal xml edited = seqs [
     happens (Alerted android_warning),
     reads (\<lambda>s. cookie s ''project_name'' @ ''_'' @ cookie s ''idUser'' @ (if edited then ''_edited'' else [])) (\<lambda>fileName.
       ajax (SaveTempReq fileName) [(''id'', ''saveTempLocal''), (''code'', xml), (''project'', fileName)])]"

definition saveTempLocal_reply :: "string \<Rightarrow> act" where
  "saveTempLocal_reply fileName = reads (\<lambda>s. hd (js_split ''/yatay/'' (fst (a_url s) @ snd (a_url s)))) (\<lambda>root.
     happens (Downloaded (root @ ''/yatay/_downloads/'' @ fileName @ ''.apk'')))"

definition toXml :: "env \<Rightarrow> act" where
  "toXml E = debounced ''btn_save'' [
     whens (\<lambda>s. block_count s > 0 \<or> a_behaviours s \<noteq> []) (seqs [
       whens (\<lambda>s. block_count s > 0) (bxReady E),
       reads (\<lambda>s. concat (map bx_text (a_behaviours s))) (\<lambda>t.
         if is_android_browser (e_agent E) then saveTempLocal (encode_code t) False
         else happens (SavedFile (msg E ''FILE_BLOCKS'' @ ''.xml'') t))])]"

definition readFile :: "string option \<Rightarrow> act" where
  "readFile f = (case f of
     Some content \<Rightarrow> upd (\<lambda>s. s\<lparr>a_fileCode := content\<rparr>)
   | None \<Rightarrow> happens (Alerted ''Failed to load file''))"

definition openFileChooser :: "env \<Rightarrow> act" where
  "openFileChooser E = debounced ''btn_load'' [
     hide_el E ''btn_deleteDBBxs'',
     show_el E ''loader_modal'',
     show_el E ''btn_remote_loader'',
     show_el E ''loadMainWindow'',
     set_html ''remote_proj'' [],
     set_html ''projects'' []]"

end
