(* ===== verification/Run.thy ===== *)
theory Run
  imports Restore
begin

text \<open>
  Running (\<open>js/common.js\<close>, \<open>js/yatay.js\<close>, \<open>js/mobile.js\<close>): sending the code of the behaviours to the
  robot and stopping it, the debug mode, the editor of the generated code, the test mode for
  single blocks, and the way back. The buttons that are shown tell the modes apart: \<open>btn_back\<close> is
  shown while running, debugging or testing.
\<close>

subsection \<open>Requests\<close>

definition with_user :: "(string \<Rightarrow> act) \<Rightarrow> act" where
  "with_user k = reads (\<lambda>s. getCookie ''idUser'' (a_jar s)) (\<lambda>u. case u of
     None \<Rightarrow> happens Reloaded | Some idUser \<Rightarrow> k idUser)"

definition sendTasks :: "string \<Rightarrow> act" where
  "sendTasks code = with_user (\<lambda>idUser.
     ajax InitReq [(''id'', ''init''), (''code'', encode_code code), (''userId'', idUser)])"

definition testRobot :: "string \<Rightarrow> act" where
  "testRobot code = with_user (\<lambda>idUser.
     ajax TestReq [(''id'', ''test''), (''code'', encode_code code), (''userId'', idUser)])"

definition tasks_reply :: "env \<Rightarrow> act" where
  "tasks_reply E = show_el E ''results_popup''"

definition killTasks :: "env \<Rightarrow> act" where
  "killTasks E = seqs [
     disarm ''btn_stop'',
     with_user (\<lambda>idUser. seqs [
       upd (\<lambda>s. s\<lparr>a_debug := False\<rparr>),
       ajax KillReq [(''id'', ''kill''), (''code'', []), (''userId'', idUser)],
       setTimeout 800 (Rearm ''btn_stop'')])]"

definition killTasks_reply :: "env \<Rightarrow> act" where
  "killTasks_reply E = hide_el E ''results_popup''"

definition openDeleteModal :: "env \<Rightarrow> act" where
  "openDeleteModal E = debounced ''btn_trash'' [
     ifs a_testMode (seqs [clear_ws, killTasks E]) (show_el E ''delete_modal'')]"

subsection \<open>Running the behaviours\<close>

definition set_max :: "capacity \<Rightarrow> act" where
  "set_max c = upd (\<lambda>s. s\<lparr>a_max := c\<rparr>)"

definition nl :: string where
  "nl = [CHR 10]"

text \<open>The task around the code of a test.\<close>

definition test_task :: "string \<Rightarrow> string" where
  "test_task code =
     ''local M = {}'' @ nl @
     ''local robot = require '' @ [CHR 39] @ ''tasks/RobotInterface'' @ [CHR 39] @ nl @
     ''local sched = require '' @ [CHR 39] @ ''sched'' @ [CHR 39] @ nl @
     ''local run = function ()'' @ nl @
       code @
     ''end'' @ nl @
     ''M.init = function(conf)'' @ nl @
     ''         M.task = sched.sigrun({'' @ [CHR 39] @ ''TestsMayNowRun'' @ [CHR 39] @ ''}, run)'' @ nl @
     ''end'' @ nl @
     ''return M'' @ nl"

definition call_pollResults :: act where
  "call_pollResults = setTimeout 100 PollResults"

definition call_debugPoll :: act where
  "call_debugPoll = setTimeout 500 DebugPoll"

text \<open>
  The codes are generated one after the other, each in the otherwise empty workspace, and only
  then sent. An element that is not in the array of edited texts reads as \<open>undefined\<close>.
\<close>

definition js_nth :: "string list \<Rightarrow> nat \<Rightarrow> string" where
  "js_nth l i = (if i < length l then l ! i else ''undefined'')"

fun collect_codes :: "env \<Rightarrow> nat \<Rightarrow> behaviour list \<Rightarrow> string list \<Rightarrow> (string list \<Rightarrow> act) \<Rightarrow> act" where
  "collect_codes E i [] codes k = k codes"
| "collect_codes E i (x # xs) codes k =
     reads a_active (\<lambda>active.
       if active \<noteq> None then
         reads (\<lambda>s. js_nth (a_edited s) i) (\<lambda>code. seqs [clear_ws, collect_codes E (Suc i) xs (codes @ [code]) k])
       else seqs [
         new_variables,
         load_text E (bx_text x),
         with_code E (\<lambda>code. seqs [clear_ws, collect_codes E (Suc i) xs (codes @ [code]) k])])"

definition runTasks :: "env \<Rightarrow> act" where
  "runTasks E = debounced ''btn_run'' [
     leaveOnlyBehavioursInWspace E,
     ifs (\<lambda>s. \<not> a_shown s ''btn_back'')
       (seqs ([
         whens (\<lambda>s. a_active s = None) (toggle_el E ''btn_debug''),
         toggle_el E ''btn_stop'',
         toggle_el E ''btn_back''] @
        (if e_tablet E then map (toggle_el E) [''btn_robotest'', ''btn_load'', ''btn_save'', ''btn_trash'',
            ''btn_edit'', ''btn_bx_ready'', ''btn_lang'']
         else [toggle_el E ''btn_more''])))
       (ifs a_testMode
         (whens (\<lambda>s. block_count s > 0)
           (with_code E (\<lambda>code. seqs [testRobot (test_task code), call_pollResults])))
         (seqs [
           set_max (MaxNumber 0),
           whens (\<lambda>s. block_count s > 0) (bxReady E),
           reads a_behaviours (\<lambda>bxs. collect_codes E 0 bxs [] (\<lambda>codes. seqs (map sendTasks codes))),
           call_pollResults]))]"

fun collect_debug :: "env \<Rightarrow> behaviour list \<Rightarrow> string list \<Rightarrow> (string list \<Rightarrow> act) \<Rightarrow> act" where
  "collect_debug E [] codes k = k codes"
| "collect_debug E (x # xs) codes k = seqs [
     load_text E (bx_text x),
     with_code E (\<lambda>code. seqs [
       upd (\<lambda>s. s\<lparr>a_debugOffset := a_debugOffset s + block_count s\<rparr>),
       clear_ws,
       collect_debug E xs (codes @ [code]) k])]"

definition debug :: "env \<Rightarrow> act" where
  "debug E = debounced ''btn_debug'' [
     leaveOnlyBehavioursInWspace E,
     upd (\<lambda>s. s\<lparr>a_debugOffset := 0, a_debug := True\<rparr>),
     set_max (MaxNumber 0),
     whens (\<lambda>s. block_count s > 0) (bxReady E),
     new_variables,
     reads a_behaviours (\<lambda>bxs. collect_debug E bxs [] (\<lambda>codes. seqs (map sendTasks codes))),
     call_debugPoll]"

subsection \<open>Editing the code\<close>

text \<open>An assignment behind the end of an array leaves \<open>undefined\<close> elements in between.\<close>

definition js_put :: "nat \<Rightarrow> string \<Rightarrow> string list \<Rightarrow> string list" where
  "js_put i v l = (if i < length l then l[i := v] else l @ replicate (i - length l) ''undefined'' @ [v])"

definition setCode :: "string \<Rightarrow> act" where
  "setCode t = ifs (\<lambda>s. a_editor s = None) (raise type_error) (upd (\<lambda>s. s\<lparr>a_editor := Some t\<rparr>))"

definition switchTabs :: "nat \<Rightarrow> act" where
  "switchTabs behaviourId = seqs [
     reads a_active (\<lambda>active. case active of None \<Rightarrow> skip | Some a \<Rightarrow> seqs [
       upd (\<lambda>s. s\<lparr>a_tab := (if a_tab s = Some a then None else a_tab s)\<rparr>),
       reads a_editor (\<lambda>ed. case ed of None \<Rightarrow> raise type_error
         | Some t \<Rightarrow> upd (\<lambda>s. s\<lparr>a_edited := js_put a t (a_edited s)\<rparr>))]),
     reads (\<lambda>s. js_nth (a_edited s) behaviourId) setCode,
     upd (\<lambda>s. s\<lparr>a_tab := Some behaviourId, a_active := Some behaviourId\<rparr>)]"

definition closeEditor :: act where
  "closeEditor = seqs [upd (\<lambda>s. s\<lparr>a_active := None\<rparr>), setTimeout 900 ResizeWindow]"

fun edit_each :: "env \<Rightarrow> behaviour list \<Rightarrow> act" where
  "edit_each E [] = skip"
| "edit_each E (x # xs) = seqs [
     load_text E (bx_text x),
     with_code E (\<lambda>code. upd (\<lambda>s. s\<lparr>a_edited := a_edited s @ [code]\<rparr>)),
     clear_ws,
     upd (\<lambda>s. s\<lparr>a_tabs := a_tabs s @ [bx_name x]\<rparr>),
     edit_each E xs]"

definition edit :: "env \<Rightarrow> act" where
  "edit E = debounced ''btn_edit'' [
     upd (\<lambda>s. s\<lparr>a_edited := [], a_active := None\<rparr>),
     whens (\<lambda>s. block_count s > 0) (bxReady E),
     whens (\<lambda>s. a_behaviours s \<noteq> []) (seqs [
       new_variables,
       upd (\<lambda>s. s\<lparr>a_tabs := []\<rparr>),
       reads a_behaviours (edit_each E),
       upd (\<lambda>s. s\<lparr>a_tab := Some 0, a_active := Some 0\<rparr>),
       show_el E ''code_modal'',
       upd (\<lambda>s. s\<lparr>a_editor := Some (js_nth (a_edited s) 0)\<rparr>)])]"

definition runEditedTasks :: "env \<Rightarrow> act" where
  "runEditedTasks E = seqs [
     reads a_active (\<lambda>active. case active of None \<Rightarrow> setCode ''undefined'' | Some a \<Rightarrow> switchTabs a),
     whens (\<lambda>s. a_active s \<noteq> None) (hide_el E ''code_modal''),
     setTimeout 900 ResizeWindow,
     runTasks E]"

definition edited_text :: "app \<Rightarrow> string option" where
  "edited_text s =
     (if length (a_edited s) \<le> length (a_behaviours s) then
        Some (concat (map (\<lambda>(name, code). ''-- Block: '' @ name @ nl @ code @ nl) (zip (bx_names s) (a_edited s))))
      else None)"

definition saveEditedCode :: "env \<Rightarrow> act" where
  "saveEditedCode E = reads edited_text (\<lambda>r. case r of None \<Rightarrow> raise type_error
     | Some t \<Rightarrow> whens (\<lambda>_. t \<noteq> [])
         (if is_android_browser (e_agent E) then saveTempLocal (encode_code t) True
          else happens (SavedFile (msg E ''FILE_CODE'' @ ''.lua'') t)))"

subsection \<open>Test mode\<close>

text \<open>Disposing of the categories of the toolbox by index.\<close>

definition dispose_cats :: "nat list \<Rightarrow> act" where
  "dispose_cats is = ifs (\<lambda>s. list_all (\<lambda>i. i < length (a_cats s)) is)
     (upd (\<lambda>s. s\<lparr>a_cats := fold (\<lambda>i cs. cs[i := False]) is (a_cats s)\<rparr>)) (raise type_error)"

definition enterTestMode :: "bool \<Rightarrow> act" where
  "enterTestMode needsClean = seqs [
     whens (\<lambda>_. needsClean) clear_ws,
     dispose_cats [0, 1, 3, 4, 5],
     set_max (MaxNumber 1)]"

definition leaveTestMode :: act where
  "leaveTestMode = seqs [
     dispose_cats [2],
     upd (\<lambda>s. s\<lparr>a_cats := take (length (a_cats s) - 6) (a_cats s) @ replicate 6 True\<rparr>),
     set_max (MaxText ''Infinite''),
     clear_ws]"

definition removeClass :: "string \<Rightarrow> act" where
  "removeClass c = upd (\<lambda>s. s\<lparr>a_classes := filter (\<lambda>d. d \<noteq> c) (a_classes s)\<rparr>)"

definition addClass :: "string \<Rightarrow> act" where
  "addClass c = upd (\<lambda>s. s\<lparr>a_classes := (if c \<in> set (a_classes s) then a_classes s else a_classes s @ [c])\<rparr>)"

definition slideToolbox :: "bool \<Rightarrow> bool \<Rightarrow> act" where
  "slideToolbox slide_in resize = seqs [
     (if slide_in then
        whens (\<lambda>s. \<not> a_openToolbox s) (seqs [
          whens a_testMode (removeClass ''content-test''),
          reads a_lang (\<lambda>l. removeClass (''content-'' @ l)),
          upd (\<lambda>s. s\<lparr>a_openToolbox := True\<rparr>)])
      else seqs [
        ifs a_testMode (addClass ''content-test'')
          (seqs [removeClass ''content-test'', reads a_lang (\<lambda>l. addClass (''content-'' @ l))]),
        upd (\<lambda>s. s\<lparr>a_openToolbox := False\<rparr>)]),
     whens (\<lambda>_. resize) (seqs [happens ResizedWindow, happens ResizedWindow])]"

definition slideToolbox_result :: "bool \<Rightarrow> app \<Rightarrow> bool" where
  "slideToolbox_result slide_in s \<longleftrightarrow> \<not> (slide_in \<and> \<not> a_openToolbox s)"

definition selected_block :: "app \<Rightarrow> block option" where
  "selected_block s = (case a_selected s of None \<Rightarrow> None
     | Some i \<Rightarrow> find (\<lambda>b. b_id b = i) (all_blocks s))"

definition position_in :: "env \<Rightarrow> app \<Rightarrow> nat \<Rightarrow> int \<times> int" where
  "position_in E s i = (case find (\<lambda>t. b_id (fst t) = i) (a_ws s) of Some (b, xy) \<Rightarrow> xy | None \<Rightarrow> e_nested E i)"

definition test_selected :: "env \<Rightarrow> block \<Rightarrow> act" where
  "test_selected E b = reads (\<lambda>s. Elem ''xml'' [(''xmlns'', xhtml)]
       [top_dom (e_view E) (b, position_in E s (b_id b))]) (\<lambda>xml. seqs [
     upd (\<lambda>s. s\<lparr>a_butiaSel := True\<rparr>),
     upd (\<lambda>s. put_ws (kept_tops s) s),
     attempt (bxReady E),
     clear_ws,
     domToWs E xml,
     setTimeout 100 PlaceTop])"

definition robotest :: "env \<Rightarrow> act" where
  "robotest E = seqs [
     disarm ''btn_robotest'',
     reads (\<lambda>s. case selected_block s of None \<Rightarrow> None | Some b \<Rightarrow> if b_type b \<in> set (e_butia E) then Some b else None)
       (\<lambda>butia. seqs ([
         (case butia of Some b \<Rightarrow> test_selected E b | None \<Rightarrow> attempt (bxReady E)),
         whens (\<lambda>_. e_tablet E) (hide_el E ''behaviours_popup''),
         enterTestMode (butia = None),
         upd (\<lambda>s. s\<lparr>a_testMode := True\<rparr>)] @
        (if e_tablet E then map (toggle_el E) [''btn_robotest'', ''btn_load'', ''btn_save'', ''btn_bx_ready'',
            ''btn_edit'', ''btn_speed'', ''btn_lang'']
         else [toggle_el E ''btn_more'',
               whens (\<lambda>s. a_shown s ''btn_bxs_ready'') (toggle_el E ''btn_bxs_ready''),
               slideToolbox False True]) @
        [toggle_el E ''btn_back'',
         whens (\<lambda>_. butia \<noteq> None) (setTimeout 100 ClickRun),
         setTimeout 800 (Rearm ''btn_robotest'')]))]"

subsection \<open>Going back\<close>

definition goBack :: "env \<Rightarrow> act" where
  "goBack E = debounced ''btn_back'' ([
     upd (\<lambda>s. s\<lparr>a_butiaSel := False\<rparr>),
     set_max (MaxText ''Infinity''),
     whens (\<lambda>s. a_active s \<noteq> None) (show_el E ''code_modal''),
     ifs a_testMode
       (seqs [
         toggle_el E ''btn_speed'',
         whens (\<lambda>s. a_behaviours s \<noteq> []) (show_el E (bx_popup E)),
         upd (\<lambda>s. s\<lparr>a_testMode := False\<rparr>),
         killTasks E,
         attempt leaveTestMode,
         whens (\<lambda>_. \<not> e_tablet E) (slideToolbox False True)])
       (seqs [
         upd (\<lambda>s. s\<lparr>a_debugOffset := 0\<rparr>),
         killTasks E,
         whens (\<lambda>s. a_active s = None) (toggle_el E ''btn_debug'')])] @
    (if e_tablet E then map (toggle_el E) [''btn_robotest'', ''btn_edit'', ''btn_load'', ''btn_save'', ''btn_bx_ready'', ''btn_lang'']
     else [toggle_el E ''btn_more'']) @
    [whens (\<lambda>s. \<not> a_shown s ''btn_trash'') (toggle_el E ''btn_trash''),
     whens (\<lambda>s. a_shown s ''btn_stop'') (toggle_el E ''btn_stop''),
     toggle_el E ''btn_back'',
     upd (\<lambda>s. s\<lparr>a_debug := False\<rparr>),
     each_block (\<lambda>b. set_flags (\<lambda>fl. fl\<lparr>editable := True,
       movable := (if b_type b = ''controls_behaviourTrigger'' then movable fl else True)\<rparr>) b)])"

definition closeEditionError :: "env \<Rightarrow> act" where
  "closeEditionError E = seqs [
     hide_el E ''edition_error_detail'',
     show_el E ''btn_error_detail'',
     hide_el E ''edition_error_modal'',
     goBack E]"

end
