(* ===== verification/Remote.thy ===== *)
theory Remote
  imports Run
begin

text \<open>
  The conversation with the server (\<open>js/common.js\<close>): the three polls, which call themselves again
  when they are complete, the list of stored behaviours and projects, the choice the user makes in
  it, the project and user cookies, the speed, and the texts of the dialogs and of the tour.
\<close>

subsection \<open>The results of a run\<close>

definition strong :: "string \<Rightarrow> string" where
  "strong t = ''<strong>'' @ t @ ''</strong>''"

definition clear_results :: act where
  "clear_results = seqs [set_html ''result_sensor'' [], set_html ''result_console'' []]"

definition fire_PollResults :: "env \<Rightarrow> act" where
  "fire_PollResults E = with_user (\<lambda>idUser.
     ifs (\<lambda>s. a_shown s ''btn_back'')
       (ajax PollReq [(''id'', ''poll''), (''name'', []), (''code'', []), (''userId'', idUser)])
       clear_results)"

definition part :: "string list \<Rightarrow> nat \<Rightarrow> string option" where
  "part l i = (if i < length l then Some (l ! i) else None)"

text \<open>The first word and what follows it.\<close>

definition sensor_text :: "string \<Rightarrow> string" where
  "sensor_text sensorHtml = (let sensor = hd (js_split [CHR 32] sensorHtml) in sensor @ js_replace1 sensor [] sensorHtml)"

definition msg_console :: "env \<Rightarrow> string" where
  "msg_console E = (if e_tablet E then '' - '' @ msg E ''POPUP_RESULTS_CONSOLE'' else msg E ''POPUP_RESULTS_CONSOLE'')"

definition separator :: string where
  "separator = ''#;#''"

text \<open>A successful poll; \<open>complete\<close> starts the next one.\<close>

definition pollResults_reply :: "env \<Rightarrow> string \<Rightarrow> act" where
  "pollResults_reply E html = seqs [
     (if html = [] then clear_results
      else if contains ''ERROR:'' html then
        whens (\<lambda>s. a_active s \<noteq> None) (seqs [
          show_el E ''edition_error_modal'',
          set_html ''edition_error_detail'' (js_replace1 ''ERROR:'' [] (js_replace1 separator [] html))])
      else
        (let parts = js_split separator html; sensorHtml = hd parts in seqs [
          ifs a_testMode (set_html ''result_console'' [])
            (set_html ''result_console'' (strong (msg_console E) @ text_or_undefined (part parts 1))),
          set_html ''result_sensor'' (strong (msg E ''POPUP_RESULTS_ROBOTINFO'') @ sensor_text sensorHtml)])),
     call_pollResults]"

definition pollResults_error :: act where
  "pollResults_error = call_pollResults"

subsection \<open>Following the execution\<close>

text \<open>\<open>getBlockById\<close> of a number, which may not be one.\<close>

definition getBlockById :: "app \<Rightarrow> int option \<Rightarrow> block option" where
  "getBlockById s i = (case i of None \<Rightarrow> None | Some n \<Rightarrow> find (\<lambda>b. int (b_id b) = n) (all_blocks s))"

definition fire_DebugPoll :: "env \<Rightarrow> act" where
  "fire_DebugPoll E = with_user (\<lambda>idUser.
     ifs (\<lambda>s. a_shown s ''btn_back'' \<and> a_debug s)
       (ajax PollDebugReq [(''id'', ''pollDebug''), (''name'', []), (''code'', []), (''userId'', idUser)])
       (whens (\<lambda>s. getBlockById s (a_debugLast s) \<noteq> None) (upd (\<lambda>s. s\<lparr>a_selected := None\<rparr>))))"

definition number_part :: "string list \<Rightarrow> nat \<Rightarrow> int option" where
  "number_part l i = Option.bind (part l i) js_parseInt"

text \<open>
  The place: behaviour name, number of its first block, number of the block, as the generated code
  had them. A click on the behaviour brings it into the workspace, where it has new numbers; the
  difference of the first blocks is the offset.
\<close>

definition show_place :: "env \<Rightarrow> string \<Rightarrow> act" where
  "show_place E place = (let fields = js_split '':'' place in seqs [
     reads (\<lambda>s. find (\<lambda>x. bx_name x = hd fields) (a_behaviours s)) (\<lambda>r. case r of
       None \<Rightarrow> skip | Some x \<Rightarrow> bxToWorkspace E (bx_id x)),
     reads a_ws (\<lambda>ws. case ws of [] \<Rightarrow> raise type_error | (b, xy) # _ \<Rightarrow>
       (let blockId = (case (number_part fields 1, number_part fields 2) of
            (Some first, Some n) \<Rightarrow> Some (n + (int (b_id b) - first)) | _ \<Rightarrow> None) in seqs [
         upd (\<lambda>s. s\<lparr>a_debugLast := blockId\<rparr>),
         setTimeout 300 (SelectBlock (case blockId of None \<Rightarrow> -1 | Some n \<Rightarrow> n))]))])"

definition debugPoll_reply :: "env \<Rightarrow> string \<Rightarrow> act" where
  "debugPoll_reply E html = seqs [
     whens (\<lambda>_. html \<noteq> []) (let parts = js_split separator html in
       case part parts 1 of None \<Rightarrow> raise type_error
       | Some sensorHtml \<Rightarrow> seqs [
           whens (\<lambda>s. \<not> a_testMode s)
             (set_html ''result_console'' (strong (msg_console E) @ text_or_undefined (part parts 2))),
           set_html ''result_sensor'' (strong (msg E ''POPUP_RESULTS_ROBOTINFO'') @ sensor_text sensorHtml),
           show_place E (hd parts)]),
     call_debugPoll]"

definition fire_SelectBlock :: "int \<Rightarrow> act" where
  "fire_SelectBlock n = reads (\<lambda>s. getBlockById s (Some n)) (\<lambda>r. case r of
     None \<Rightarrow> raise type_error | Some b \<Rightarrow> upd (\<lambda>s. s\<lparr>a_selected := Some (b_id b)\<rparr>))"

subsection \<open>Refreshing the robot's blocks\<close>

definition call_refreshBlocksPoll :: act where
  "call_refreshBlocksPoll = setTimeout 5000 RefreshBlocks"

definition fire_RefreshBlocks :: act where
  "fire_RefreshBlocks = ajax RefreshReq [(''id'', ''refreshBlocks'')]"

definition refreshBlocks_reply :: "env \<Rightarrow> string \<Rightarrow> act" where
  "refreshBlocks_reply E content = seqs [
     upd (\<lambda>s. s\<lparr>a_refresh := (a_refresh s \<or> content = ''yes'')\<rparr>),
     whens a_refresh (seqs [
       whens (\<lambda>s. a_shown s ''btn_back'') (seqs [
         ShowMessage E (msg E ''DIALOG_BUTIA_CHANGED''),
         goBack E]),
       upd (\<lambda>s. s\<lparr>a_refresh := False\<rparr>),
       happens Reloaded]),
     call_refreshBlocksPoll]"

subsection \<open>Stored behaviours\<close>

definition disable_el :: "string \<Rightarrow> bool \<Rightarrow> act" where
  "disable_el i b = upd (\<lambda>s. s\<lparr>a_disabled := (a_disabled s)(i := b)\<rparr>)"

definition loadBxs :: "env \<Rightarrow> bool \<Rightarrow> act" where
  "loadBxs E closeIfNoData = seqs [
     set_html ''remote_proj'' [],
     disable_el ''btn_remote_loader'' True,
     set_html ''btn_remote_loader'' (msg E ''DIALOG_LOADING''),
     ajax (LoadBxsReq closeIfNoData) [(''id'', ''loadBxs'')]]"

text \<open>An assignment to a field of an object.\<close>

fun put_key :: "'k \<Rightarrow> 'v \<Rightarrow> ('k \<times> 'v) list \<Rightarrow> ('k \<times> 'v) list" where
  "put_key k v [] = [(k, v)]"
| "put_key k v ((k', v') # l) = (if k' = k then (k, v) # l else (k', v') # put_key k v l)"

definition put_code :: "string \<Rightarrow> string \<times> string \<Rightarrow> (string \<times> (string \<times> string) list) list \<Rightarrow> (string \<times> (string \<times> string) list) list" where
  "put_code project bx m = put_key project
     (put_key (fst bx) (snd bx) (case map_of m project of None \<Rightarrow> [] | Some l \<Rightarrow> l)) m"

text \<open>A project of the answer: its name and its behaviours, each a name and its code.\<close>

type_synonym project = "string \<times> (string \<times> string) list"

definition quoted :: "string \<Rightarrow> string" where
  "quoted t = [CHR 39] @ t @ [CHR 39]"

definition project_row :: "project \<Rightarrow> string" where
  "project_row e = (case e of (p, bxs) \<Rightarrow> if p = [] then [] else
     ''<tr><td>'' @ p @ ''</td><td>'' @ ''<select id='' @ quoted p @ '' multiple='' @ quoted ''multiple'' @ ''>'' @
     concat (map (\<lambda>(b, c). ''<option value='' @ quoted b @ ''>'' @ b @ ''</option>'') bxs) @ ''</select></td></tr>'')"

definition multiselector :: "env \<Rightarrow> project list \<Rightarrow> string" where
  "multiselector E data = ''<tr>'' @ ''<th>'' @ msg E ''DIALOG_PROJECT'' @ ''</th>'' @
     ''<th>'' @ msg E ''DIALOG_BEHAVIOURS'' @ ''</th>'' @ ''</tr>'' @ concat (map project_row data)"

definition remember_codes :: "project list \<Rightarrow> (string \<times> (string \<times> string) list) list \<Rightarrow> (string \<times> (string \<times> string) list) list" where
  "remember_codes data m = fold (\<lambda>(p, bxs) m. if p = [] then m else fold (put_code p) bxs m) data m"

definition loadBxs_reply :: "env \<Rightarrow> bool \<Rightarrow> project list \<Rightarrow> act" where
  "loadBxs_reply E closeIfNoData data = seqs [
     disable_el ''btn_remote_loader'' False,
     set_html ''btn_remote_loader'' (msg E ''DIALOG_REMOTE_LOADER''),
     hide_el E ''btn_remote_loader'',
     (if data \<noteq> [] then seqs [
        show_el E ''btn_deleteDBBxs'',
        hide_el E ''loadMainWindow'',
        upd (\<lambda>s. s\<lparr>a_bxsCode := remember_codes data (a_bxsCode s)\<rparr>),
        happens (Appended ''remote_proj'' (multiselector E data))]
      else if closeIfNoData then hide_el E ''loader_modal''
      else seqs [
        disable_el ''btn_remote_loader'' False,
        set_html ''btn_remote_loader'' (msg E ''DIALOG_REMOTE_LOADER''),
        hide_el E ''btn_remote_loader'',
        set_html ''projects'' [],
        happens (Appended ''btn_remote_loader'' (''<p id='' @ quoted ''projects'' @ '' style='' @ quoted ''display:inline'' @ ''>'' @
          msg E ''DIALOG_NO_BEHAVIOURS'' @ ''</p>''))])]"

text \<open>The choice: \<open>val()\<close> of the list of a project is \<open>null\<close> when nothing is selected.\<close>

definition add_once :: "'a \<Rightarrow> 'a list \<Rightarrow> 'a list" where
  "add_once x l = (if x \<in> set l then l else l @ [x])"

definition choose_item :: "string \<Rightarrow> string \<Rightarrow> app \<Rightarrow> app" where
  "choose_item project v s = (if v = ''multiselect-select-all'' then s
     else s\<lparr>a_activesProj := add_once project (a_activesProj s),
            a_activesBxs := put_key project (add_once v (case map_of (a_activesBxs s) project of None \<Rightarrow> [] | Some l \<Rightarrow> l)) (a_activesBxs s)\<rparr>)"

definition BxsChangeSelection :: "string \<Rightarrow> string list option \<Rightarrow> act" where
  "BxsChangeSelection project selected = seqs [
     upd (\<lambda>s. s\<lparr>a_activesBxs := put_key project [] (a_activesBxs s)\<rparr>),
     (case selected of
        None \<Rightarrow> upd (\<lambda>s. s\<lparr>a_activesProj := butlast (a_activesProj s)\<rparr>)
      | Some vs \<Rightarrow> upd (fold (choose_item project) vs))]"

definition ProjChangeSelection :: "string \<Rightarrow> act" where
  "ProjChangeSelection v = upd (\<lambda>s. s\<lparr>a_joinProj := v\<rparr>)"

definition deleteDatabaseBxs :: "bool \<Rightarrow> act" where
  "deleteDatabaseBxs confirmed = whens (\<lambda>s. a_activesProj s \<noteq> [] \<and> confirmed)
     (reads chosen (\<lambda>toDeleteList. ajax DeleteBxsReq [(''id'', ''deleteBxs''), (''block'', pairs_text toDeleteList)]))"

definition deleteDatabaseBxs_reply :: "env \<Rightarrow> act" where
  "deleteDatabaseBxs_reply E = loadBxs E True"

subsection \<open>Projects and users\<close>

definition store_cookie :: "env \<Rightarrow> string \<Rightarrow> string \<Rightarrow> act" where
  "store_cookie E n v = upd (\<lambda>s. s\<lparr>a_jar := setCookie (e_gmt E) (e_now E) n v 1 (a_jar s)\<rparr>)"

definition projectSaver :: "env \<Rightarrow> act" where
  "projectSaver E = reads (\<lambda>s. if a_joinProj s = [] then a_html s ''proj_input'' else a_joinProj s) (\<lambda>proj_name.
     if js_trim proj_name \<noteq> [] then seqs [
       store_cookie E ''project_name'' (js_replaceAll [CHR 32] ''_'' proj_name),
       hide_el E ''projmaneger_modal'',
       happens ResizedWindow,
       happens ResizedWindow,
       happens PlayedTour]
     else happens (Shook ''projmaneger_modal''))"

definition projectChecker :: "env \<Rightarrow> act" where
  "projectChecker E = whens (\<lambda>s. getCookie ''project_name'' (a_jar s) = Some []) (show_el E ''projmaneger_modal'')"

definition loadProj :: "env \<Rightarrow> act" where
  "loadProj E = seqs [
     disable_el ''btn_remote_proj'' True,
     set_html ''btn_remote_proj'' (msg E ''DIALOG_LOADING''),
     set_html ''projects'' [],
     ajax LoadProjsReq [(''id'', ''loadProjs'')]]"

definition loadProj_reply :: "env \<Rightarrow> string list \<Rightarrow> act" where
  "loadProj_reply E projs = seqs [
     disable_el ''btn_remote_proj'' False,
     set_html ''btn_remote_proj'' (msg E ''DIALOG_REMOTE_LOADER''),
     (case projs of
        p # _ \<Rightarrow> seqs [
          upd (\<lambda>s. s\<lparr>a_joinProj := p\<rparr>),
          happens (Appended ''btn_remote_proj'' (''<select id='' @ quoted ''projects'' @ ''>'' @
            concat (map (\<lambda>q. ''<option value='' @ quoted q @ ''>'' @ q @ ''</option>'') projs) @ ''</select>''))]
      | [] \<Rightarrow> happens (Appended ''btn_remote_proj'' (''<p id='' @ quoted ''projects'' @ '' style='' @ quoted ''display:inline'' @ ''>'' @
            msg E ''DIALOG_NO_PROJS'' @ ''</p>''))),
     hide_el E ''btn_remote_proj'']"

definition requestUserId :: act where
  "requestUserId = ajax UserIdReq [(''id'', ''getUserId'')]"

definition requestUserId_reply :: "env \<Rightarrow> string \<Rightarrow> act" where
  "requestUserId_reply E html = store_cookie E ''idUser'' html"

definition requestUserId_error :: "string \<Rightarrow> act" where
  "requestUserId_error err = happens (Alerted err)"

text \<open>The common part of the start of both devices.\<close>

definition check_user :: act where
  "check_user = whens (\<lambda>s. getCookie ''idUser'' (a_jar s) = Some []) requestUserId"

subsection \<open>Speed\<close>

definition SpeedChange :: act where
  "SpeedChange = reads (\<lambda>s. a_html s ''rngSpeed'') (\<lambda>speed.
     (let vel = (case js_parseInt speed of None \<Rightarrow> ''NaN'' | Some n \<Rightarrow> int_str n) in seqs [
       upd (\<lambda>s. s\<lparr>a_vel := vel\<rparr>),
       upd (\<lambda>s. s\<lparr>a_store := (a_store s)\<lparr>yatay_speed := Some vel\<rparr>\<rparr>),
       set_html ''lblSpeed'' speed]))"

subsection \<open>Texts of the dialogs and of the tour\<close>

text \<open>An element, the message, and whether it replaces the content or goes before the element.\<close>

definition dialog_texts :: "(string \<times> string \<times> bool) list" where
  "dialog_texts = [
     (''code_label'', ''DIALOG_CODE_LABEL'', True),
     (''btn_save2'', ''DIALOG_SAVE'', True),
     (''btn_run2'', ''DIALOG_RUN'', True),
     (''btn_openfile'', ''DIALOG_OPEN'', True),
     (''btn_deleteDBBxs'', ''DIALOG_DELETEDBBEHAVIOURS'', True),
     (''loader_label'', ''DIALOG_LOADER_LABEL'', True),
     (''txt_local_input'', ''DIALOG_LOCAL_INPUT'', True),
     (''txt_remote_input'', ''DIALOG_REMOTE_INPUT'', True),
     (''btn_remote_loader'', ''DIALOG_TXT_REMOTE_INPUT'', False),
     (''btn_remote_loader'', ''DIALOG_REMOTE_LOADER'', True),
     (''projmanager_label'', ''DIALOG_PROJMANAGER_LABEL'', True),
     (''txt_new_proj'', ''DIALOG_NEW_PROJ'', True),
     (''proj_input'', ''DIALOG_PROJ_NAME'', False),
     (''txt_remote_proj'', ''DIALOG_REMOTE_PROJ'', True),
     (''btn_remote_proj'', ''DIALOG_TXT_REMOTE_PROJ'', False),
     (''btn_remote_proj'', ''DIALOG_REMOTE_LOADER'', True),
     (''btn_openproj'', ''DIALOG_START'', True),
     (''btn_delete_all'', ''DIALOG_DELETE_ALL'', True),
     (''btn_delete_workspace'', ''DIALOG_DELETE_WORKSPACE'', True),
     (''delete_label'', ''DIALOG_DELETE_LABEL'', True),
     (''edition_error_title'', ''DIALOG_EDITION_ERROR_TITLE'', True),
     (''btn_error_detail'', ''DIALOG_EDITION_ERROR_BTN'', True),
     (''edition_error_msg'', ''DIALOG_EDITION_ERROR_MSG'', True),
     (''speed_title'', ''DIALOG_SPEED_TITLE'', True),
     (''speed_msg'', ''DIALOG_SPEED_MSG'', True)]"

definition loadDialogs :: "env \<Rightarrow> act" where
  "loadDialogs E = seqs (map (\<lambda>(i, k, replaces).
     if replaces then set_html i (msg E k) else happens (Appended i (msg E k))) dialog_texts)"

text \<open>A step of the tour: element, width, placement, the keys of its title and content.\<close>

type_synonym tour_step = "string \<times> string \<times> string \<times> string \<times> string"

definition tour_tablet :: "tour_step list" where
  "tour_tablet = [
     (''.blocklyToolboxDiv'', ''600px'', ''right'', ''TOUR_TOOLBOX_TITLE'', ''TOUR_TOOLBOX_CONTENT''),
     (''#btn_robotest'', ''400px'', ''right'', ''TOUR_RBTEST_TITLE'', ''TOUR_RBTEST_CONTENT''),
     (''#btn_run'', ''600px'', ''right'', ''TOUR_RUN_TITLE'', ''TOUR_RUN_CONTENT''),
     (''#btn_bx_ready'', ''400px'', ''right'', ''TOUR_BXREADY_TITLE'', ''TOUR_BXREADY_CONTENT''),
     (''#btn_edit'', ''400px'', ''right'', ''TOUR_EDIT_TITLE'', ''TOUR_EDIT_CONTENT'')]"

definition tour_mobile :: "tour_step list" where
  "tour_mobile = [
     (''.blocklyToolboxDiv'', ''600px'', ''right'', ''TOUR_TOOLBOX_TITLE'', ''TOUR_TOOLBOX_CONTENT''),
     (''#btn_run'', ''600px'', ''bottom'', ''TOUR_RUN_TITLE'', ''TOUR_RUN_CONTENT''),
     (''#btn_more'', ''400px'', ''bottom'', ''TOUR_MORE_TITLE'', ''TOUR_MORE_CONTENT'')]"

text \<open>The attributes a step sets on its element.\<close>

definition step_attrs :: "env \<Rightarrow> nat \<Rightarrow> tour_step \<Rightarrow> (string \<times> string) list" where
  "step_attrs E n t = (case t of (i, w, pl, title_key, content_key) \<Rightarrow>
     [(''class'', ''bootstro''), (''data-bootstro-step'', nat_str n), (''data-bootstro-width'', w),
      (''data-bootstro-placement'', pl), (''data-bootstro-title'', msg E title_key),
      (''data-bootstro-content'', msg E content_key)])"

definition takeTour :: "env \<Rightarrow> (string \<times> (string \<times> string) list) list" where
  "takeTour E = map (\<lambda>(n, t). (fst t, step_attrs E n t))
     (enumerate 0 (if e_tablet E then tour_tablet else tour_mobile))"

definition tour_buttons :: "env \<Rightarrow> string list" where
  "tour_buttons E = map (msg E) ([''TOUR_NEXT'', ''TOUR_PREV''] @ (if e_tablet E then [] else [''TOUR_QUIT'']))"

end
