(* ===== verification/Language.thy ===== *)
theory Language
  imports Remote
begin

text \<open>
  The language of the page: chosen when it loads from the address, the cookie or the browser
  (\<open>BlocklyApps.getLang\<close> of \<open>apps/common.js\<close>), and switched by a button that reloads the page at
  an address that asks for the other language (\<open>Yatay.Common.changeLanguage\<close>). The theorems say
  that the page that loads then is in that language, and that it is remembered.
\<close>

subsection \<open>Parameters of the address\<close>

text \<open>
  \<open>decodeURIComponent\<close>: the result as code points, \<^const>\<open>None\<close> for the \<open>URIError\<close> of a percent
  sign that is not part of a well-formed UTF-8 sequence.
\<close>

fun pct_byte :: "string \<Rightarrow> (nat \<times> string) option" where
  "pct_byte (p # a # b # t) =
     (if p = CHR ''%'' then (case (hex_val a, hex_val b) of (Some x, Some y) \<Rightarrow> Some (16 * x + y, t) | _ \<Rightarrow> None)
      else None)"
| "pct_byte _ = None"

fun continuation :: "nat \<Rightarrow> nat \<Rightarrow> string \<Rightarrow> (nat \<times> string) option" where
  "continuation 0 v s = Some (v, s)"
| "continuation (Suc n) v s = (case pct_byte s of None \<Rightarrow> None
     | Some (b, t) \<Rightarrow> if b div 64 = 2 then continuation n (64 * v + b mod 64) t else None)"

definition at_least :: "nat \<Rightarrow> (nat \<times> string) option \<Rightarrow> (nat \<times> string) option" where
  "at_least low r = (case r of None \<Rightarrow> None
     | Some (v, t) \<Rightarrow> if low \<le> v \<and> v \<le> 1114111 \<and> \<not> (55296 \<le> v \<and> v \<le> 57343) then Some (v, t) else None)"

definition code_point :: "string \<Rightarrow> (nat \<times> string) option" where
  "code_point s = (case pct_byte s of None \<Rightarrow> None
     | Some (b, t) \<Rightarrow>
         if b < 128 then Some (b, t)
         else if b div 32 = 6 then at_least 128 (continuation 1 (b mod 32) t)
         else if b div 16 = 14 then at_least 2048 (continuation 2 (b mod 16) t)
         else if b div 8 = 30 then at_least 65536 (continuation 3 (b mod 8) t)
         else None)"

lemma pct_byte_length: "pct_byte s = Some (b, t) \<Longrightarrow> length t < length s"
  by (cases s rule: pct_byte.cases) (auto split: if_splits option.splits)

lemma continuation_length: "continuation n v s = Some (w, t) \<Longrightarrow> length t \<le> length s"
proof (induction n v s rule: continuation.induct)
  case (2 n v s)
  then show ?case
    by (cases "pct_byte s") (force split: if_splits dest: pct_byte_length)+
qed simp

lemma code_point_length: "code_point s = Some (v, t) \<Longrightarrow> length t < length s"
  by (auto simp: code_point_def at_least_def split: option.splits if_splits dest!: pct_byte_length continuation_length)

function decodeURIComponent :: "string \<Rightarrow> nat list option" where
  "decodeURIComponent [] = Some []"
| "decodeURIComponent (c # s) =
     (if c = CHR ''%'' then (case code_point (c # s) of None \<Rightarrow> None | Some (v, t) \<Rightarrow> map_option ((#) v) (decodeURIComponent t))
      else map_option ((#) (of_char c)) (decodeURIComponent s))"
  by pat_completeness auto
termination
  by (relation "measure length") (auto dest: code_point_length)

text \<open>The regular expression \<open>[?&]name=([^&]+)\<close>.\<close>

definition up_to_amp :: "string \<Rightarrow> string" where
  "up_to_amp s = takeWhile (\<lambda>c. c \<noteq> CHR ''&'') s"

definition from_amp :: "string \<Rightarrow> string" where
  "from_amp s = dropWhile (\<lambda>c. c \<noteq> CHR ''&'') s"

definition starts_param :: "string \<Rightarrow> string \<Rightarrow> bool" where
  "starts_param name s \<longleftrightarrow> (case s of [] \<Rightarrow> False | c # t \<Rightarrow> (c = CHR ''?'' \<or> c = CHR ''&'') \<and> is_prefix (name @ ''='') t)"

definition param_value :: "string \<Rightarrow> string \<Rightarrow> string" where
  "param_value name s = drop (length name + 2) s"

fun find_param :: "string \<Rightarrow> string \<Rightarrow> string option" where
  "find_param name [] = None"
| "find_param name (c # s) =
     (if starts_param name (c # s) \<and> up_to_amp (param_value name (c # s)) \<noteq> [] then Some (up_to_amp (param_value name (c # s)))
      else find_param name s)"

text \<open>Plus signs stand for blanks.\<close>

definition getStringParamFromUrl :: "string \<Rightarrow> string \<Rightarrow> string \<Rightarrow> nat list res" where
  "getStringParamFromUrl search name defaultValue = (case find_param name search of
     None \<Rightarrow> Inr (map of_char defaultValue)
   | Some v \<Rightarrow> (case decodeURIComponent (js_replaceAll ''+'' ''%20'' v) of None \<Rightarrow> Inl ''URIError'' | Some t \<Rightarrow> Inr t))"

subsection \<open>Choosing the language\<close>

definition word_char :: "char \<Rightarrow> bool" where
  "word_char c \<longleftrightarrow> alnum c \<or> c = CHR ''_''"

text \<open>
  \<open>/(^|;)\s*lang=(\w+)/\<close>: neither part can hold a semicolon, so each piece between
  semicolons is tried in turn. \<open>unescape\<close> does not change a word.
\<close>

definition piece_lang :: "string \<Rightarrow> string option" where
  "piece_lang p = (let t = js_trimLeft p; w = takeWhile word_char (drop 5 t) in
     if is_prefix ''lang='' t \<and> w \<noteq> [] then Some w else None)"

fun first_some :: "('a \<Rightarrow> 'b option) \<Rightarrow> 'a list \<Rightarrow> 'b option" where
  "first_some f [] = None"
| "first_some f (x # xs) = (case f x of None \<Rightarrow> first_some f xs | Some y \<Rightarrow> Some y)"

definition cookie_lang :: "jar \<Rightarrow> string option" where
  "cookie_lang j = first_some piece_lang (js_split '';'' (cookie_text j))"

definition getLang :: "string list \<Rightarrow> string \<Rightarrow> string \<Rightarrow> jar \<Rightarrow> exn + (string \<times> jar)" where
  "getLang LANGUAGES search browser j =
     (case getStringParamFromUrl search ''lang'' [] of
        Inl e \<Rightarrow> Inl (Error e)
      | Inr t \<Rightarrow> (case find (\<lambda>l. map of_char l = t) LANGUAGES of
          Some lang \<Rightarrow> Inr (lang, cookie_assign (''lang='' @ js_escape lang @ ''; path=/'') False j)
        | None \<Rightarrow> (case Option.bind (cookie_lang j) (\<lambda>c. if c \<in> set LANGUAGES then Some c else None) of
            Some lang \<Rightarrow> Inr (lang, j)
          | None \<Rightarrow>
              if browser \<in> set LANGUAGES then Inr (browser, j)
              else if ''en'' \<in> set LANGUAGES then Inr (''en'', j)
              else (case LANGUAGES of l # _ \<Rightarrow> Inr (l, j) | [] \<Rightarrow> Inl (Thrown ''No languages available.'')))))"

definition LANGUAGES :: "string list" where
  "LANGUAGES = [''es'', ''en'']"

definition isRtl :: "string \<Rightarrow> bool" where
  "isRtl lang \<longleftrightarrow> lang \<in> {''ar'', ''fa'', ''he'', ''mzn'', ''ps''}"

definition LANGUAGE_PACK :: "(string \<times> string) list" where
  "LANGUAGE_PACK = [
     (''cdo'', ''msg/js/zh_tw.js''),
     (''de'', ''msg/js/de.js''),
     (''frr'', ''msg/js/de.js''),
     (''ksh'', ''msg/js/de.js''),
     (''lb'', ''msg/js/de.js''),
     (''pt'', ''msg/js/pt_br.js''),
     (''pt-br'', ''msg/js/pt_br.js''),
     (''vi'', ''msg/js/vi.js''),
     (''zh-hans'', ''msg/js/zh_tw.js''),
     (''zh-hant'', ''msg/js/zh_tw.js''),
     (''zh-tw'', ''msg/js/zh_tw.js''),
     (''default'', ''msg/js/en.js'')]"

definition languagePack :: "string \<Rightarrow> string" where
  "languagePack lang = (case map_of LANGUAGE_PACK lang of Some p \<Rightarrow> p
     | None \<Rightarrow> text_or_undefined (map_of LANGUAGE_PACK ''default''))"

subsection \<open>Switching it\<close>

definition other_lang :: "string \<Rightarrow> string" where
  "other_lang lang = (if lang = ''es'' then ''en'' else ''es'')"

text \<open>The replacement of the first match of \<open>([?&]lang=)[^&]*\<close>, if there is one.\<close>

fun set_lang_param :: "string \<Rightarrow> string \<Rightarrow> string option" where
  "set_lang_param lang [] = None"
| "set_lang_param lang (c # s) =
     (if starts_param ''lang'' (c # s) then Some (c # ''lang='' @ lang @ from_amp (drop 5 s))
      else map_option ((#) c) (set_lang_param lang s))"

definition lang_search :: "string \<Rightarrow> string \<Rightarrow> string" where
  "lang_search lang search =
     (if length search \<le> 1 then ''?lang='' @ lang
      else (case set_lang_param lang search of
        Some t \<Rightarrow> t | None \<Rightarrow> js_replace1 ''?'' (''?lang='' @ lang @ ''&'') search))"

definition changeLanguage :: "env \<Rightarrow> act" where
  "changeLanguage E = debounced ''btn_lang'' [
     upd (\<lambda>s. s\<lparr>a_lang := other_lang (a_lang s)\<rparr>),
     reads (\<lambda>s. fst (a_url s) @ lang_search (a_lang s) (snd (a_url s))) (\<lambda>address. happens (WentTo address))]"

subsection \<open>The next page is in that language\<close>

text \<open>\<open>location.search\<close> is empty or starts with a question mark.\<close>

definition is_search :: "string \<Rightarrow> bool" where
  "is_search s \<longleftrightarrow> s = [] \<or> hd s = CHR ''?''"

definition lang_word :: "string \<Rightarrow> bool" where
  "lang_word lang \<longleftrightarrow> lang \<noteq> [] \<and> list_all alnum lang"

lemma lang_word_clean:
  assumes "lang_word lang"
  shows "CHR ''&'' \<notin> set lang" "CHR ''+'' \<notin> set lang" "CHR ''%'' \<notin> set lang" "CHR '';'' \<notin> set lang" "CHR ''='' \<notin> set lang"
  using assms by (auto simp: lang_word_def list_all_iff alnum_def Let_def)

lemma decode_plain: "CHR ''%'' \<notin> set s \<Longrightarrow> decodeURIComponent s = Some (map of_char s)"
  by (induction s) auto

lemma up_to_amp_plain [simp]:
  "CHR ''&'' \<notin> set s \<Longrightarrow> up_to_amp (s @ from_amp t) = s" "CHR ''&'' \<notin> set s \<Longrightarrow> up_to_amp (s @ CHR ''&'' # t) = s"
  "CHR ''&'' \<notin> set s \<Longrightarrow> up_to_amp s = s"
proof -
  have "takeWhile (\<lambda>c. c \<noteq> CHR ''&'') (dropWhile (\<lambda>c. c \<noteq> CHR ''&'') t) = []"
    by (induction t) auto
  then show "CHR ''&'' \<notin> set s \<Longrightarrow> up_to_amp (s @ from_amp t) = s"
    by (subst up_to_amp_def, subst takeWhile_append2) (auto simp: from_amp_def)
next
  show "CHR ''&'' \<notin> set s \<Longrightarrow> up_to_amp (s @ CHR ''&'' # t) = s" by (induction s) (auto simp: up_to_amp_def)
  show "CHR ''&'' \<notin> set s \<Longrightarrow> up_to_amp s = s" by (induction s) (auto simp: up_to_amp_def)
qed

lemma set_lang_prefix:
  "set_lang_param lang s = Some u \<Longrightarrow> set p \<inter> {CHR ''?'', CHR ''&''} = {} \<Longrightarrow> is_prefix p u = is_prefix p s"
proof (induction lang s arbitrary: u p rule: set_lang_param.induct)
  case (2 lang c s)
  then show ?case by (cases p) (auto simp: starts_param_def split: if_splits)
qed simp

lemma find_set_param:
  "set_lang_param lang s = Some t \<Longrightarrow> CHR ''&'' \<notin> set lang \<Longrightarrow> lang \<noteq> [] \<Longrightarrow> find_param ''lang'' t = Some lang"
proof (induction lang s arbitrary: t rule: set_lang_param.induct)
  case (2 lang c s)
  show ?case
  proof (cases "starts_param ''lang'' (c # s)")
    case True
    then show ?thesis using 2 by (auto simp: starts_param_def param_value_def)
  next
    case False
    then obtain u where u: "set_lang_param lang s = Some u" "t = c # u" using 2(2) by auto
    have "\<not> starts_param ''lang'' (c # u)"
      using False set_lang_prefix [OF u(1), of "''lang=''"] by (simp add: starts_param_def)
    then show ?thesis using 2 False u by simp
  qed
qed simp

lemma find_lang_search:
  assumes "is_search search" and "lang_word lang"
  shows "find_param ''lang'' (lang_search lang search) = Some lang"
proof (cases "length search \<le> 1")
  case True
  then show ?thesis using assms(2) by (simp add: lang_search_def starts_param_def param_value_def lang_word_def lang_word_clean)
next
  case False
  then obtain s where s: "search = CHR ''?'' # s" using assms(1) by (cases search) (auto simp: is_search_def)
  show ?thesis
  proof (cases "set_lang_param lang search")
    case None
    then show ?thesis
      using False assms(2) by (simp add: lang_search_def s js_replace1_def starts_param_def param_value_def lang_word_def lang_word_clean)
  next
    case (Some t)
    then show ?thesis
      using False find_set_param [OF Some] assms(2) by (simp add: lang_search_def lang_word_def lang_word_clean)
  qed
qed

lemma getLang_search:
  assumes "is_search search" and "lang_word lang" and "lang \<in> set Ls"
  shows "getLang Ls (lang_search lang search) browser j = Inr (lang, cookie_assign (''lang='' @ lang @ ''; path=/'') False j)"
proof -
  have "js_replaceAll ''+'' ''%20'' lang = lang"
    using lang_word_clean(2) [OF assms(2)] by (simp add: js_replaceAll_def js_split_clean)
  then have "getStringParamFromUrl (lang_search lang search) ''lang'' [] = Inr (map of_char lang)"
    using find_lang_search [OF assms(1,2)] decode_plain [OF lang_word_clean(3) [OF assms(2)]]
    by (simp add: getStringParamFromUrl_def)
  moreover have "find (\<lambda>l. map of_char l = (map of_char lang :: nat list)) Ls = Some lang"
  proof -
    have "(map of_char l = (map of_char lang :: nat list)) \<longleftrightarrow> l = lang" for l
      by (simp add: inj_map_eq_map inj_of_char)
    then show ?thesis using assms(3) by (simp, induction Ls) auto
  qed
  moreover have "js_escape lang = lang"
    using assms(2) by (simp add: lang_word_def list_all_iff js_escape_def cong: map_cong)
  ultimately show ?thesis by (simp add: getLang_def)
qed

text \<open>The cookie.\<close>

lemma piece_lang_entry:
  assumes "name_ok k" and "c = k @ CHR ''='' # v \<or> c = CHR 32 # k @ CHR ''='' # v"
  shows "piece_lang c = (if k = ''lang'' \<and> takeWhile word_char v \<noteq> [] then Some (takeWhile word_char v) else None)"
proof -
  have "dropWhile js_space (k @ CHR ''='' # v) = k @ CHR ''='' # v"
    using assms(1) by (cases k) (auto simp: name_ok_def)
  then have t: "js_trimLeft c = k @ CHR ''='' # v"
    using assms(2) by (auto simp: js_trimLeft_def js_space_def)
  have "is_prefix ''lang='' (k @ CHR ''='' # v) \<longleftrightarrow> k = ''lang''"
    using entry_prefix [of "''lang''" k v] assms(1) by (auto simp: name_ok_def)
  then show ?thesis by (auto simp: piece_lang_def t Let_def)
qed

lemma first_some_pieces:
  "list_all2 (\<lambda>c (k, v). c = k @ CHR ''='' # v \<or> c = CHR 32 # k @ CHR ''='' # v) cs j \<Longrightarrow> wf_jar j \<Longrightarrow>
   map_of j ''lang'' = Some lang \<Longrightarrow> lang_word lang \<Longrightarrow> first_some piece_lang cs = Some lang"
proof (induction rule: list_all2_induct)
  case (Cons c cs e j)
  obtain k v where e: "e = (k, v)" by force
  have k: "name_ok k" "wf_jar j" using Cons.prems(1) e by (auto simp: wf_jar_def)
  have w: "takeWhile word_char lang = lang" "lang \<noteq> []"
    using Cons.prems(3) by (simp_all add: lang_word_def list_all_iff word_char_def takeWhile_eq_all_conv)
  have "c = k @ CHR ''='' # v \<or> c = CHR 32 # k @ CHR ''='' # v" using Cons.hyps(1) e by simp
  note c = piece_lang_entry [OF k(1) this]
  show ?case
  proof (cases "k = ''lang''")
    case True
    then have "v = lang" using Cons.prems(2) e by simp
    then have "piece_lang c = Some lang" using c True w by (simp only: if_True simp_thms)
    then show ?thesis by simp
  next
    case False
    then show ?thesis using c Cons.IH [OF k(2) _ Cons.prems(3)] Cons.prems(2) e by simp
  qed
qed simp

lemma cookie_lang_found:
  assumes "wf_jar j" and "map_of j ''lang'' = Some lang" and "lang_word lang"
  shows "cookie_lang j = Some lang"
proof -
  have "j \<noteq> []" using assms(2) by auto
  then show ?thesis
    using first_some_pieces [OF cookie_pieces_raw [OF assms(1)] assms(1-3)] by (simp add: cookie_lang_def)
qed

lemma assign_lang:
  assumes "lang_word lang"
  shows "cookie_assign (''lang='' @ lang @ ''; path=/'') False j = jar_put ''lang'' lang j"
proof -
  have "break_at '';'' ((''lang='' @ lang) @ CHR '';'' # '' path=/'') = Some (''lang='' @ lang, '' path=/'')"
    by (rule break_at_append_singleton) (use lang_word_clean [OF assms] in auto)
  moreover have "break_at ''='' (''lang'' @ CHR ''='' # lang) = Some (''lang'', lang)"
    by (rule break_at_append_singleton) simp
  moreover have "js_trim lang = lang"
  proof (rule js_trim_id)
    have "\<not> js_space c" if "alnum c" for c using that by (auto simp: alnum_def js_space_def Let_def)
    then show "lang = [] \<or> \<not> js_space (hd lang) \<and> \<not> js_space (last lang)"
      using assms by (auto simp: lang_word_def list_all_iff)
  qed
  moreover have "js_trim ''lang'' = ''lang''" by (rule js_trim_id) (auto simp: js_space_def)
  ultimately show ?thesis by (simp add: cookie_assign_def Let_def)
qed

lemma remembers_lang:
  assumes "lang_word lang" and "wf_jar j" and "lang \<in> set Ls" and "find_param ''lang'' search = None" and "[] \<notin> set Ls"
    and "map_of j ''lang'' = Some lang"
  shows "getLang Ls search browser j = Inr (lang, j)"
proof -
  have "find (\<lambda>l. map of_char l = ([] :: nat list)) Ls = None"
    using assms(5) by (auto simp: find_None_iff)
  then show ?thesis
    using assms(3,4) cookie_lang_found [OF assms(2,6,1)]
    by (simp add: getLang_def getStringParamFromUrl_def)
qed

text \<open>C32. Switching the language works: the button goes to an address - the old one with its
  \<open>lang\<close> parameter replaced, or with one added, all else as it was - at which the page that loads
  chooses the other one of the two languages, whatever the cookie and the browser say; and the
  choice is remembered: a later visit at an address without the parameter has that language too.
\<close>

theorem changeLanguage_reopens:
  assumes "is_search (snd (a_url s))" and "wf_jar (a_jar s)"
  defines "lang \<equiv> other_lang (a_lang s)"
  shows "\<exists>j. a_effects (snd (changeLanguage E s)) = a_effects s @ [WentTo (fst (a_url s) @ lang_search lang (snd (a_url s)))] \<and>
     getLang LANGUAGES (lang_search lang (snd (a_url s))) browser (a_jar s) = Inr (lang, j) \<and>
     (find_param ''lang'' search = None \<longrightarrow> getLang LANGUAGES search browser' j = Inr (lang, j))"
proof -
  have lang: "lang \<in> set LANGUAGES" "lang_word lang" "name_ok ''lang''" "value_ok lang"
    by (auto simp: lang_def other_lang_def LANGUAGES_def lang_word_def alnum_def name_ok_def value_ok_def js_space_def)
  have go: "a_effects (snd (changeLanguage E s)) = a_effects s @ [WentTo (fst (a_url s) @ lang_search lang (snd (a_url s)))]"
    by (simp add: changeLanguage_def debounced_def disarm_def setTimeout_def happens_def act_simps lang_def)
  let ?j = "jar_put ''lang'' lang (a_jar s)"
  have "getLang LANGUAGES (lang_search lang (snd (a_url s))) browser (a_jar s) = Inr (lang, ?j)"
    using getLang_search [OF assms(1) lang(2,1)] assign_lang [OF lang(2)] by simp
  moreover have "getLang LANGUAGES search browser' ?j = Inr (lang, ?j)" if "find_param ''lang'' search = None"
    by (rule remembers_lang [OF lang(2) wf_jar_put [OF assms(2) lang(3,4)] lang(1) that])
      (simp_all add: LANGUAGES_def map_of_jar_put)
  ultimately show ?thesis using go by (intro exI [of _ ?j] conjI impI)
qed

definition demo_page :: app where
  "demo_page = new_page 6 [] ''es'' (''http://robot/apps/yatay/index.html'', ''?a=1&lang=es'')
     \<lparr>yatay_bxs = None, yatay_bxs_autosaved = None, yatay_speed = None\<rparr> [(''idUser'', ''7'')]"

theorem changeLanguage_reopens_witness:
  "\<forall>E. \<exists>j. a_effects (snd (changeLanguage E demo_page)) = [WentTo ''http://robot/apps/yatay/index.html?a=1&lang=en''] \<and>
     getLang LANGUAGES ''?a=1&lang=en'' ''de'' (a_jar demo_page) = Inr (''en'', j) \<and>
     getLang LANGUAGES ''?a=1'' ''es'' j = Inr (''en'', j)"
proof
  fix E
  have s: "is_search (snd (a_url demo_page))" "wf_jar (a_jar demo_page)"
    by (simp_all add: demo_page_def new_page_def is_search_def wf_jar_def name_ok_def value_ok_def js_space_def)
  have e: "other_lang (a_lang demo_page) = ''en''" "lang_search ''en'' (snd (a_url demo_page)) = ''?a=1&lang=en''"
    "fst (a_url demo_page) @ ''?a=1&lang=en'' = ''http://robot/apps/yatay/index.html?a=1&lang=en''" "a_effects demo_page = []"
    by (simp_all add: demo_page_def new_page_def other_lang_def lang_search_def starts_param_def from_amp_def)
  have none: "find_param ''lang'' ''?a=1'' = None" by (simp add: starts_param_def)
  obtain j where j: "a_effects (snd (changeLanguage E demo_page)) = [] @ [WentTo ''http://robot/apps/yatay/index.html?a=1&lang=en'']"
      "getLang LANGUAGES ''?a=1&lang=en'' ''de'' (a_jar demo_page) = Inr (''en'', j)"
      "find_param ''lang'' ''?a=1'' = None \<longrightarrow> getLang LANGUAGES ''?a=1'' ''es'' j = Inr (''en'', j)"
    using changeLanguage_reopens [OF s, where E = E and browser = "''de''" and search = "''?a=1''" and browser' = "''es''", unfolded e]
    by (elim exE conjE)
  show "\<exists>j. a_effects (snd (changeLanguage E demo_page)) = [WentTo ''http://robot/apps/yatay/index.html?a=1&lang=en''] \<and>
     getLang LANGUAGES ''?a=1&lang=en'' ''de'' (a_jar demo_page) = Inr (''en'', j) \<and>
     getLang LANGUAGES ''?a=1'' ''es'' j = Inr (''en'', j)"
    by (rule exI [of _ j], intro conjI j(1) [unfolded append_Nil] j(2) j(3) [rule_format, OF none])
qed

end
