(* ===== verification/PageInvariant.thy ===== *)
theory PageInvariant
  imports Remote
begin

text \<open>
  Invariants of the workspace and the list of behaviours. The locale \<open>page_invariant\<close> says what a
  property of the two must survive: the few ways in which the page changes them. Every operation
  of the page then keeps it. Two interpretations: numbers are unique (\<open>bxToWorkspace\<close> finds a
  behaviour by its number), and what is in the list can be parsed.
\<close>

subsection \<open>Keeping a property of the core of the state\<close>

definition keeps :: "(top list \<Rightarrow> nat \<Rightarrow> behaviour list \<Rightarrow> bool) \<Rightarrow> act \<Rightarrow> bool" where
  "keeps J a \<longleftrightarrow> (\<forall>s. J (a_ws s) (a_uid s) (a_behaviours s) \<longrightarrow>
     J (a_ws (snd (a s))) (a_uid (snd (a s))) (a_behaviours (snd (a s))))"

named_theorems keep_intros \<open>how statements keep a property\<close>

lemma keepsI:
  "(\<And>s. J (a_ws s) (a_uid s) (a_behaviours s) \<Longrightarrow>
     J (a_ws (snd (a s))) (a_uid (snd (a s))) (a_behaviours (snd (a s)))) \<Longrightarrow> keeps J a"
  by (simp add: keeps_def)

lemma keepsD:
  "keeps J a \<Longrightarrow> J (a_ws s) (a_uid s) (a_behaviours s) \<Longrightarrow>
     J (a_ws (snd (a s))) (a_uid (snd (a s))) (a_behaviours (snd (a s)))"
  by (simp add: keeps_def)

lemma keeps_frame:
  "(\<And>s. a_ws (f s) = a_ws s \<and> a_uid (f s) = a_uid s \<and> a_behaviours (f s) = a_behaviours s) \<Longrightarrow> keeps J (upd f)"
  by (simp add: keeps_def upd_def)

lemma keeps_seqs_Nil [keep_intros]: "keeps J (seqs [])"
  by (simp add: keeps_def)

lemma keeps_seqs_Cons [keep_intros]:
  assumes "keeps J a" and "keeps J (seqs as)"
  shows "keeps J (seqs (a # as))"
proof (rule keepsI)
  fix s :: app
  assume J: "J (a_ws s) (a_uid s) (a_behaviours s)"
  obtain e t where a: "a s = (e, t)" by force
  then have "J (a_ws t) (a_uid t) (a_behaviours t)" using keepsD [OF assms(1) J] by simp
  then show "J (a_ws (snd (seqs (a # as) s))) (a_uid (snd (seqs (a # as) s))) (a_behaviours (snd (seqs (a # as) s)))"
    using keepsD [OF assms(2)] a by (cases e) auto
qed

lemma keeps_seqs: "(\<And>a. a \<in> set as \<Longrightarrow> keeps J a) \<Longrightarrow> keeps J (seqs as)"
  by (induction as) (auto intro: keep_intros)

lemma keeps_seqs_append [keep_intros]: "keeps J (seqs as) \<Longrightarrow> keeps J (seqs bs) \<Longrightarrow> keeps J (seqs (as @ bs))"
proof (rule keepsI)
  fix s :: app
  assume a: "keeps J (seqs as)" and b: "keeps J (seqs bs)" and J: "J (a_ws s) (a_uid s) (a_behaviours s)"
  show "J (a_ws (snd (seqs (as @ bs) s))) (a_uid (snd (seqs (as @ bs) s))) (a_behaviours (snd (seqs (as @ bs) s)))"
    using keepsD [OF a J] keepsD [OF b] by (auto simp: seqs_append split: prod.splits option.splits)
qed

lemma keeps_skip [keep_intros]: "keeps J skip"
  by (simp add: keeps_def skip_def)

lemma keeps_raise [keep_intros]: "keeps J (raise e)"
  by (simp add: keeps_def raise_def)

lemma keeps_reads [keep_intros]: "(\<And>x. keeps J (a x)) \<Longrightarrow> keeps J (reads f a)"
  by (simp add: keeps_def reads_def)

lemma keeps_reads_res [keep_intros]: "(\<And>x. keeps J (a x)) \<Longrightarrow> keeps J (reads_res f a)"
  by (auto simp: keeps_def reads_res_def split: sum.splits)

lemma keeps_ifs [keep_intros]: "keeps J a \<Longrightarrow> keeps J b \<Longrightarrow> keeps J (ifs c a b)"
  by (simp add: keeps_def ifs_def)

lemma keeps_whens [keep_intros]: "keeps J a \<Longrightarrow> keeps J (whens c a)"
  by (simp add: keeps_def whens_def)

lemma keeps_attempt [keep_intros]: "keeps J a \<Longrightarrow> keeps J (attempt a)"
  by (simp add: keeps_def attempt_def)

lemma keeps_if [keep_intros]: "(c \<Longrightarrow> keeps J a) \<Longrightarrow> (\<not> c \<Longrightarrow> keeps J b) \<Longrightarrow> keeps J (if c then a else b)"
  by simp

lemma keeps_Let [keep_intros]: "(\<And>x. keeps J (f x)) \<Longrightarrow> keeps J (Let t f)"
  by simp

lemma keeps_option [keep_intros]:
  "keeps J a \<Longrightarrow> (\<And>x. keeps J (b x)) \<Longrightarrow> keeps J (case r of None \<Rightarrow> a | Some x \<Rightarrow> b x)"
  by (cases r) simp_all

lemma keeps_list [keep_intros]:
  "keeps J a \<Longrightarrow> (\<And>x xs. keeps J (b x xs)) \<Longrightarrow> keeps J (case r of [] \<Rightarrow> a | x # xs \<Rightarrow> b x xs)"
  by (cases r) simp_all

lemma keeps_prod [keep_intros]: "(\<And>x y. keeps J (b x y)) \<Longrightarrow> keeps J (case r of (x, y) \<Rightarrow> b x y)"
  by (cases r) simp

lemma keeps_sum [keep_intros]:
  "(\<And>x. keeps J (a x)) \<Longrightarrow> (\<And>x. keeps J (b x)) \<Longrightarrow> keeps J (case r of Inl x \<Rightarrow> a x | Inr x \<Rightarrow> b x)"
  by (cases r) simp_all

text \<open>Statements that change only what is shown, stored, sent or counted.\<close>

lemma keeps_page [keep_intros]:
  "keeps J (show_el E i)" "keeps J (hide_el E i)" "keeps J (toggle_el E i)" "keeps J (set_html i t)"
  "keeps J (disarm i)" "keeps J (setTimeout ms tm)" "keeps J (ajax r d)" "keeps J (happens e)"
  "keeps J new_variables" "keeps J (disable_el i b)" "keeps J (store_cookie E n v)" "keeps J (set_max c)"
  "keeps J (removeClass n)" "keeps J (addClass n)" "keeps J forget_choice" "keeps J (tryToRecover E ty t)"
  by (simp_all add: keeps_def show_el_def hide_el_def toggle_el_def set_html_def disarm_def setTimeout_def ajax_def
      happens_def new_variables_def disable_el_def store_cookie_def set_max_def removeClass_def addClass_def
      forget_choice_def tryToRecover_def upd_def)

lemma keeps_with_code [keep_intros]: "(\<And>c. keeps J (k c)) \<Longrightarrow> keeps J (with_code E k)"
  by (auto simp: keeps_def with_code_def split: sum.splits prod.splits)

lemma keeps_debounced [keep_intros]: "keeps J (seqs as) \<Longrightarrow> keeps J (debounced i as)"
  unfolding debounced_def by (intro keep_intros)

lemma keeps_with_user [keep_intros]: "(\<And>u. keeps J (k u)) \<Longrightarrow> keeps J (with_user k)"
  unfolding with_user_def by (intro keep_intros)

lemma keeps_ShowMessage [keep_intros]: "keeps J (ShowMessage E t)"
  unfolding ShowMessage_def by (intro keep_intros)

subsection \<open>What a property of the core must survive\<close>

text \<open>
  Blocks leave the workspace; the workspace becomes an entry of the list; entries leave the list;
  a document is loaded; flags change; the first field of the first block is set; the first block
  moves.
\<close>

locale page_invariant =
  fixes E :: env and J :: "top list \<Rightarrow> nat \<Rightarrow> behaviour list \<Rightarrow> bool"
  assumes leave: "J ws k bxs \<Longrightarrow> J (filter P ws) k bxs"
    and ready: "J ((b, xy) # ws) k bxs \<Longrightarrow> is_behaviour b \<Longrightarrow>
      J [] k (bxs @ [\<lparr>bx_id = b_id b, bx_text = domToText (workspaceToDom (e_view E) ((b, xy) # ws)), bx_name = n, bx_size = m\<rparr>])"
    and drop_one: "J ws k bxs \<Longrightarrow> J ws k (splice1 i bxs)"
    and drop_all: "J ws k bxs \<Longrightarrow> J ws k []"
    and load: "J ws k bxs \<Longrightarrow> domToWorkspace L (e_view E) x (ws, k) = (e, ws', k') \<Longrightarrow> J ws' k' bxs"
    and flags: "J ws k bxs \<Longrightarrow> J (map (\<lambda>(b, xy). (map_block (\<lambda>b. set_flags (g b) b) b, xy)) ws) k bxs"
    and title: "J ((b, xy) # ws) k bxs \<Longrightarrow> setTitleValue v n b = Inr b' \<Longrightarrow> J ((b', xy) # ws) k bxs"
    and move: "J ((b, xy) # ws) k bxs \<Longrightarrow> J ((b, xy') # ws) k bxs"
begin

lemma keeps_put_filter: "(\<And>s. \<exists>P. f s = filter P (a_ws s)) \<Longrightarrow> keeps J (upd (\<lambda>s. put_ws (f s) s))"
proof (rule keepsI)
  fix s :: app
  assume f: "\<And>s. \<exists>P. f s = filter P (a_ws s)" and j: "J (a_ws s) (a_uid s) (a_behaviours s)"
  obtain P where "f s = filter P (a_ws s)" using f by blast
  then show "J (a_ws (snd (upd (\<lambda>s. put_ws (f s) s) s))) (a_uid (snd (upd (\<lambda>s. put_ws (f s) s) s)))
      (a_behaviours (snd (upd (\<lambda>s. put_ws (f s) s) s)))"
    using leave [OF j, of P] by (simp add: upd_def put_ws_def)
qed

lemma keeps_kept: "keeps J (upd (\<lambda>s. put_ws (kept_tops s) s))"
  by (rule keeps_put_filter) (auto simp: kept_tops_def)

lemma keeps_clear: "keeps J clear_ws"
proof -
  have "\<exists>P. [] = filter P (a_ws s)" for s :: app by (rule exI [of _ "\<lambda>_. False"]) simp
  then show ?thesis unfolding clear_ws_def by (rule keeps_put_filter)
qed

lemma keeps_domToWs: "keeps J (domToWs E x)"
  by (rule keepsI) (auto simp: domToWs_def split: prod.splits intro: load)

lemma keeps_each: "keeps J (each_block (\<lambda>b. set_flags (g b) b))"
  by (rule keepsI) (simp add: each_block_def upd_def flags)

lemma keeps_leaveOnly: "keeps J (leaveOnlyBehavioursInWspace E)"
  unfolding leaveOnlyBehavioursInWspace_def by (intro keep_intros keeps_kept)

lemma keeps_rename: "keeps J (rename_first E v)"
proof (rule keepsI)
  fix s :: app
  assume j: "J (a_ws s) (a_uid s) (a_behaviours s)"
  show "J (a_ws (snd (rename_first E v s))) (a_uid (snd (rename_first E v s))) (a_behaviours (snd (rename_first E v s)))"
    using j title by (auto simp: rename_first_def set_first_value_def split: list.splits sum.splits option.splits)
qed

lemma keeps_place: "keeps J (fire_PlaceTop E)"
  unfolding fire_PlaceTop_def
  by (intro keep_intros keeps_frame) (auto simp: keeps_def split: list.splits intro: move)

lemma keeps_bxReady: "keeps J (bxReady E)"
proof -
  have "keeps J (reads first_block (\<lambda>first. case first of None \<Rightarrow> skip | Some b \<Rightarrow>
       whens (\<lambda>_. is_behaviour b) (list_behaviour E b)))" (is "keeps J ?a")
  proof (rule keepsI)
    fix s :: app
    assume j: "J (a_ws s) (a_uid s) (a_behaviours s)"
    show "J (a_ws (snd (?a s))) (a_uid (snd (?a s))) (a_behaviours (snd (?a s)))"
    proof (cases "\<exists>b xy ws. a_ws s = (b, xy) # ws \<and> is_behaviour b")
      case True
      then obtain b xy ws where ws: "a_ws s = (b, xy) # ws" and b: "is_behaviour b" by blast
      then have "?a s = list_behaviour E b s" by (simp add: act_simps first_block_def is_behaviour_def)
      moreover have "first_name E (s\<lparr>a_gen := g\<rparr>) = first_name E s" "ws_text E (s\<lparr>a_gen := g\<rparr>) = ws_text E s" for g
        by (simp_all add: first_name_def first_block_def loader_of_def ws_text_def)
      ultimately show ?thesis
        using j ready [OF j [unfolded ws] b]
        by (cases "first_name E s")
          (simp_all add: list_behaviour_def act_simps new_variables_def push_behaviour_def show_el_def clear_ws_def
            put_ws_def ws ws_text_def)
    next
      case False
      then have "?a s = (None, s)"
        by (auto simp: act_simps first_block_def split: option.splits list.splits if_splits)
      then show ?thesis using j by simp
    qed
  qed
  then show ?thesis
    unfolding bxReady_def by (intro keeps_debounced keeps_seqs_Cons keeps_seqs_Nil keeps_leaveOnly)
qed

lemma keeps_drop: "keeps J (upd (\<lambda>s. s\<lparr>a_behaviours := splice1 i (a_behaviours s)\<rparr>))"
  by (rule keepsI) (simp add: upd_def drop_one)

lemma keeps_drop_all: "keeps J (upd (\<lambda>s. s\<lparr>a_behaviours := []\<rparr>))"
  by (rule keepsI) (simp add: upd_def drop_all)

lemma keeps_ready_blocks: "keeps J (reads ready_block each_block)"
proof -
  have "keeps J (each_block (ready_block s))" for s
    unfolding ready_block_def [abs_def] by (rule keeps_each)
  then show ?thesis by (simp add: keeps_def reads_def)
qed

lemmas keeps_steps = keeps_kept keeps_clear keeps_domToWs keeps_each keeps_leaveOnly keeps_rename keeps_place keeps_bxReady
  keeps_drop keeps_drop_all keeps_ready_blocks

lemma keeps_bxToWorkspace: "keeps J (bxToWorkspace E i)"
proof -
  have "keeps J (bx_step E i j)" for j
    unfolding bx_step_def
    by (intro keeps_steps keep_intros) (auto intro: keeps_frame)
  then have "keeps J (seqs (map (bx_step E i) [0..<n]))" for n
    by (intro keeps_seqs) auto
  then show ?thesis
    unfolding bxToWorkspace_def
    by (intro keeps_steps keep_intros) (auto intro: keeps_frame)
qed

lemma keeps_load_text: "keeps J (load_text E t)"
proof (rule keepsI)
  fix s :: app
  assume "J (a_ws s) (a_uid s) (a_behaviours s)"
  then show "J (a_ws (snd (load_text E t s))) (a_uid (snd (load_text E t s))) (a_behaviours (snd (load_text E t s)))"
    using keepsD [OF keeps_domToWs] by (simp add: load_text_def split: sum.splits)
qed

lemma keeps_saving: "keeps J (saveTask E b c)" "keeps J (save_local E n c)" "keeps J (saveTask_reply E b nb m l c)"
  unfolding saveTask_def save_local_def saveTask_reply_def
  by (intro keeps_steps keep_intros; auto intro: keeps_frame)+

lemma keeps_AutoSave: "keeps J (AutoSave E)"
  unfolding AutoSave_def by (intro keeps_steps keeps_saving keep_intros) (auto intro: keeps_frame)

lemma keeps_change: "keeps J (change E)"
  unfolding change_def by (intro keeps_AutoSave keep_intros) (auto intro: keeps_frame)

lemma keeps_discard: "keeps J (discard E p)"
  unfolding discard_def clearWorkspace_def
  by (intro keeps_steps keep_intros) (auto intro: keeps_frame)

lemma keeps_files: "keeps J (toXml E)" "keeps J (readFile f)" "keeps J (load_files E parts)"
  unfolding toXml_def readFile_def load_files_def saveTempLocal_def
  by (intro keeps_steps keeps_load_text keep_intros keeps_seqs; auto intro: keeps_frame keeps_load_text keeps_bxReady)+

lemma keeps_requests: "keeps J (sendTasks c)" "keeps J (testRobot c)" "keeps J (killTasks E)"
  unfolding sendTasks_def testRobot_def killTasks_def by (intro keep_intros; auto intro: keeps_frame)+

lemma keeps_collect: "(\<And>codes. keeps J (k codes)) \<Longrightarrow> keeps J (collect_codes E i xs codes k)"
  by (induction xs arbitrary: i codes) (auto intro!: keeps_steps keeps_load_text keep_intros)

lemma keeps_runTasks: "keeps J (runTasks E)"
proof -
  have "keeps J (seqs (map sendTasks codes))" for codes
    by (intro keeps_seqs) (auto intro: keeps_requests)
  moreover have "keeps J (seqs (map (toggle_el E) l))" for l
    by (intro keeps_seqs) (auto intro: keep_intros)
  ultimately show ?thesis
    unfolding runTasks_def call_pollResults_def
    by (intro keeps_steps keeps_requests keeps_collect keep_intros) (auto intro!: keep_intros)
qed

lemma keeps_collect_debug: "(\<And>codes. keeps J (k codes)) \<Longrightarrow> keeps J (collect_debug E xs codes k)"
  by (induction xs arbitrary: codes) (auto intro!: keeps_steps keeps_load_text keep_intros keeps_frame)

lemma keeps_debug: "keeps J (debug E)"
proof -
  have "keeps J (seqs (map sendTasks codes))" for codes
    by (intro keeps_seqs) (auto intro: keeps_requests)
  then show ?thesis
    unfolding debug_def call_debugPoll_def
    by (intro keeps_steps keeps_collect_debug keep_intros) (auto intro: keeps_frame)
qed

lemma keeps_editor: "keeps J (setCode t)" "keeps J (switchTabs b)" "keeps J closeEditor" "keeps J (saveEditedCode E)"
  unfolding setCode_def switchTabs_def closeEditor_def saveEditedCode_def saveTempLocal_def
  by (intro keep_intros; auto intro: keeps_frame)+

lemma keeps_edit_each: "keeps J (edit_each E xs)"
proof (induction xs)
  case (Cons x xs)
  then show ?case
    unfolding edit_each.simps by (intro keeps_steps keeps_load_text keep_intros keeps_frame) auto
qed (simp add: keeps_skip)

lemma keeps_edit: "keeps J (edit E)"
  unfolding edit_def by (intro keeps_steps keeps_edit_each keep_intros) (auto intro: keeps_frame keeps_edit_each)

lemma keeps_runEditedTasks: "keeps J (runEditedTasks E)"
  unfolding runEditedTasks_def by (intro keeps_editor keeps_runTasks keep_intros)

lemma keeps_modes: "keeps J (enterTestMode c)" "keeps J leaveTestMode" "keeps J (slideToolbox a b)" "keeps J (openDeleteModal E)"
  unfolding enterTestMode_def leaveTestMode_def slideToolbox_def openDeleteModal_def dispose_cats_def
  by (intro keeps_steps keeps_requests keep_intros; auto intro: keeps_frame)+

lemma keeps_test_selected: "keeps J (test_selected E b)"
  unfolding test_selected_def by (intro keeps_steps keep_intros) (auto intro: keeps_frame)

lemma keeps_robotest: "keeps J (robotest E)"
  unfolding robotest_def
  by (intro keeps_test_selected keeps_steps keeps_modes keep_intros)
    (auto intro!: keeps_frame keep_intros keeps_modes)

lemma keeps_goBack: "keeps J (goBack E)"
  unfolding goBack_def
  by (intro keeps_steps keeps_requests keeps_modes keep_intros) (auto intro!: keeps_frame keep_intros)

lemma keeps_polls: "keeps J (pollResults_reply E html)" "keeps J (fire_PollResults E)" "keeps J (fire_DebugPoll E)"
    "keeps J (fire_SelectBlock n)" "keeps J (refreshBlocks_reply E html)"
  unfolding pollResults_reply_def fire_PollResults_def fire_DebugPoll_def fire_SelectBlock_def refreshBlocks_reply_def
    call_pollResults_def call_refreshBlocksPoll_def clear_results_def
  by (intro keeps_goBack keep_intros; auto intro!: keeps_frame)+

lemma keeps_debugPoll_reply: "keeps J (debugPoll_reply E html)"
  unfolding debugPoll_reply_def show_place_def call_debugPoll_def
  by (intro keeps_bxToWorkspace keep_intros) (auto intro!: keeps_frame)

text \<open>The loops with fuel.\<close>

lemma keeps_recover: "keeps J (recover_from E ty code)"
  unfolding recover_from_def by (intro keep_intros keeps_frame) simp

lemma keeps_set_speed: "keeps J (set_speed E)"
  unfolding set_speed_def by (intro keep_intros keeps_frame) auto

lemma load_retry_keeps:
  "load_retry E n code s = Some (e, t) \<Longrightarrow> J (a_ws s) (a_uid s) (a_behaviours s) \<Longrightarrow> J (a_ws t) (a_uid t) (a_behaviours t)"
proof (induction n arbitrary: s)
  case (Suc n)
  show ?case
  proof (cases "textToDom code")
    case (Inl m)
    then show ?thesis using Suc.prems by simp
  next
    case (Inr x)
    obtain x' s1 where d: "domToWs E x s = (x', s1)" by force
    have j1: "J (a_ws s1) (a_uid s1) (a_behaviours s1)" using keepsD [OF keeps_domToWs Suc.prems(2), of x] d by simp
    define s2 where "s2 = snd (clear_ws s1)"
    have j2: "J (a_ws s2) (a_uid s2) (a_behaviours s2)" unfolding s2_def by (rule keepsD [OF keeps_clear j1])
    show ?thesis
    proof (cases x')
      case None
      then show ?thesis using Suc.prems j1 Inr d by simp
    next
      case (Some e')
      note run = Suc.prems(1) [unfolded load_retry.simps Inr d Some sum.case prod.case option.case Let_def s2_def [symmetric]]
      show ?thesis
      proof (cases "blockInFault e'")
        case None
        have "J (a_ws (snd (ShowMessage E u s2))) (a_uid (snd (ShowMessage E u s2))) (a_behaviours (snd (ShowMessage E u s2)))" for u
          by (rule keepsD [where J = J, OF keeps_ShowMessage j2])
        then show ?thesis using run None by (metis option.inject option.case(1) snd_conv)
      next
        case (Some ty)
        have "load_retry E n code (snd (recover_from E ty code s2)) = Some (e, t)" using run Some by simp
        then show ?thesis by (rule Suc.IH) (rule keepsD [where J = J, OF keeps_recover j2])
      qed
    qed
  qed
qed simp

lemma keeps_result: "keeps J a \<Longrightarrow> J (a_ws s) (a_uid s) (a_behaviours s) \<Longrightarrow> a s = (e, t) \<Longrightarrow>
    J (a_ws t) (a_uid t) (a_behaviours t)"
  using keepsD [of J a s] by simp

lemma restore_list_keeps:
  "restore_list E n l s = Some (e, t) \<Longrightarrow> J (a_ws s) (a_uid s) (a_behaviours s) \<Longrightarrow> J (a_ws t) (a_uid t) (a_behaviours t)"
proof (induction l arbitrary: s)
  case (Cons a l)
  obtain name code where a: "a = (name, code)" by force
  obtain e1 s1 where w: "whens (\<lambda>s. block_count s > 0) (bxReady E) s = (e1, s1)" by force
  have j1: "J (a_ws s1) (a_uid s1) (a_behaviours s1)"
    by (rule keeps_result [OF keeps_whens [OF keeps_bxReady] Cons.prems(2) w])
  show ?case
    using Cons.prems(1) Cons.IH j1 load_retry_keeps [OF _ j1]
    by (fastforce simp: a w split: option.splits prod.splits if_splits)
qed simp

lemma load_chosen_keeps:
  "load_chosen E n l s = Some (e, t) \<Longrightarrow> J (a_ws s) (a_uid s) (a_behaviours s) \<Longrightarrow> J (a_ws t) (a_uid t) (a_behaviours t)"
proof (induction l arbitrary: s)
  case (Cons a l)
  obtain project name where a: "a = (project, name)" by force
  obtain e1 s1 where w: "whens (\<lambda>s. block_count s > 0) (bxReady E) s = (e1, s1)" by force
  have j1: "J (a_ws s1) (a_uid s1) (a_behaviours s1)"
    by (rule keeps_result [OF keeps_whens [OF keeps_bxReady] Cons.prems(2) w])
  show ?case
    using Cons.prems(1) Cons.IH j1 load_retry_keeps [OF _ j1]
    by (fastforce simp: a w split: option.splits prod.splits if_splits)
qed simp

lemma window_load_keeps:
  assumes run: "window_load E n s = Some (e, t)" and j: "J (a_ws s) (a_uid s) (a_behaviours s)"
  shows "J (a_ws t) (a_uid t) (a_behaviours t)"
proof -
  obtain e1 s1 where s1: "J (a_ws s1) (a_uid s1) (a_behaviours s1)" and t: "set_speed E s1 = (e, t)"
  proof (cases "saved_list (a_store s)")
    case (Inl m)
    then show ?thesis using run j that [of s] by (simp add: window_load_def)
  next
    case (Inr l)
    show ?thesis
    proof (cases "restore_list E n l s")
      case None
      then show ?thesis using run Inr by (simp add: window_load_def)
    next
      case (Some r)
      obtain e2 s2 where r: "r = (e2, s2)" by force
      have j2: "J (a_ws s2) (a_uid s2) (a_behaviours s2)" by (rule restore_list_keeps [OF Some [unfolded r] j])
      obtain e3 s3 where b: "bxReady E s2 = (e3, s3)" by force
      have j3: "J (a_ws s3) (a_uid s3) (a_behaviours s3)" by (rule keeps_result [OF keeps_bxReady j2 b])
      show ?thesis using run Inr Some r b j2 j3 that by (cases e2) (auto simp: window_load_def)
    qed
  qed
  then show ?thesis by (rule keeps_result [OF keeps_set_speed])
qed

lemma fromXml_keeps:
  assumes run: "fromXml E n s = Some (e, t)" and j: "J (a_ws s) (a_uid s) (a_behaviours s)"
  shows "J (a_ws t) (a_uid t) (a_behaviours t)"
proof -
  obtain e1 s1 where a: "leaveOnlyBehavioursInWspace E s = (e1, s1)" by force
  have j1: "J (a_ws s1) (a_uid s1) (a_behaviours s1)" by (rule keeps_result [OF keeps_leaveOnly j a])
  have from_file: "keeps J (seqs [whens (\<lambda>s. block_count s > 0) (bxReady E), load_files E parts,
      upd (\<lambda>s. s\<lparr>a_fileCode := []\<rparr>), hide_el E ''loader_modal''])" for parts
    by (intro keeps_files keeps_steps keep_intros keeps_frame) simp
  have chosen: "keeps J (seqs [forget_choice, hide_el E ''loader_modal'', bxReady E])"
    by (intro keeps_steps keep_intros)
  have shook: "keeps J (happens (Shook ''loader_modal''))" by (intro keep_intros)
  show ?thesis
  proof (cases e1)
    case (Some e2)
    then show ?thesis using run j1 by (simp add: fromXml_def a)
  next
    case None
    note run = run [unfolded fromXml_def a None prod.case option.case]
    show ?thesis
    proof (cases "a_fileCode s1 = []")
      case False
      then show ?thesis using run keeps_result [OF from_file j1] by simp
    next
      case nofile: True
      show ?thesis
      proof (cases "a_activesProj s1 = []")
        case True
        then show ?thesis using run nofile keeps_result [OF shook j1] by simp
      next
        case False
        obtain e2 s2 where l: "load_chosen E n (chosen s1) s1 = Some (e2, s2)"
          using run nofile False by (cases "load_chosen E n (chosen s1) s1") auto
        note j2 = load_chosen_keeps [OF l j1]
        show ?thesis using run nofile False l j2 keeps_result [OF chosen j2] by (cases e2) auto
      qed
    qed
  qed
qed

end

end
