(* ===== verification/LoadRule.thy ===== *)
theory LoadRule
  imports XmlBlocks
begin

text \<open>
  One induction rule for what loading a block does (\<open>domToBlock_\<close>), with a case for each way in
  which an element below a block is treated: it changes the block in place, it stops the loading,
  or it holds a block that is loaded and connected. The proofs about loading use it in place of
  the equations of the functions.
\<close>

text \<open>The element changes nothing, or sets the mutation, the comment or a title.\<close>

definition kid_name :: "(string \<times> string) list \<Rightarrow> string" where
  "kid_name at = js_str (map_of at ''name'')"

definition kid_title :: "loader \<Rightarrow> (string \<times> string) list \<Rightarrow> xml list \<Rightarrow> block \<Rightarrow> block res" where
  "kid_title L at cs b = setTitleValue (l_fix L (b_type b) (kid_name at) (concat (map textContent cs))) (kid_name at) b"

definition kid_changes :: "loader \<Rightarrow> string \<Rightarrow> (string \<times> string) list \<Rightarrow> xml list \<Rightarrow> block \<Rightarrow> block \<Rightarrow> bool" where
  "kid_changes L n at cs b b' \<longleftrightarrow> b' = b \<or> b' = domToMutation at b \<or> b' = set_comment (concat (map textContent cs)) b \<or>
     (js_toLowerCase n = ''title'' \<and> kid_title L at cs b = Inr b')"

text \<open>The exception is about a title, or one of those without quotation marks in a message.\<close>

definition unquoted :: "exn \<Rightarrow> bool" where
  "unquoted e \<longleftrightarrow> e = type_error \<or> (\<exists>t. e = Thrown t)"

definition kid_stops :: "loader \<Rightarrow> string \<Rightarrow> (string \<times> string) list \<Rightarrow> xml list \<Rightarrow> block \<Rightarrow> exn \<Rightarrow> bool" where
  "kid_stops L n at cs b e \<longleftrightarrow> unquoted e \<or> (js_toLowerCase n = ''title'' \<and> (\<exists>m. kid_title L at cs b = Inl m \<and> e = Error m))"

text \<open>A child is connected to an input or follows the block.\<close>

definition kid_joins :: "loader \<Rightarrow> (string \<times> string) list \<Rightarrow> block \<Rightarrow> block \<Rightarrow> block \<Rightarrow> bool" where
  "kid_joins L at b c b' \<longleftrightarrow>
     (\<exists>spot. find_input_kind (kid_name at) (b_inputs b) = Some spot \<and> attach L (kid_name at) spot c b = Inr b') \<or>
     (b_next b = NoBlock \<and> b' = set_next c b)"

lemma unquoted_simps [simp]: "unquoted type_error" "unquoted (Thrown t)"
  by (simp_all add: unquoted_def)

lemma attach_unquoted: "attach L g spot c b = Inl e \<Longrightarrow> unquoted e"
  by (auto simp: attach_def Let_def split: if_splits)

lemma load_rule [case_names Text Unknown Block Nil Junk Blank Change Stop ChildFails Misfit Child]:
  assumes Text: "\<And>L k s. P L k (Txt s) (Inr NoBlock, k)"
    and Unknown: "\<And>L k n at ks e. shape_of L (map_of at ''type'') = Inl e \<Longrightarrow>
      P L k (Elem n at ks) (Inl (Error e, [bare_block (Suc k) (case map_of at ''type'' of None \<Rightarrow> [] | Some t \<Rightarrow> t)]), Suc k)"
    and Block: "\<And>L k n at ks p r. shape_of L (map_of at ''type'') = Inr p \<Longrightarrow>
      Q L p (Suc k) ks (flag_block at (proto_block (Suc k) (case map_of at ''type'' of None \<Rightarrow> [] | Some t \<Rightarrow> t) p)) r \<Longrightarrow>
      P L k (Elem n at ks) r"
    and Nil: "\<And>L p k b. Q L p k [] b (Inr b, k)"
    and Junk: "\<And>L p k s ks b. Q L p k (Txt s # ks) b (Inl (type_error, [b]), k)"
    and Blank: "\<And>L p k s ks b r. Q L p k ks b r \<Longrightarrow> Q L p k (Txt s # ks) b r"
    and Change: "\<And>L p k n at cs ks b b' r. kid_changes L n at cs b b' \<Longrightarrow> Q L p k ks b' r \<Longrightarrow> Q L p k (Elem n at cs # ks) b r"
    and Stop: "\<And>L p k n at cs ks b e. kid_stops L n at cs b e \<Longrightarrow> Q L p k (Elem n at cs # ks) b (Inl (e, [b]), k)"
    and ChildFails: "\<And>L p k n at cs ks b e x rest k'. block_child cs = Some e \<Longrightarrow> domToBlock L k e = (Inl (x, rest), k') \<Longrightarrow>
      P L k e (Inl (x, rest), k') \<Longrightarrow> Q L p k (Elem n at cs # ks) b (Inl (x, b # rest), k')"
    and Misfit: "\<And>L p k n at cs ks b e c x k'. block_child cs = Some e \<Longrightarrow> domToBlock L k e = (Inr c, k') \<Longrightarrow>
      P L k e (Inr c, k') \<Longrightarrow> unquoted x \<Longrightarrow> Q L p k (Elem n at cs # ks) b (Inl (x, [b, c]), k')"
    and Child: "\<And>L p k n at cs ks b e c b' k' r. block_child cs = Some e \<Longrightarrow> domToBlock L k e = (Inr c, k') \<Longrightarrow>
      P L k e (Inr c, k') \<Longrightarrow> kid_joins L at b c b' \<Longrightarrow> Q L p k' ks b' r \<Longrightarrow> Q L p k (Elem n at cs # ks) b r"
  shows "P L k x (domToBlock L k x)" and "Q L p k ks b (load_kids L p k ks b)"
proof (induction L k x and L p k ks b rule: domToBlock_load_kids.induct)
  case (1 L k s)
  show ?case using Text by simp
next
  case (2 L k n at ks)
  show ?case
  proof (cases "shape_of L (map_of at ''type'')")
    case (Inl e)
    then show ?thesis using Unknown by (simp add: domToBlock.simps(2))
  next
    case (Inr p)
    then show ?thesis using Block [OF Inr "2.IH" [OF refl Inr]] by (simp add: domToBlock.simps(2))
  qed
next
  case (3 L p k b)
  show ?case using Nil by simp
next
  case (4 L p k s ks b)
  then show ?case using Junk Blank by simp
next
  case (5 L p k n at cs ks b)
  define g where "g = js_str (map_of at ''name'')"
  define tag where "tag = js_toLowerCase n"
  note IH = "5.IH" [OF g_def tag_def]
  note run = load_kids.simps(3) [of L p k n at cs ks b, folded g_def tag_def, unfolded Let_def]
  have g: "kid_name at = g" by (simp add: kid_name_def g_def)
  have child: ?case
    if step: "load_kids L p k (Elem n at cs # ks) b = (case domToBlock L k e of
        (Inl (x, rest), k') \<Rightarrow> (Inl (x, b # rest), k')
      | (Inr c, k') \<Rightarrow> (case f c of Inl x \<Rightarrow> (Inl (x, [b, c]), k') | Inr b' \<Rightarrow> load_kids L p k' ks b'))"
      and e: "block_child cs = Some e" "P L k e (domToBlock L k e)"
      and bad: "\<And>c x. f c = Inl x \<Longrightarrow> unquoted x" and good: "\<And>c b'. f c = Inr b' \<Longrightarrow> kid_joins L at b c b'"
      and more: "\<And>c k' b'. domToBlock L k e = (Inr c, k') \<Longrightarrow> f c = Inr b' \<Longrightarrow> Q L p k' ks b' (load_kids L p k' ks b')"
    for e and f :: "block \<Rightarrow> exn + block"
  proof -
    obtain r k' where d: "domToBlock L k e = (r, k')" by force
    show ?thesis
    proof (cases r)
      case (Inl a)
      obtain x rest where a: "a = (x, rest)" by force
      show ?thesis using ChildFails [OF e(1) d [unfolded Inl a]] e(2) step d Inl a by simp
    next
      case (Inr c)
      show ?thesis
      proof (cases "f c")
        case (Inl x)
        then show ?thesis using Misfit [OF e(1) d [unfolded \<open>r = Inr c\<close>] _ bad [OF Inl]] e(2) step d \<open>r = Inr c\<close> by simp
      next
        case (Inr b')
        then show ?thesis
          using Child [OF e(1) d [unfolded \<open>r = Inr c\<close>] _ good [OF Inr] more [OF d [unfolded \<open>r = Inr c\<close>] Inr]] e(2) step d \<open>r = Inr c\<close>
          by simp
      qed
    qed
  qed
  consider "tag = ''mutation''" | "tag = ''comment''" | "tag = ''title''" | "tag = ''value'' \<or> tag = ''statement''"
    | "tag = ''next''" | "tag \<notin> {''mutation'', ''comment'', ''title'', ''value'', ''statement'', ''next''}"
    by (simp only: insert_iff empty_iff) argo
  then show ?case
  proof cases
    case 1
    then show ?thesis using Change [OF _ IH(1), of n at cs b] run by (auto simp: kid_changes_def split: if_splits)
  next
    case 2
    then show ?thesis using Change [OF _ IH(2), of n at cs b] run by (simp add: kid_changes_def)
  next
    case 3
    show ?thesis
    proof (cases "kid_title L at cs b")
      case (Inl m)
      then show ?thesis using Stop [of L n at cs b "Error m"] 3 run by (simp add: kid_stops_def kid_title_def g tag_def)
    next
      case (Inr b')
      then show ?thesis using Change [OF _ IH(3), of n at cs b] 3 run by (simp add: kid_changes_def kid_title_def g tag_def)
    qed
  next
    case 4
    then have n: "tag \<noteq> ''mutation''" "tag \<noteq> ''comment''" "tag \<noteq> ''title''" by auto
    show ?thesis
    proof (cases "find_input_kind g (b_inputs b)")
      case None
      then show ?thesis using Stop [of L n at cs b "Thrown (''Input does not exist: '' @ g)"] 4 n run by (simp add: kid_stops_def)
    next
      case spot: (Some spot)
      show ?thesis
      proof (cases "block_child cs")
        case None
        then show ?thesis using Change [OF _ IH(4), of n at cs b] 4 n run spot by (simp add: kid_changes_def)
      next
        case (Some e)
        show ?thesis
          by (rule child [where e = e and f = "\<lambda>c. attach L g spot c b"])
            (use 4 n run spot Some IH(5,6) g attach_unquoted in \<open>auto simp: kid_joins_def\<close>)
      qed
    qed
  next
    case 5
    then have n: "tag \<noteq> ''mutation''" "tag \<noteq> ''comment''" "tag \<noteq> ''title''" "tag \<noteq> ''value''" "tag \<noteq> ''statement''" by auto
    show ?thesis
    proof (cases "block_child cs")
      case None
      then show ?thesis using Change [OF _ IH(7), of n at cs b] 5 n run by (simp add: kid_changes_def)
    next
      case (Some e)
      show ?thesis
      proof (cases "p_next p \<and> b_next b = NoBlock")
        case False
        then show ?thesis
          using Stop [of L n at cs b "Thrown ''Next statement does not exist.''"]
            Stop [of L n at cs b "Thrown ''Next statement is already connected.''"] 5 n run Some
          by (auto simp: kid_stops_def)
      next
        case True
        show ?thesis
          by (rule child [where e = e and f = "\<lambda>c. if has_prev L (b_type c) then Inr (set_next c b) else Inl (Thrown ''Next block does not have previous statement.'')"])
            (use 5 n run True Some IH(8,9) in \<open>auto simp: kid_joins_def split: if_splits prod.splits sum.splits\<close>)
      qed
    qed
  next
    case 6
    then show ?thesis using Change [OF _ IH(10), of n at cs b] run by (simp add: kid_changes_def)
  qed
qed

end
