(* ===== verification/UniqueIds.thy ===== *)
theory UniqueIds
  imports PageInvariant LoadRule "HOL-Library.Multiset"
begin

text \<open>
  The two invariants of the page. Numbers are unique: no two blocks of the workspace and no two
  behaviours of the list share one, and none is above the counter, whatever is loaded, even half
  way. And every entry of the list is a document the parser reads, so that it can come back. The
  first half shows what loading a document does to the numbers.
\<close>

subsection \<open>Numbers of loaded blocks\<close>

definition ids :: "block \<Rightarrow> nat list" where
  "ids b = map b_id (getDescendants b)"

definition all_ids :: "block list \<Rightarrow> nat list" where
  "all_ids bs = concat (map ids bs)"

lemma mset_children: "b \<noteq> NoBlock \<Longrightarrow> mset (getDescendants b) = add_mset b (mset (concat (map getDescendants (getChildren b))))"
proof (cases b)
  case (Block i ty ti mu ins nx fl cm)
  have "mset (concat (map input_descendants ins)) = mset (concat (map getDescendants (non_null (map i_target ins))))"
  proof (induction ins)
    case (Cons j ins)
    then show ?case by (cases j) (auto simp: non_null_def)
  qed (simp add: non_null_def)
  then show ?thesis using Block by (auto simp: non_null_def)
qed simp

lemma mset_getAllBlocks: "mset (getAllBlocks bs) = mset (concat (map getDescendants bs))"
  by (induction bs rule: getAllBlocks.induct) (auto simp: mset_children)

lemma descendants_input: "input_descendants i = getDescendants (i_target i)"
  by (cases i) simp

definition ids_within :: "nat \<Rightarrow> nat \<Rightarrow> nat list \<Rightarrow> bool" where
  "ids_within k k' l \<longleftrightarrow> distinct l \<and> set l \<subseteq> {k<..k'}"

lemma ids_simps [simp]:
  "ids NoBlock = []"
  "ids (Block i ty ti mu ins nx fl cm) = i # all_ids (map i_target ins) @ ids nx"
proof -
  have "map b_id (input_descendants i) = ids (i_target i)" for i by (cases i) (simp add: ids_def)
  then show "ids (Block i ty ti mu ins nx fl cm) = i # all_ids (map i_target ins) @ ids nx"
    by (simp add: ids_def all_ids_def map_concat o_def)
qed (simp add: ids_def)

lemma all_ids_simps [simp]: "all_ids [] = []" "all_ids (b # bs) = ids b @ all_ids bs" "all_ids (xs @ ys) = all_ids xs @ all_ids ys"
  by (simp_all add: all_ids_def)

lemma ids_within_simps [simp]: "ids_within k k' []" "ids_within k (Suc k) [Suc k]"
  by (simp_all add: ids_within_def)

lemma ids_within_mono: "ids_within k k1 l \<Longrightarrow> k' \<le> k \<Longrightarrow> k1 \<le> k1' \<Longrightarrow> ids_within k' k1' l"
  by (auto simp: ids_within_def)

lemma ids_within_sub: "ids_within k k' l \<Longrightarrow> mset l' \<subseteq># mset l \<Longrightarrow> ids_within k k' l'"
proof -
  assume l: "ids_within k k' l" and "mset l' \<subseteq># mset l"
  then obtain r where "mset l = mset (l' @ r)" by (metis ex_mset mset_append mset_subset_eq_exists_conv)
  then have "distinct l \<longleftrightarrow> distinct (l' @ r)" "set l = set (l' @ r)"
    by (rule mset_eq_imp_distinct_iff, rule mset_eq_setD)
  then show ?thesis using l by (auto simp: ids_within_def)
qed

lemma ids_within_append: "ids_within k k1 l \<Longrightarrow> ids_within k1 k2 l' \<Longrightarrow> k \<le> k1 \<Longrightarrow> k1 \<le> k2 \<Longrightarrow> ids_within k k2 (l @ l')"
  unfolding ids_within_def by (force simp: subset_iff)

text \<open>The steps of loading do not change a block's numbers, or add those of a child.\<close>

lemma ids_steps [simp]:
  "ids (set_comment s b) = ids b" "ids (plug_block out b) = ids b" "ids (flag_block at b) = ids b"
  by (cases b; simp add: set_comment_def plug_block_def flag_block_def)+

lemma all_ids_fresh_inputs [simp]: "all_ids (map i_target (concat (map (\<lambda>x. elseif_inputs x NoBlock NoBlock) xs))) = []"
  by (induction xs) (simp_all add: elseif_inputs_def)

lemma ids_domToMutation [simp]: "ids (domToMutation at b) = ids b"
  by (cases b) (simp_all add: domToMutation_def set_inputs_def Let_def else_input_def del: upt_Suc)

lemma ids_setTitleValue: "setTitleValue v n b = Inr b' \<Longrightarrow> ids b' = ids b"
  by (cases b) (auto simp: setTitleValue_def split: option.splits)

lemma ids_proto_block [simp]: "ids (proto_block i ty p) = [i]"
  by (simp add: proto_block_def all_ids_def o_def)

lemma ids_fill:
  "find_input_kind g ins = Some (kd, NoBlock) \<Longrightarrow>
   mset (all_ids (map i_target (fill_input g c ins))) = mset (all_ids (map i_target ins)) + mset (ids c)"
  by (induction g ins rule: find_input_kind.induct) (auto split: if_splits)

lemma ids_attach:
  assumes "find_input_kind g (b_inputs b) = Some spot" and "attach L g spot c b = Inr b'"
  shows "mset (ids b') \<subseteq># mset (ids b @ ids c)"
proof (cases b)
  case (Block i ty ti mu ins nx fl cm)
  have "find_input_kind g ins = Some (fst spot, NoBlock)"
    using assms Block by (cases spot) (auto simp: attach_def Let_def split: if_splits)
  note fill = ids_fill [OF this, of "plug_block (has_out L (b_type c)) c"]
  have "b' = Block i ty ti mu (fill_input g (plug_block (has_out L (b_type c)) c) ins) nx fl cm"
    using assms(2) Block by (auto simp: attach_def set_inputs_def Let_def split: if_splits)
  then show ?thesis using Block fill by simp
qed (use assms in \<open>auto simp: attach_def set_inputs_def Let_def split: if_splits\<close>)

lemma ids_set_next: "b_next b = NoBlock \<Longrightarrow> mset (ids (set_next c b)) \<subseteq># mset (ids b @ ids c)"
  by (cases b) (auto simp: set_next_def)

definition loaded_within :: "nat \<Rightarrow> block loading \<Rightarrow> bool" where
  "loaded_within k r \<longleftrightarrow> ids_within k (snd r) (case fst r of Inr b \<Rightarrow> ids b | Inl (e, bs) \<Rightarrow> all_ids bs)"

lemma loaded_withinI [simp]:
  "loaded_within k (Inr b, k') \<longleftrightarrow> ids_within k k' (ids b)"
  "loaded_within k (Inl (e, bs), k') \<longleftrightarrow> ids_within k k' (all_ids bs)"
  by (simp_all add: loaded_within_def)

lemma loaded_step:
  assumes "mset l' \<subseteq># mset (l @ lc)" and "ids_within k0 k l" and "ids_within k k1 lc" and "k0 \<le> k" and "k \<le> k1"
  shows "ids_within k0 k1 l'"
  using ids_within_sub [OF ids_within_append [OF assms(2-5)] assms(1)] .

lemma ids_change: "kid_changes L n at cs b b' \<Longrightarrow> ids b' = ids b"
  by (auto simp: kid_changes_def kid_title_def dest: ids_setTitleValue)

lemma ids_join: "kid_joins L at b c b' \<Longrightarrow> mset (ids b') \<subseteq># mset (ids b @ ids c)"
  using ids_attach ids_set_next by (auto simp: kid_joins_def)

definition block_ids_ok :: "nat \<Rightarrow> block loading \<Rightarrow> bool" where
  "block_ids_ok k r \<longleftrightarrow> k \<le> snd r \<and> loaded_within k r"

definition kids_ids_ok :: "nat \<Rightarrow> block \<Rightarrow> block loading \<Rightarrow> bool" where
  "kids_ids_ok k b r \<longleftrightarrow> k \<le> snd r \<and> (\<forall>k0 \<le> k. ids_within k0 k (ids b) \<longrightarrow> loaded_within k0 r)"

lemma kids_ids_child:
  assumes c: "block_ids_ok k (Inr c, k')" and j: "kid_joins L at b c b'" and r: "kids_ids_ok k' b' r"
  shows "kids_ids_ok k b r"
  unfolding kids_ids_ok_def
proof (intro conjI allI impI)
  have k: "k \<le> k'" "ids_within k k' (ids c)" using c by (simp_all add: block_ids_ok_def)
  show "k \<le> snd r" using k(1) r by (simp add: kids_ids_ok_def)
  fix k0 :: nat
  assume k0: "k0 \<le> k" "ids_within k0 k (ids b)"
  have "ids_within k0 k' (ids b')" by (rule loaded_step [OF ids_join [OF j] k0(2) k(2) k0(1) k(1)])
  then show "loaded_within k0 r" using r le_trans [OF k0(1) k(1)] by (simp add: kids_ids_ok_def)
qed

lemma domToBlock_ids:
  "block_ids_ok k (domToBlock L k x)"
  "kids_ids_ok k b (load_kids L p k ks b)"
proof (induction L k x and L p k ks b rule: load_rule [where P = "\<lambda>L k x r. block_ids_ok k r" and Q = "\<lambda>L p k ks b r. kids_ids_ok k b r"])
  case (Block L k n at ks p r)
  have "ids_within k (Suc k) (ids (flag_block at (proto_block (Suc k) ty p)))" for ty by (simp add: ids_within_def)
  then show ?case using Block by (simp add: block_ids_ok_def kids_ids_ok_def)
next
  case (Change L p k n at cs ks b b' r)
  then show ?case by (simp add: kids_ids_ok_def ids_change)
next
  case (Child L p k n at cs ks b e c b' k' r)
  show ?case by (rule kids_ids_child [OF Child(3-5)])
qed (auto simp: block_ids_ok_def kids_ids_ok_def bare_block_def intro: ids_within_append)

text \<open>A whole document.\<close>

lemma load_tops_ids:
  "load_tops L V k xs ws = (e, ws', k') \<Longrightarrow>
   k \<le> k' \<and> (\<exists>new. ws' = ws @ new \<and> ids_within k k' (all_ids (map fst new)))"
proof (induction L V k xs ws arbitrary: e ws' k' rule: load_tops.induct)
  case (1 L V k ws)
  then show ?case by (simp add: ids_within_def)
next
  case (2 L V k s xs ws)
  then show ?case by simp
next
  case (3 L V k n at cs xs ws)
  show ?case
  proof (cases "js_toLowerCase n = ''block''")
    case False
    then show ?thesis using 3 by simp
  next
    case True
    obtain r k1 where d: "domToBlock L k (Elem n at cs) = (r, k1)" by force
    have r: "k \<le> k1" "loaded_within k (r, k1)" using domToBlock_ids(1) [of k L "Elem n at cs"] d by (simp_all add: block_ids_ok_def)
    show ?thesis
    proof (cases r)
      case (Inl a)
      then show ?thesis using 3(3) True d r by (cases a) (auto simp: o_def)
    next
      case (Inr b)
      have "load_tops L V k1 xs (ws @ [(b, position_of V (Elem n at cs))]) = (e, ws', k')"
        using 3(3) True d Inr by simp
      then obtain new where new: "k1 \<le> k'" "ws' = ws @ (b, position_of V (Elem n at cs)) # new"
          "ids_within k1 k' (all_ids (map fst new))"
        using 3(1) [OF True d [symmetric] Inr] by auto
      then show ?thesis using ids_within_append [of k k1 "ids b" k'] r Inr by (auto simp: intro!: exI)
    qed
  qed
qed

lemma domToWorkspace_ids:
  "domToWorkspace L V x (ws, k) = (e, ws', k') \<Longrightarrow>
   k \<le> k' \<and> (\<exists>new. ws' = ws @ new \<and> ids_within k k' (all_ids (map fst new)))"
  by (cases x) (auto simp: domToWorkspace_def ids_within_def dest: load_tops_ids)

subsection \<open>Changes in place\<close>

lemma ids_set_flags [simp]: "ids (set_flags g b) = ids b"
  by (cases b) (simp_all add: set_flags_def)

lemma ids_map_block:
  "ids (map_block (\<lambda>b. set_flags (g b) b) b) = ids b"
  "ids (i_target (map_input (\<lambda>b. set_flags (g b) b) i)) = ids (i_target i)"
proof (induction b and i)
  case (Block i ty ti mu ins nx fl cm)
  have "all_ids (map (\<lambda>x. i_target (map_input (\<lambda>b. set_flags (g b) b) x)) ins) = all_ids (map i_target ins)"
    using Block.IH(1) by (induction ins) simp_all
  then show ?case using Block.IH(2) by (simp add: o_def)
qed simp_all

lemma all_ids_filter: "mset (all_ids (map fst (filter P ws))) \<subseteq># mset (all_ids (map fst ws))"
  by (induction ws) (auto intro: subset_mset.add_mono subset_mset.add_increasing)

subsection \<open>The interpretations\<close>

definition unique_ids :: "top list \<Rightarrow> nat \<Rightarrow> behaviour list \<Rightarrow> bool" where
  "unique_ids ws k bxs \<longleftrightarrow> ids_within 0 k (all_ids (map fst ws) @ map bx_id bxs)"

lemma unique_ids_sub:
  "unique_ids ws k bxs \<Longrightarrow> mset (all_ids (map fst ws')) + mset (map bx_id bxs') \<subseteq># mset (all_ids (map fst ws)) + mset (map bx_id bxs) \<Longrightarrow>
   unique_ids ws' k bxs'"
  unfolding unique_ids_def by (erule ids_within_sub) simp

lemma splice1_sub: "mset (splice1 i xs) \<subseteq># mset xs"
proof -
  have "mset xs = mset (take i xs) + mset (drop i xs)" by (metis append_take_drop_id mset_append)
  moreover have "mset (drop (Suc 0) ys) \<subseteq># mset ys" for ys :: "'a list" by (cases ys) simp_all
  from this [of "drop i xs"] have "mset (drop (Suc i) xs) \<subseteq># mset (drop i xs)" by simp
  ultimately show ?thesis by (simp add: splice1_def)
qed

interpretation numbers: page_invariant E unique_ids for E :: env
proof (unfold_locales, goal_cases)
  case (1 ws k bxs P)
  then show ?case by (rule unique_ids_sub) (simp add: all_ids_filter)
next
  case (2 b xy ws k bxs n m)
  have "b_id b \<in># mset (ids b)" using 2(2) by (cases b) (simp_all add: is_behaviour_def)
  then show ?case using 2(1) by (elim unique_ids_sub) (auto simp: subset_mset.add_increasing2 single_subset_iff)
next
  case (3 ws k bxs i)
  have "mset (map bx_id (splice1 i bxs)) \<subseteq># mset (map bx_id bxs)"
    unfolding mset_map by (rule image_mset_subseteq_mono) (rule splice1_sub)
  then show ?case using 3 by (elim unique_ids_sub) simp
next
  case (4 ws k bxs)
  then show ?case by (elim unique_ids_sub) simp
next
  case (5 ws k bxs L x e ws' k')
  obtain new where "k \<le> k'" "ws' = ws @ new" "ids_within k k' (all_ids (map fst new))"
    using domToWorkspace_ids [OF 5(2)] by blast
  then have "ids_within 0 k' ((all_ids (map fst ws) @ map bx_id bxs) @ all_ids (map fst new))" and ws': "ws' = ws @ new"
    using ids_within_append [of 0 k _ k'] 5(1) by (auto simp: unique_ids_def simp del: append_assoc)
  then show ?case unfolding unique_ids_def by (elim ids_within_sub) (simp add: ws')
next
  case (6 ws k bxs g)
  then show ?case by (simp add: unique_ids_def all_ids_def o_def split_def ids_map_block)
next
  case (7 b xy ws k bxs v n b')
  then show ?case by (simp add: unique_ids_def ids_setTitleValue)
next
  case (8 b xy ws k bxs xy')
  then show ?case by (simp add: unique_ids_def)
qed

text \<open>There is always a block where a list of blocks has one.\<close>

lemma kept_block [simp]:
  "set_comment s b = NoBlock \<longleftrightarrow> b = NoBlock" "set_next c b = NoBlock \<longleftrightarrow> b = NoBlock"
  "flag_block at b = NoBlock \<longleftrightarrow> b = NoBlock" "domToMutation at b = NoBlock \<longleftrightarrow> b = NoBlock"
  "set_flags g b = NoBlock \<longleftrightarrow> b = NoBlock" "set_inputs ins mu b = NoBlock \<longleftrightarrow> b = NoBlock"
  by (cases b; simp add: set_comment_def set_next_def flag_block_def domToMutation_def set_inputs_def set_flags_def Let_def)+

lemma setTitleValue_block: "setTitleValue v n b = Inr b' \<Longrightarrow> b' \<noteq> NoBlock"
  by (cases b) (auto simp: setTitleValue_def split: option.splits)

lemma attach_block: "attach L g spot c b = Inr b' \<Longrightarrow> b \<noteq> NoBlock \<Longrightarrow> b' \<noteq> NoBlock"
  by (auto simp: attach_def Let_def split: if_splits)

definition real_load :: "block loading \<Rightarrow> bool" where
  "real_load r \<longleftrightarrow> (case fst r of Inr b \<Rightarrow> b \<noteq> NoBlock | Inl (e, bs) \<Rightarrow> NoBlock \<notin> set bs)"

lemma real_loadI [simp]:
  "real_load (Inr b, k) \<longleftrightarrow> b \<noteq> NoBlock" "real_load (Inl (e, bs), k) \<longleftrightarrow> NoBlock \<notin> set bs"
  by (simp_all add: real_load_def)

lemma block_child_elem: "block_child ks = Some x \<Longrightarrow> elem x"
  by (auto simp: block_child_def split: list.splits xml.splits if_splits)

lemma real_change: "kid_changes L n at cs b b' \<Longrightarrow> b \<noteq> NoBlock \<Longrightarrow> b' \<noteq> NoBlock"
  unfolding kid_changes_def kid_title_def by (metis kept_block(1,4) setTitleValue_block)

lemma real_join: "kid_joins L at b c b' \<Longrightarrow> b \<noteq> NoBlock \<Longrightarrow> b' \<noteq> NoBlock"
  unfolding kid_joins_def by (metis kept_block(2) attach_block)

lemma domToBlock_real:
  "elem x \<longrightarrow> real_load (domToBlock L k x)"
  "b \<noteq> NoBlock \<longrightarrow> real_load (load_kids L p k ks b)"
proof (induction L k x and L p k ks b rule: load_rule [where P = "\<lambda>L k x r. elem x \<longrightarrow> real_load r"
      and Q = "\<lambda>L p k ks b r. b \<noteq> NoBlock \<longrightarrow> real_load r"])
  case (ChildFails L p k n at cs ks b e x rest k')
  then show ?case using block_child_elem by auto
next
  case (Misfit L p k n at cs ks b e c x k')
  then show ?case using block_child_elem by auto
qed (auto simp: elem_def bare_block_def proto_block_def dest: real_change real_join)

definition no_null :: "top list \<Rightarrow> bool" where
  "no_null ws \<longleftrightarrow> list_all (\<lambda>t. fst t \<noteq> NoBlock) ws"

lemma load_tops_real: "load_tops L V k xs ws = (e, ws', k') \<Longrightarrow> no_null ws \<Longrightarrow> no_null ws'"
proof (induction L V k xs ws arbitrary: e ws' k' rule: load_tops.induct)
  case (3 L V k n at cs xs ws)
  show ?case
  proof (cases "js_toLowerCase n = ''block''")
    case False
    then show ?thesis using 3 by simp
  next
    case True
    obtain r k1 where d: "domToBlock L k (Elem n at cs) = (r, k1)" by force
    have r: "real_load (r, k1)" using domToBlock_real(1) [of "Elem n at cs" L k] d by simp
    show ?thesis
    proof (cases r)
      case (Inl a)
      then show ?thesis using 3(3,4) True d r by (cases a) (auto simp: no_null_def list_all_iff)
    next
      case (Inr b)
      then show ?thesis
        using 3(1) [OF True d [symmetric] Inr, of e ws' k'] 3(3,4) True d r by (simp add: no_null_def)
    qed
  qed
qed simp_all

definition texts_parse :: "top list \<Rightarrow> nat \<Rightarrow> behaviour list \<Rightarrow> bool" where
  "texts_parse ws k bxs \<longleftrightarrow> no_null ws \<and> list_all (\<lambda>x. \<exists>d. textToDom (bx_text x) = Inr d) bxs"

interpretation texts: page_invariant E texts_parse for E :: env
proof (unfold_locales, goal_cases)
  case (2 b xy ws k bxs n m)
  then show ?case using workspace_text_parses [of "(b, xy) # ws"] by (simp add: texts_parse_def no_null_def)
next
  case (3 ws k bxs i)
  then show ?case by (auto simp: texts_parse_def list_all_iff splice1_def dest: in_set_takeD in_set_dropD)
next
  case (5 ws k bxs L x e ws' k')
  then show ?case by (cases x) (auto simp: texts_parse_def domToWorkspace_def dest: load_tops_real)
next
  case (6 ws k bxs g)
  have "map_block (\<lambda>b. set_flags (g b) b) b \<noteq> NoBlock" if "b \<noteq> NoBlock" for b
    using that by (cases b) simp_all
  then show ?case using 6 by (auto simp: texts_parse_def no_null_def list_all_iff)
next
  case (7 b xy ws k bxs v n b')
  then show ?case using setTitleValue_block by (auto simp: texts_parse_def no_null_def)
qed (auto simp: texts_parse_def no_null_def list_all_iff)

end
