(* ===== verification/Page.thy ===== *)
theory Page
  imports Language UniqueIds
begin

text \<open>
  The page as a whole: what the user presses (the handlers written in \<open>bodies/*.html\<close>), the timers,
  the answers of the server and the editing of the workspace, as one step relation. The theorems
  hold in every state the page can reach.
\<close>

subsection \<open>Events\<close>

datatype answer = Content string | Projects "project list" | Names "string list" | NoAnswer string

datatype event =
    Start \<comment> \<open>\<open>$(window).load\<close>\<close>
  | Press string
  | PressBehaviour nat \<comment> \<open>an entry of \<open>#bx_list\<close>\<close>
  | PressTab nat
  | ChooseFile "string option"
  | ChooseBehaviours string "string list option"
  | ChooseProject string
  | MoveSpeed
  | AnswerConfirm bool \<comment> \<open>pressing \<open>btn_deleteDBBxs\<close> and answering its question\<close>
  | WorkspaceChanged
  | Fire nat \<comment> \<open>a pending timer\<close>
  | Reply nat answer \<comment> \<open>a pending request\<close>

definition plain :: "act \<Rightarrow> fact" where
  "plain a s = Some (a s)"

text \<open>The attributes \<open>onclick\<close>, and the buttons that restore.\<close>

definition onclick :: "env \<Rightarrow> (string \<times> act) list" where
  "onclick E = [
     (''btn_load'', openFileChooser E),
     (''btn_save'', toXml E),
     (''btn_robotest'', robotest E),
     (''btn_run'', runTasks E),
     (''btn_edit'', edit E),
     (''btn_debug'', debug E),
     (''btn_bx_ready'', bxReady E),
     (''btn_stop'', killTasks E),
     (''btn_lang'', changeLanguage E),
     (''btn_trash'', openDeleteModal E),
     (''btn_back'', goBack E),
     (''btn_speed'', show_el E ''speed_modal''),
     (''close'', closeEditor),
     (''btn_save2'', saveEditedCode E),
     (''btn_run2'', runEditedTasks E),
     (''btn_remote_loader'', loadBxs E False),
     (''btn_remote_proj'', loadProj E),
     (''btn_openproj'', projectSaver E),
     (''btn_delete_workspace'', discard E ''Workspace''),
     (''btn_delete_all'', discard E ''All''),
     (''btn_error_detail'', seqs [show_el E ''edition_error_detail'', hide_el E ''btn_error_detail'']),
     (''edition_error_ok'', closeEditionError E)]"

definition press :: "env \<Rightarrow> nat \<Rightarrow> string \<Rightarrow> fact" where
  "press E n i s =
     (if \<not> a_armed s i then Some (None, s)
      else if i = ''btn_openfile'' then fromXml E n s
      else (case map_of (onclick E) i of None \<Rightarrow> Some (None, s) | Some a \<Rightarrow> Some (a s)))"

definition rearm :: "string \<Rightarrow> act" where
  "rearm i = upd (\<lambda>s. s\<lparr>a_armed := (a_armed s)(i := True)\<rparr>)"

definition fire :: "env \<Rightarrow> timer \<Rightarrow> act" where
  "fire E t = (case t of
     Rearm i \<Rightarrow> rearm i
   | ClearMessage \<Rightarrow> fire_ClearMessage E
   | PlaceTop \<Rightarrow> fire_PlaceTop E
   | ClickRun \<Rightarrow> whens (\<lambda>s. a_armed s ''btn_run'') (runTasks E)
   | SelectBlock n \<Rightarrow> fire_SelectBlock n
   | ResizeWindow \<Rightarrow> happens ResizedWindow
   | PollResults \<Rightarrow> fire_PollResults E
   | DebugPoll \<Rightarrow> fire_DebugPoll E
   | RefreshBlocks \<Rightarrow> fire_RefreshBlocks)"

text \<open>A failed poll is repeated; other failures show nothing but a missing user number.\<close>

definition reply :: "env \<Rightarrow> request \<Rightarrow> answer \<Rightarrow> act" where
  "reply E r a = (case (r, a) of
     (InitReq, Content _) \<Rightarrow> tasks_reply E
   | (TestReq, Content _) \<Rightarrow> tasks_reply E
   | (KillReq, Content _) \<Rightarrow> killTasks_reply E
   | (SaveReq block newborn n names, Content c) \<Rightarrow> saveTask_reply E block newborn n names c
   | (LoadBxsReq close, Projects data) \<Rightarrow> loadBxs_reply E close data
   | (DeleteBxsReq, Content _) \<Rightarrow> deleteDatabaseBxs_reply E
   | (PollReq, Content html) \<Rightarrow> pollResults_reply E html
   | (PollReq, _) \<Rightarrow> pollResults_error
   | (PollDebugReq, Content html) \<Rightarrow> debugPoll_reply E html
   | (PollDebugReq, _) \<Rightarrow> call_debugPoll
   | (RefreshReq, Content c) \<Rightarrow> refreshBlocks_reply E c
   | (RefreshReq, _) \<Rightarrow> call_refreshBlocksPoll
   | (LoadProjsReq, Names projs) \<Rightarrow> loadProj_reply E projs
   | (SaveTempReq fileName, Content _) \<Rightarrow> saveTempLocal_reply fileName
   | (UserIdReq, Content html) \<Rightarrow> requestUserId_reply E html
   | (UserIdReq, NoAnswer err) \<Rightarrow> requestUserId_error err
   | _ \<Rightarrow> skip)"

definition handle :: "env \<Rightarrow> nat \<Rightarrow> event \<Rightarrow> fact" where
  "handle E n ev s = (case ev of
     Start \<Rightarrow> window_load E n s
   | Press i \<Rightarrow> press E n i s
   | PressBehaviour i \<Rightarrow> Some (whens (\<lambda>s. i \<in> set (map fst (a_items s))) (bxToWorkspace E i) s)
   | PressTab i \<Rightarrow> Some (switchTabs i s)
   | ChooseFile f \<Rightarrow> Some (readFile f s)
   | ChooseBehaviours p sel \<Rightarrow> Some (BxsChangeSelection p sel s)
   | ChooseProject p \<Rightarrow> Some (ProjChangeSelection p s)
   | MoveSpeed \<Rightarrow> Some (SpeedChange s)
   | AnswerConfirm yes \<Rightarrow> Some (deleteDatabaseBxs yes s)
   | WorkspaceChanged \<Rightarrow> Some (change E s)
   | Fire i \<Rightarrow> (if i < length (a_timers s) then Some (fire E (snd (a_timers s ! i)) (s\<lparr>a_timers := splice1 i (a_timers s)\<rparr>))
              else Some (None, s))
   | Reply i a \<Rightarrow> (if i < length (a_requests s)
              then Some (reply E (fst (a_requests s ! i)) a (s\<lparr>a_requests := splice1 i (a_requests s)\<rparr>))
              else Some (None, s)))"

subsection \<open>Steps\<close>

text \<open>
  What the user can do to the workspace with Blockly: move, connect, change and delete blocks, and
  add new ones, which take numbers above the counter. Disposing of a block in test mode kills the
  tests first (\<open>disposeUiEffect\<close>).
\<close>

definition edit_ok :: "top list \<Rightarrow> nat \<Rightarrow> top list \<Rightarrow> nat \<Rightarrow> bool" where
  "edit_ok ws k ws' k' \<longleftrightarrow> k \<le> k' \<and> no_null ws' \<and>
     (\<exists>new. ids_within k k' new \<and> mset (all_ids (map fst ws')) \<subseteq># mset (all_ids (map fst ws) @ new))"

inductive page_step :: "env \<Rightarrow> app \<Rightarrow> app \<Rightarrow> bool" for E where
  handled: "handle E n ev s = Some (e, t) \<Longrightarrow> page_step E s t"
| edited: "edit_ok (a_ws s) (a_uid s) ws k \<Longrightarrow> page_step E s (s\<lparr>a_ws := ws, a_uid := k, a_selected := sel\<rparr>)"
| disposing: "a_testMode s \<Longrightarrow> killTasks E s = (e, t) \<Longrightarrow> page_step E s t"

text \<open>The page after some events, from a new one with whatever storage, cookies and address.\<close>

inductive reachable :: "env \<Rightarrow> app \<Rightarrow> bool" for E where
  opened: "reachable E (new_page cats missing lang url st j)"
| stepped: "reachable E s \<Longrightarrow> page_step E s t \<Longrightarrow> reachable E t"

subsection \<open>Every step keeps what the parts keep\<close>

context page_invariant
begin

lemma keeps_server: "keeps J (SpeedChange)" "keeps J (deleteDatabaseBxs b)" "keeps J (loadBxs E c)" "keeps J (loadProj E)"
    "keeps J (projectSaver E)" "keeps J fire_RefreshBlocks" "keeps J (fire_ClearMessage E)" "keeps J (openFileChooser E)"
    "keeps J call_pollResults" "keeps J call_debugPoll" "keeps J call_refreshBlocksPoll"
  unfolding SpeedChange_def deleteDatabaseBxs_def loadBxs_def loadProj_def projectSaver_def fire_RefreshBlocks_def
    fire_ClearMessage_def openFileChooser_def call_pollResults_def call_debugPoll_def call_refreshBlocksPoll_def
  by (intro keep_intros; auto intro!: keeps_frame)+

lemma keeps_language: "keeps J (changeLanguage E)"
  unfolding changeLanguage_def by (intro keep_intros keeps_frame) simp

lemma core_choose_item:
  "a_ws (fold (choose_item p) vs s) = a_ws s \<and> a_uid (fold (choose_item p) vs s) = a_uid s \<and>
   a_behaviours (fold (choose_item p) vs s) = a_behaviours s"
  by (induction vs arbitrary: s) (auto simp: choose_item_def)

lemma keeps_choices: "keeps J (BxsChangeSelection p sel)" "keeps J (ProjChangeSelection p)" "keeps J (rearm i)"
  unfolding BxsChangeSelection_def ProjChangeSelection_def rearm_def
  by (intro keep_intros keeps_frame; simp add: core_choose_item)+

lemma keeps_closeError: "keeps J (closeEditionError E)"
  unfolding closeEditionError_def by (intro keeps_goBack keep_intros)

lemma keeps_replies: "keeps J (tasks_reply E)" "keeps J (killTasks_reply E)" "keeps J (loadBxs_reply E c data)"
    "keeps J (deleteDatabaseBxs_reply E)" "keeps J pollResults_error" "keeps J (loadProj_reply E projs)"
    "keeps J (saveTempLocal_reply n)" "keeps J (requestUserId_reply E html)" "keeps J (requestUserId_error html)"
  unfolding tasks_reply_def killTasks_reply_def loadBxs_reply_def deleteDatabaseBxs_reply_def pollResults_error_def
    loadProj_reply_def saveTempLocal_reply_def requestUserId_reply_def requestUserId_error_def
  by (intro keeps_server keep_intros; auto intro!: keeps_frame)+

lemma keeps_reply: "keeps J (reply E r a)"
  unfolding reply_def
  by (cases r; cases a; simp; intro keeps_replies keeps_saving keeps_polls keeps_debugPoll_reply keeps_server keeps_skip)

lemma keeps_fire: "keeps J (fire E t)"
  unfolding fire_def
  by (cases t; simp; intro keeps_choices keeps_server keeps_place keeps_runTasks keeps_polls keep_intros)

lemma keeps_onclick: "map_of (onclick E) i = Some a \<Longrightarrow> keeps J a"
proof -
  have "list_all (\<lambda>(i, a). keeps J a) (onclick E)"
    unfolding onclick_def list.pred_inject prod.case
    by (intro conjI list.pred_inject(1) keeps_files keeps_robotest keeps_runTasks keeps_edit keeps_debug keeps_bxReady keeps_requests keeps_server
        keeps_language keeps_modes keeps_goBack keeps_editor keeps_runEditedTasks keeps_discard keeps_closeError keep_intros)
  then show "map_of (onclick E) i = Some a \<Longrightarrow> keeps J a" by (auto simp: list_all_iff dest: map_of_SomeD)
qed

lemma handle_keeps:
  assumes run: "handle E n ev s = Some (e, t)" and j: "J (a_ws s) (a_uid s) (a_behaviours s)"
  shows "J (a_ws t) (a_uid t) (a_behaviours t)"
proof -
  have by_act: ?thesis if "keeps J a" "a s' = (e, t)" "a_ws s' = a_ws s" "a_uid s' = a_uid s" "a_behaviours s' = a_behaviours s" for a s'
    using keeps_result [OF that(1) _ that(2)] j that(3-5) by simp
  show ?thesis
  proof (cases ev)
    case Start
    then show ?thesis using run j window_load_keeps by (simp add: handle_def)
  next
    case (Press i)
    then show ?thesis
      using run j fromXml_keeps by_act [OF keeps_onclick]
      by (auto simp: handle_def press_def split: if_splits option.splits)
  next
    case (PressBehaviour i)
    then show ?thesis
      using run by_act [OF keeps_whens [OF keeps_bxToWorkspace]] by (simp add: handle_def)
  next
    case (PressTab i)
    then show ?thesis using run by_act [OF keeps_editor(2)] by (simp add: handle_def)
  next
    case (ChooseFile f)
    then show ?thesis using run by_act [OF keeps_files(2)] by (simp add: handle_def)
  next
    case (ChooseBehaviours p sel)
    then show ?thesis using run by_act [OF keeps_choices(1)] by (simp add: handle_def)
  next
    case (ChooseProject p)
    then show ?thesis using run by_act [OF keeps_choices(2)] by (simp add: handle_def)
  next
    case MoveSpeed
    then show ?thesis using run by_act [OF keeps_server(1)] by (simp add: handle_def)
  next
    case (AnswerConfirm b)
    then show ?thesis using run by_act [OF keeps_server(2)] by (simp add: handle_def)
  next
    case WorkspaceChanged
    then show ?thesis using run by_act [OF keeps_change] by (simp add: handle_def)
  next
    case (Fire i)
    then show ?thesis
      using run j by_act [OF keeps_fire, of _ "s\<lparr>a_timers := splice1 i (a_timers s)\<rparr>"] by (auto simp: handle_def split: if_splits)
  next
    case (Reply i a)
    then show ?thesis
      using run j by_act [OF keeps_reply, of _ _ "s\<lparr>a_requests := splice1 i (a_requests s)\<rparr>"] by (auto simp: handle_def split: if_splits)
  qed
qed

lemma reachable_keeps:
  assumes "reachable E s" and "J [] 0 []"
    and "\<And>ws k bxs ws' k'. J ws k bxs \<Longrightarrow> edit_ok ws k ws' k' \<Longrightarrow> J ws' k' bxs"
  shows "J (a_ws s) (a_uid s) (a_behaviours s)"
  using assms(1)
proof (induction rule: reachable.induct)
  case (opened cats missing lang url st j)
  then show ?case using assms(2) by (simp add: new_page_def)
next
  case (stepped s t)
  show ?case using stepped(2)
  proof cases
    case (handled n ev e)
    then show ?thesis using handle_keeps stepped.IH by blast
  next
    case (edited ws k sel)
    then show ?thesis using assms(3) [OF stepped.IH] by simp
  next
    case (disposing e)
    show ?thesis by (rule keeps_result [OF keeps_requests(3) stepped.IH disposing(2)])
  qed
qed

end

subsection \<open>What holds on every page\<close>

lemma reachable_unique: "reachable E s \<Longrightarrow> unique_ids (a_ws s) (a_uid s) (a_behaviours s)"
proof (erule numbers.reachable_keeps)
  show "unique_ids [] 0 []" by (simp add: unique_ids_def ids_within_def)
  fix ws k bxs ws' k'
  assume u: "unique_ids ws k bxs" and "edit_ok ws k ws' k'"
  then obtain new where new: "k \<le> k'" "ids_within k k' new" "mset (all_ids (map fst ws')) \<subseteq># mset (all_ids (map fst ws) @ new)"
    by (auto simp: edit_ok_def)
  have "ids_within 0 k' ((all_ids (map fst ws) @ map bx_id bxs) @ new)"
    by (rule ids_within_append [OF u [unfolded unique_ids_def] new(2) _ new(1)]) simp
  then show "unique_ids ws' k' bxs"
    unfolding unique_ids_def by (rule ids_within_sub) (use new(3) in \<open>simp add: union_assoc union_commute\<close>)
qed

lemma reachable_parse: "reachable E s \<Longrightarrow> texts_parse (a_ws s) (a_uid s) (a_behaviours s)"
  by (erule texts.reachable_keeps) (simp_all add: texts_parse_def no_null_def edit_ok_def)

lemma reachable_ids: "reachable E s \<Longrightarrow> distinct (all_ids (map fst (a_ws s)))"
  using reachable_unique by (auto simp: unique_ids_def ids_within_def)

lemma reachable_real: "reachable E s \<Longrightarrow> no_null (a_ws s)"
  using reachable_parse by (auto simp: texts_parse_def)

text \<open>C2. Numbers are unique on every page the front end can reach - from any stored data, cookies
  and address, by any sequence of presses, timers, answers of the server and edits, also after
  documents that failed to load half way: no two blocks of the workspace, no two entries of the
  list of behaviours, and no block and entry, have the same number, and none is above the counter
  from which the next block is numbered.
\<close>

theorem numbers_stay_unique:
  assumes "reachable E s"
  defines "numbers \<equiv> concat (map (\<lambda>t. map b_id (getDescendants (fst t))) (a_ws s)) @ map bx_id (a_behaviours s)"
  shows "distinct numbers \<and> (\<forall>i \<in> set numbers. 0 < i \<and> i \<le> a_uid s)"
proof -
  have "numbers = all_ids (map fst (a_ws s)) @ map bx_id (a_behaviours s)"
    by (simp add: numbers_def all_ids_def ids_def [abs_def] o_def)
  then show ?thesis using reachable_unique [OF assms(1)] by (auto simp: unique_ids_def ids_within_def)
qed

definition demo_edited :: app where
  "demo_edited = demo_page\<lparr>a_ws := [(demo_behaviour, 20, 30)], a_uid := 12, a_selected := None\<rparr>"

lemma demo_reachable: "reachable E demo_edited"
proof -
  have "edit_ok (a_ws demo_page) (a_uid demo_page) [(demo_behaviour, 20, 30)] 12"
    unfolding edit_ok_def demo_page_def new_page_def
    by (auto simp: demo_behaviour_def no_null_def ids_within_def intro!: exI [of _ "[7, 9, 12]"])
  then show ?thesis
    unfolding demo_edited_def
    by (intro reachable.stepped [OF _ page_step.edited]) (simp_all add: demo_page_def reachable.opened)
qed

theorem numbers_stay_unique_witness:
  "\<forall>E. distinct (concat (map (\<lambda>t. map b_id (getDescendants (fst t))) (a_ws demo_edited)) @ map bx_id (a_behaviours demo_edited))"
  using numbers_stay_unique [OF demo_reachable] by blast

text \<open>C31. Nothing on the list of behaviours is lost to the parser: on every page the front end can
  reach, the text of every entry is a document that \<open>textToDom\<close> reads, so that pressing the
  entry, running, debugging and editing never stop at its text.
\<close>

theorem listed_texts_parse:
  assumes "reachable E s" and "x \<in> set (a_behaviours s)"
  shows "\<exists>d. textToDom (bx_text x) = Inr d"
  using reachable_parse [OF assms(1)] assms(2) by (auto simp: texts_parse_def list_all_iff)

end
