(* ===== verification/BehaviourProps.thy ===== *)
theory BehaviourProps
  imports Page
begin

text \<open>
  What becomes of a behaviour: it leaves the workspace for the list and comes back as it was, an
  entry that is pressed changes places with what is in the workspace, and every change is saved
  under a name of its own.
\<close>

subsection \<open>To the list\<close>

definition entry_of :: "env \<Rightarrow> app \<Rightarrow> block \<Rightarrow> string \<Rightarrow> behaviour" where
  "entry_of E s b n = \<lparr>bx_id = b_id b, bx_text = ws_text E s, bx_name = n, bx_size = block_count s\<rparr>"

text \<open>What is the same in two states, apart from the workspace, the list and what is shown.\<close>

definition same_setting :: "app \<Rightarrow> app \<Rightarrow> bool" where
  "same_setting s t \<longleftrightarrow> a_uid t = a_uid s \<and> a_recovered t = a_recovered s \<and> a_debug t = a_debug s \<and>
     a_missing t = a_missing s \<and> a_unavailable t = a_unavailable s"

lemma same_setting_loader: "same_setting s t \<Longrightarrow> loader_of E t = loader_of E s"
  by (simp add: same_setting_def loader_of_def)

lemma bxReady_single:
  assumes ws: "a_ws s = [(b, xy)]" and b: "is_behaviour b" and n: "first_name E s = Some n"
  shows "\<exists>t. bxReady E s = (None, t) \<and> same_setting s t \<and> a_ws t = [] \<and>
    a_behaviours t = a_behaviours s @ [entry_of E s b n] \<and> a_items t = a_items s @ [(b_id b, shortname n)]"
proof -
  define s1 where "s1 = (s\<lparr>a_armed := (a_armed s)(''btn_bx_ready'' := False)\<rparr>)"
  define s2 where "s2 = (if \<not> a_butiaSel s \<and> \<not> a_testMode s then put_ws (a_ws s1) s1 else s1)"
  have kept: "kept_tops s1 = a_ws s1" using ws b by (simp add: kept_tops_def s1_def)
  have s1: "disarm ''btn_bx_ready'' s = (None, s1)" by (simp add: disarm_def s1_def upd_def)
  have s2: "leaveOnlyBehavioursInWspace E s1 = (None, s2)"
    using kept by (simp add: leaveOnlyBehavioursInWspace_def act_simps s2_def s1_def)
  have same: "a_ws s2 = a_ws s" "same_setting s s2" "a_behaviours s2 = a_behaviours s" "a_items s2 = a_items s" "first_name E s2 = first_name E s"
    "ws_text E s2 = ws_text E s" "block_count s2 = block_count s" "first_block s2 = Some b"
    using ws b by (simp_all add: s2_def s1_def put_ws_def same_setting_def first_name_def first_block_def loader_of_def ws_text_def
      block_count_def all_blocks_def is_behaviour_def)
  have g: "first_name E (s2\<lparr>a_gen := g\<rparr>) = first_name E s2" "ws_text E (s2\<lparr>a_gen := g\<rparr>) = ws_text E s2"
    "block_count (s2\<lparr>a_gen := g\<rparr>) = block_count s2" for g
    by (simp_all add: first_name_def first_block_def loader_of_def ws_text_def block_count_def all_blocks_def)
  show ?thesis
    using b n same unfolding bxReady_def debounced_def append.simps seqs.simps s1 s2 prod.case option.case
    by (simp add: list_behaviour_def act_simps g new_variables_def push_behaviour_def show_el_def clear_ws_def setTimeout_def
        put_ws_def entry_of_def same_setting_def)
qed

subsection \<open>From the list\<close>

lemma bx_steps_skip:
  "\<forall>j \<in> set js. j < length (a_behaviours s) \<longrightarrow> bx_id (a_behaviours s ! j) \<noteq> ident \<Longrightarrow>
   seqs (map (bx_step E ident) js) s = (None, s)"
  by (induction js) (auto simp: bx_step_def act_simps)

lemma bx_steps_hit:
  assumes i: "i < length (a_behaviours s)" and x: "bx_id (a_behaviours s ! i) = ident"
    and dist: "distinct (map bx_id (a_behaviours s))"
    and step: "bx_step E ident i s = (None, t)"
    and gone: "\<forall>y \<in> set (a_behaviours t). bx_id y \<noteq> ident"
  shows "seqs (map (bx_step E ident) [0..<length (a_behaviours s)]) s = (None, t)"
proof -
  have split: "[0..<length (a_behaviours s)] = [0..<i] @ i # [Suc i..<length (a_behaviours s)]"
    using i by (metis less_imp_le upt_add_eq_append upt_conv_Cons le_add_diff_inverse zero_le add_0)
  have "bx_id (a_behaviours s ! j) \<noteq> ident" if "j < i" for j
    using dist x i that by (auto simp: distinct_conv_nth)
  then have b1: "seqs (map (bx_step E ident) [0..<i]) s = (None, s)" by (intro bx_steps_skip) auto
  have b2: "seqs (map (bx_step E ident) [Suc i..<length (a_behaviours s)]) t = (None, t)"
    using gone by (intro bx_steps_skip) auto
  show ?thesis unfolding split using b1 b2 step by (simp add: seqs_append)
qed

lemma domToWs_written:
  assumes "list_all (top_ok (loader_of E s)) ws" and "a_ws s = []"
  shows "domToWs E (workspaceToDom (e_view E) ws) s =
    (None, s\<lparr>a_ws := fst (renumber_tops (a_uid s) (surface_order (e_view E) ws)),
             a_uid := snd (renumber_tops (a_uid s) (surface_order (e_view E) ws))\<rparr>)"
  using read_written(2) [OF assms(1), of "e_view E" "a_uid s"] assms(2)
  by (simp add: domToWs_def split: prod.split)

text \<open>The block as it comes back: new numbers, and the flags every block gets.\<close>

definition brought_back :: "app \<Rightarrow> top list \<Rightarrow> top list" where
  "brought_back s ws = map (\<lambda>(b, xy). (map_block (ready_block s) b, xy)) ws"

lemma ready_block_same: "same_setting s t \<Longrightarrow> ready_block t = ready_block s"
  by (rule ext) (simp add: ready_block_def same_setting_def)

lemma same_setting_trans: "same_setting s t \<Longrightarrow> same_setting t u \<Longrightarrow> same_setting s u"
  by (simp add: same_setting_def)

definition freed :: "nat \<Rightarrow> nat \<Rightarrow> app \<Rightarrow> app" where
  "freed ident i s = s\<lparr>a_items := filter (\<lambda>(j, n). j \<noteq> ident) (a_items s), a_behaviours := splice1 i (a_behaviours s)\<rparr>"

lemma freed_simps [simp]:
  "a_ws (freed ident i s) = a_ws s" "a_behaviours (freed ident i s) = splice1 i (a_behaviours s)" "same_setting s (freed ident i s)"
  "block_count (freed ident i s) = block_count s" "ws_text E (freed ident i s) = ws_text E s" "first_name E (freed ident i s) = first_name E s"
  "a_items (freed ident i s) = filter (\<lambda>(j, n). j \<noteq> ident) (a_items s)"
  by (simp_all add: freed_def same_setting_def block_count_def all_blocks_def ws_text_def first_name_def first_block_def loader_of_def)

lemma whens_true: "c s \<Longrightarrow> whens c a s = a s"
  by (simp add: whens_def)

lemma bx_step_brings:
  assumes "i < length (a_behaviours s)" and "bx_id (a_behaviours s ! i) = ident"
    and written: "bx_text (a_behaviours s ! i) = domToText (workspaceToDom (e_view E) ws)"
    and ok: "list_all (top_ok (loader_of E s)) ws"
    and mid: "whens (\<lambda>s. block_count s > 0) (bxReady E) (freed ident i s) = (None, t)" "same_setting s t" "a_ws t = []"
  shows "\<exists>u. bx_step E ident i s = (None, u) \<and> same_setting (s\<lparr>a_uid := a_uid u\<rparr>) u \<and> a_behaviours u = a_behaviours t \<and>
    a_items u = a_items t \<and>
    a_ws u = brought_back s (fst (renumber_tops (a_uid s) (surface_order (e_view E) ws)))"
proof -
  have "no_null ws" using ok by (auto simp: no_null_def top_ok_def list_all_iff)
  then have parse: "textToDom (bx_text (a_behaviours s ! i)) = Inr (workspaceToDom (e_view E) ws)"
    unfolding written no_null_def by (rule workspace_text_parses)
  have ok': "list_all (top_ok (loader_of E t)) ws" using ok same_setting_loader [OF mid(2)] by simp
  define u where "u = t\<lparr>a_ws := brought_back t (fst (renumber_tops (a_uid t) (surface_order (e_view E) ws))),
      a_uid := snd (renumber_tops (a_uid t) (surface_order (e_view E) ws))\<rparr>"
  have r: "ready_block (t\<lparr>a_ws := ws', a_uid := k\<rparr>) = ready_block t" for ws' k
    by (rule ext) (simp add: ready_block_def)
  have "bx_step E ident i s = seqs [whens (\<lambda>s. block_count s > 0) (bxReady E), domToWs E (workspaceToDom (e_view E) ws),
      reads ready_block each_block] (freed ident i s)"
    unfolding bx_step_def reads_def
    by (subst whens_true) (simp_all add: assms(1,2) parse freed_def upd_def del: length_greater_0_conv)
  also have "\<dots> = (None, u)"
    by (simp add: mid(1) domToWs_written [OF ok' mid(3)] each_block_def r u_def brought_back_def reads_def upd_def)
  finally have "bx_step E ident i s = (None, u)" .
  moreover have "ready_block t = ready_block s" by (rule ready_block_same [OF mid(2)])
  then have "a_ws u = brought_back s (fst (renumber_tops (a_uid s) (surface_order (e_view E) ws)))"
    using mid(2) by (simp add: u_def brought_back_def same_setting_def)
  moreover have "same_setting (s\<lparr>a_uid := a_uid u\<rparr>) u" using mid(2) by (simp add: u_def same_setting_def)
  ultimately show ?thesis by (auto simp: u_def)
qed

text \<open>The rest of \<open>bxToWorkspace\<close> changes neither the workspace nor the list.\<close>

lemma bxToWorkspace_steps:
  assumes "seqs (map (bx_step E ident) [0..<length (a_behaviours s)]) s = (None, u)"
  shows "\<exists>t. bxToWorkspace E ident s = (None, t) \<and> a_ws t = a_ws u \<and> a_behaviours t = a_behaviours u \<and> a_items t = a_items u"
  using assms by (simp add: bxToWorkspace_def act_simps hide_el_def setTimeout_def)

lemma splice1_ids:
  assumes "distinct (map bx_id bxs)" and "i < length bxs"
  shows "\<forall>y \<in> set (splice1 i bxs). bx_id y \<noteq> bx_id (bxs ! i)"
proof -
  have "bxs = take i bxs @ bxs ! i # drop (Suc i) bxs" using assms(2) by (rule id_take_nth_drop)
  then have "distinct (map bx_id (take i bxs @ bxs ! i # drop (Suc i) bxs))" using assms(1) by simp
  then show ?thesis by (auto simp: splice1_def image_iff)
qed

lemma press_brings:
  assumes unique: "unique_ids (a_ws s) (a_uid s) (a_behaviours s)" and i: "i < length (a_behaviours s)"
    and written: "bx_text (a_behaviours s ! i) = domToText (workspaceToDom (e_view E) ws)"
    and ok: "list_all (top_ok (loader_of E s)) ws"
    and mid: "whens (\<lambda>s. block_count s > 0) (bxReady E) (freed (bx_id (a_behaviours s ! i)) i s) = (None, t)" "same_setting s t" "a_ws t = []"
    and list: "a_behaviours t = splice1 i (a_behaviours s) @ new" "\<forall>y \<in> set new. bx_id y \<in> set (all_ids (map fst (a_ws s)))"
  shows "\<exists>u. bxToWorkspace E (bx_id (a_behaviours s ! i)) s = (None, u) \<and>
    a_ws u = brought_back s (fst (renumber_tops (a_uid s) (surface_order (e_view E) ws))) \<and>
    a_behaviours u = splice1 i (a_behaviours s) @ new"
proof -
  let ?ident = "bx_id (a_behaviours s ! i)"
  obtain u where u: "bx_step E ?ident i s = (None, u)" "a_behaviours u = a_behaviours t"
      "a_ws u = brought_back s (fst (renumber_tops (a_uid s) (surface_order (e_view E) ws)))"
    using bx_step_brings [OF i refl written ok mid] by blast
  have d: "distinct (map bx_id (a_behaviours s))" "set (all_ids (map fst (a_ws s))) \<inter> bx_id ` set (a_behaviours s) = {}"
    using unique by (auto simp: unique_ids_def ids_within_def)
  have "\<forall>y \<in> set new. bx_id y \<noteq> ?ident" using list(2) d(2) i by (metis IntI empty_iff image_eqI nth_mem)
  then have gone: "\<forall>y \<in> set (a_behaviours u). bx_id y \<noteq> ?ident"
    using splice1_ids [OF d(1) i] by (auto simp: u(2) list(1))
  show ?thesis
    using bxToWorkspace_steps [OF bx_steps_hit [OF i refl d(1) u(1) gone]] u(2,3) list(1) by auto
qed

subsection \<open>A page to try them on\<close>

lemma Blockly_lookup:
  "Blockly_Blocks rtl ''controls_behaviour'' = Some block_controls_behaviour"
  "Blockly_Blocks rtl ''controls_if'' = Some block_controls_if"
  "Blockly_Blocks rtl ''logic_boolean'' = Some block_logic_boolean"
  unfolding Blockly_Blocks_def block_scripts_def butia_values_def butia_statements_def rev.simps concat.simps append.simps
  by (rule lookup_hit | (rule lookup_miss, (simp; fail)))+

lemma demo_protos:
  "init_proto demo_env ''controls_behaviour'' = demo_proto ''controls_behaviour''"
  "init_proto demo_env ''controls_if'' = demo_proto ''controls_if''"
  "init_proto demo_env ''logic_boolean'' = demo_proto ''logic_boolean''"
  by (simp_all add: init_proto_def demo_proto_def Blockly_lookup demo_registry_def demo_env_def)

definition same_types :: "loader \<Rightarrow> loader \<Rightarrow> block list \<Rightarrow> bool" where
  "same_types L L' bs \<longleftrightarrow> l_fix L = l_fix L' \<and> list_all (\<lambda>b. l_proto L (b_type b) = l_proto L' (b_type b)) bs"

lemma loadable_cong:
  "same_types L L' (getDescendants b) \<Longrightarrow> loadable L b = loadable L' b"
  "same_types L L' (concat (map input_descendants ins)) \<Longrightarrow> loadable_ins L ins = loadable_ins L' ins"
proof (induction L b and L ins rule: loadable_loadable_ins.induct)
  case (2 L i ty ti mu ins nx fl cm)
  then have l: "l_proto L ty = l_proto L' ty" "l_fix L = l_fix L'" "same_types L L' (concat (map input_descendants ins))" "same_types L L' (getDescendants nx)"
    by (auto simp: same_types_def)
  have "node_loadable L p ty ti mu ins fl = node_loadable L' p ty ti mu ins fl" for p
    using l by (simp add: node_loadable_def)
  moreover have "follows L p nx = follows L' p nx" for p
    using l(4) by (cases nx) (simp_all add: follows_def has_prev_def same_types_def)
  ultimately show ?case using 2 l by (simp split: sum.split)
next
  case (4 L n k t ins)
  then have l: "same_types L L' (getDescendants t)" "same_types L L' (concat (map input_descendants ins))"
    by (auto simp: same_types_def)
  have "fits L k t = fits L' k t" using l(1) by (cases t) (simp_all add: fits_def has_out_def has_prev_def same_types_def)
  then show ?case using 4 l by simp
qed simp_all

definition demo_E :: env where
  "demo_E = \<lparr>e_tablet = True, e_msgs = demo_env, e_fix = (\<lambda>ty n v. v), e_view = demo_view, e_num = (\<lambda>t. t),
     e_less = (\<lambda>a b. False), e_inherited = (\<lambda>_. False), e_gmt = (\<lambda>_. ''Thu''), e_now = 0, e_agent = ''Mozilla/5.0'',
     e_butia = [], e_nested = (\<lambda>_. (0, 0)), e_origin = (0, 0)\<rparr>"

lemma demo_page_simps [simp]:
  "a_ws demo_edited = [(demo_behaviour, 20, 30)]" "a_behaviours demo_edited = []" "a_recovered demo_edited = []" "a_uid demo_edited = 12"
  "a_armed demo_edited i" "e_view demo_E = demo_view" "a_effects demo_edited = []"
  by (simp_all add: demo_edited_def demo_page_def new_page_def demo_E_def)

lemma demo_loads: "a_recovered s = [] \<Longrightarrow> top_ok (loader_of demo_E s) (demo_behaviour, 20, 30)"
proof -
  assume "a_recovered s = []"
  then have "same_types (loader_of demo_E s) demo_loader (getDescendants demo_behaviour)"
    by (simp add: same_types_def loader_of_def demo_E_def demo_loader_def demo_behaviour_def demo_protos)
  then show ?thesis
    using loadable_cong(1) demo_top_ok by (simp add: top_ok_def)
qed

lemma demo_first: "a_recovered s = [] \<Longrightarrow> a_ws s = [(demo_behaviour, 20, 30)] \<Longrightarrow> first_name demo_E s = Some ''a<b''"
  by (simp add: first_name_def first_block_def first_value_def first_field_def loader_of_def demo_E_def demo_behaviour_def demo_protos,
      code_simp)

lemma demo_is_behaviour [simp]: "is_behaviour demo_behaviour"
  by (simp add: is_behaviour_def demo_behaviour_def)

lemma demo_listed:
  "\<exists>s1. bxReady demo_E demo_edited = (None, s1) \<and> reachable demo_E s1 \<and> same_setting demo_edited s1 \<and> a_ws s1 = [] \<and>
    a_behaviours s1 = [entry_of demo_E demo_edited demo_behaviour ''a<b'']"
proof -
  obtain s1 where r: "bxReady demo_E demo_edited = (None, s1)" "same_setting demo_edited s1" "a_ws s1 = []"
      "a_behaviours s1 = [entry_of demo_E demo_edited demo_behaviour ''a<b'']"
    using bxReady_single [of demo_edited demo_behaviour _ demo_E, OF _ demo_is_behaviour demo_first] by auto
  have "handle demo_E 0 (Press ''btn_bx_ready'') demo_edited = Some (None, s1)"
    by (simp add: handle_def press_def onclick_def r(1))
  then have "reachable demo_E s1" by (rule reachable.stepped [OF demo_reachable page_step.handled])
  then show ?thesis using r by blast
qed

theorem listed_texts_parse_witness:
  "\<exists>s x. reachable demo_E s \<and> x \<in> set (a_behaviours s) \<and> bx_name x = ''a<b'' \<and> (\<exists>d. textToDom (bx_text x) = Inr d)"
proof -
  obtain s where s: "reachable demo_E s" "a_behaviours s = [entry_of demo_E demo_edited demo_behaviour ''a<b'']"
    using demo_listed by blast
  show ?thesis
    using listed_texts_parse [OF s(1), of "entry_of demo_E demo_edited demo_behaviour ''a<b''"] s
    by (intro exI [of _ s] exI [of _ "entry_of demo_E demo_edited demo_behaviour ''a<b''"]) (simp add: entry_of_def)
qed

subsection \<open>The properties\<close>

text \<open>C1. A behaviour survives the list: when the workspace holds one behaviour, \<open>bxReady\<close> empties it
  into a new entry at the end of the list, and pressing that entry brings the behaviour back -
  the same blocks with the same fields, connections, comments and flags, at the same place, with
  new numbers - and leaves the list as it was. Only the flags that every block gets then are
  reset: it can be edited and moved, and is enabled unless its sensor is missing.
\<close>

theorem behaviour_comes_back:
  assumes "reachable E s" and "a_ws s = [(b, xy)]" and "is_behaviour b" and "first_name E s = Some n"
    and "top_ok (loader_of E s) (b, xy)"
  shows "\<exists>s1 s2. bxReady E s = (None, s1) \<and> a_ws s1 = [] \<and> a_behaviours s1 = a_behaviours s @ [entry_of E s b n] \<and>
    bxToWorkspace E (b_id b) s1 = (None, s2) \<and> a_behaviours s2 = a_behaviours s \<and>
    a_ws s2 = [(map_block (ready_block s) (fst (renumber (a_uid s) b)), xy)]"
proof -
  obtain s1 where r: "bxReady E s = (None, s1)" and same: "same_setting s s1" and s1: "a_ws s1 = []"
      "a_behaviours s1 = a_behaviours s @ [entry_of E s b n]"
    using bxReady_single [OF assms(2-4)] by blast
  let ?i = "length (a_behaviours s)"
  have x: "a_behaviours s1 ! ?i = entry_of E s b n" "bx_id (entry_of E s b n) = b_id b" "?i < length (a_behaviours s1)"
      "splice1 ?i (a_behaviours s1) = a_behaviours s"
    by (simp_all add: s1 entry_of_def)
  have "unique_ids (a_ws s1) (a_uid s1) (a_behaviours s1)"
    by (rule numbers.keeps_result [OF numbers.keeps_bxReady reachable_unique [OF assms(1)] r])
  moreover have "bx_text (a_behaviours s1 ! ?i) = domToText (workspaceToDom (e_view E) [(b, xy)])"
    using assms(2) by (simp add: x entry_of_def ws_text_def)
  moreover have "list_all (top_ok (loader_of E s1)) [(b, xy)]" using assms(5) same_setting_loader [OF same] by simp
  moreover have "whens (\<lambda>s. block_count s > 0) (bxReady E) (freed (bx_id (a_behaviours s1 ! ?i)) ?i s1) =
      (None, freed (bx_id (a_behaviours s1 ! ?i)) ?i s1)"
    using s1(1) by (simp add: whens_def block_count_def all_blocks_def)
  ultimately obtain u where u: "bxToWorkspace E (b_id b) s1 = (None, u)"
      "a_ws u = brought_back s1 (fst (renumber_tops (a_uid s1) (surface_order (e_view E) [(b, xy)])))" "a_behaviours u = a_behaviours s"
    using press_brings [of s1 ?i E "[(b, xy)]" _ "[]"] x s1(1) by auto
  have "a_ws u = [(map_block (ready_block s) (fst (renumber (a_uid s) b)), xy)]"
    using u(2) same ready_block_same [OF same]
    by (simp add: brought_back_def surface_order_def same_setting_def split: prod.split)
  then show ?thesis using r s1 u by blast
qed

theorem behaviour_comes_back_witness:
  "\<exists>s1 s2. bxReady demo_E demo_edited = (None, s1) \<and> a_ws s1 = [] \<and> length (a_behaviours s1) = 1 \<and>
    bxToWorkspace demo_E 7 s1 = (None, s2) \<and> a_behaviours s2 = [] \<and>
    a_ws s2 = [(map_block (ready_block demo_edited) (fst (renumber 12 demo_behaviour)), 20, 30)]"
proof -
  have "b_id demo_behaviour = 7" by (simp add: demo_behaviour_def)
  then show ?thesis
    using behaviour_comes_back [OF demo_reachable _ demo_is_behaviour demo_first demo_loads] by auto
qed

text \<open>C30. Pressing an entry of the list while a behaviour is in the workspace makes the two change
  places: the blocks of the entry, as they were written, are the whole workspace; the entry is
  gone from its place in the list; and the behaviour that was in the workspace is the last entry,
  with its name and its text.
\<close>

theorem pressed_entry_changes_places:
  assumes "reachable E s" and "a_ws s = [(c, xy)]" and "is_behaviour c" and "first_name E s = Some m"
    and "i < length (a_behaviours s)" and "bx_text (a_behaviours s ! i) = domToText (workspaceToDom (e_view E) ws)"
    and "list_all (top_ok (loader_of E s)) ws"
  shows "\<exists>t. bxToWorkspace E (bx_id (a_behaviours s ! i)) s = (None, t) \<and>
    a_ws t = brought_back s (fst (renumber_tops (a_uid s) (surface_order (e_view E) ws))) \<and>
    a_behaviours t = splice1 i (a_behaviours s) @ [entry_of E s c m]"
proof -
  let ?f = "freed (bx_id (a_behaviours s ! i)) i s"
  obtain t where t: "bxReady E ?f = (None, t)" "same_setting ?f t" "a_ws t = []" "a_behaviours t = a_behaviours ?f @ [entry_of E ?f c m]"
    using bxReady_single [of ?f c xy E m] assms(2-4) by auto
  have "c \<noteq> NoBlock" using assms(3) by (simp add: is_behaviour_def)
  then have "block_count s > 0" using assms(2) by (simp add: block_count_def all_blocks_def)
  then have mid: "whens (\<lambda>s. block_count s > 0) (bxReady E) ?f = (None, t)" using t(1) by (simp add: whens_def)
  have entry: "entry_of E ?f c m = entry_of E s c m" by (simp add: entry_of_def)
  have "b_id c \<in> set (ids c)" using \<open>c \<noteq> NoBlock\<close> by (cases c) simp_all
  then show ?thesis
    using press_brings [OF reachable_unique [OF assms(1)] assms(5-7) mid same_setting_trans [OF _ t(2)] t(3), of "[entry_of E s c m]"]
      t(4) assms(2) by (simp add: entry entry_of_def)
qed

theorem pressed_entry_changes_places_witness:
  "\<exists>s t. reachable demo_E s \<and> bxToWorkspace demo_E 7 s = (None, t) \<and> map b_id (map fst (a_ws t)) = [Suc (a_uid s)] \<and>
    map bx_id (a_behaviours s) = [7] \<and> map bx_id (a_behaviours t) = [13]"
proof -
  obtain s1 where reach: "reachable demo_E s1" and same: "same_setting demo_edited s1" and s1: "a_ws s1 = []"
      "a_behaviours s1 = [entry_of demo_E demo_edited demo_behaviour ''a<b'']"
    using demo_listed by blast
  let ?c = "Block 13 ''controls_behaviour'' [(''TEXT'', ''a<b''), (''PR'', ''1'')] (0, 0)
      [Input [] DummyInput NoBlock, Input ''BEHAVIOUR_CODE'' StatementInput NoBlock] NoBlock new_flags None"
  let ?s = "s1\<lparr>a_ws := [(?c, 0, 0)], a_uid := 13, a_selected := None\<rparr>"
  have "a_uid s1 = 12" "a_recovered s1 = []" using same by (simp_all add: same_setting_def)
  have "edit_ok (a_ws s1) (a_uid s1) [(?c, 0, 0)] 13"
    unfolding edit_ok_def \<open>a_uid s1 = 12\<close> s1(1)
    by (auto simp: no_null_def ids_within_def intro!: exI [of _ "[13]"])
  then have reach2: "reachable demo_E ?s" by (rule reachable.stepped [OF reach page_step.edited])
  have first: "first_name demo_E ?s = Some ''a<b''"
    using \<open>a_recovered s1 = []\<close>
    by (simp add: first_name_def first_block_def first_value_def first_field_def loader_of_def demo_E_def demo_protos, code_simp)
  have entry: "bx_text (a_behaviours ?s ! 0) = domToText (workspaceToDom (e_view demo_E) [(demo_behaviour, 20, 30)])"
      "bx_id (a_behaviours ?s ! 0) = 7"
    by (simp_all add: s1 entry_of_def ws_text_def) (simp add: demo_behaviour_def)
  have entry7: "bx_id (entry_of demo_E demo_edited demo_behaviour ''a<b'') = 7"
    by (simp add: entry_of_def demo_behaviour_def)
  have ok: "list_all (top_ok (loader_of demo_E ?s)) [(demo_behaviour, 20, 30)]"
    using demo_loads [of ?s] \<open>a_recovered s1 = []\<close> by simp
  obtain t where t: "bxToWorkspace demo_E 7 ?s = (None, t)"
      "a_ws t = brought_back ?s (fst (renumber_tops (a_uid ?s) (surface_order demo_view [(demo_behaviour, 20, 30)])))"
      "a_behaviours t = splice1 0 (a_behaviours ?s) @ [entry_of demo_E ?s ?c ''a<b'']"
    using pressed_entry_changes_places [OF reach2 _ _ first _ entry(1) ok, of ?c] by (auto simp: entry7 s1 is_behaviour_def)
  have "map b_id (map fst (a_ws t)) = [14]"
    by (simp add: t(2) brought_back_def surface_order_def demo_behaviour_def ready_block_def set_flags_def)
  moreover have "map bx_id (a_behaviours t) = [13]" by (simp add: t(3) s1 splice1_def entry_of_def)
  moreover have "map bx_id (a_behaviours ?s) = [7]" by (simp add: s1 entry_of_def demo_behaviour_def)
  ultimately show ?thesis using reach2 t(1) by (intro exI [of _ ?s] exI [of _ t]) simp
qed

end
