(* ===== verification/RestoreProps.thy ===== *)
theory RestoreProps
  imports BehaviourProps
begin

text \<open>
  When restoring ends (\<open>while (!success)\<close> of \<open>js/common.js\<close>). Every failed attempt defines a substitute
  for the name quoted in the message. If what fails is that block types are missing, each attempt
  needs one type less and the loop ends; if a field is missing, the substitute is for the wrong
  thing, the next attempt fails in the same way, and the loop never ends.
\<close>

subsection \<open>The name in a message\<close>

lemma js_split_quotes:
  "CHR 34 \<notin> set a \<Longrightarrow> CHR 34 \<notin> set b \<Longrightarrow> CHR 34 \<notin> set c \<Longrightarrow>
   js_split [CHR 34] (a @ [CHR 34] @ b @ [CHR 34] @ c) = [a, b, c]"
  by (simp add: js_split_append js_split_clean)

lemma blockInFault_title [simp]: "CHR 34 \<notin> set X \<Longrightarrow> blockInFault (Error (title_missing X)) = Some X"
  using js_split_quotes [of "''Assertion failed: Title ''" X "'' not found.''"]
  by (simp add: blockInFault_def title_missing_def Let_def)

lemma blockInFault_unknown [simp]: "CHR 34 \<notin> set ty \<Longrightarrow> blockInFault (Error (unknown_block ty)) = Some ty"
  using js_split_quotes [of "''Assertion failed: Error: ''" ty "'' is an unknown language block.''"]
  by (simp add: blockInFault_def unknown_block_def Let_def)

lemma blockInFault_unquoted: "unquoted e \<Longrightarrow> blockInFault e = None"
  by (auto simp: unquoted_def type_error_def blockInFault_def js_split_clean Let_def)

lemma blockInFault_init: "blockInFault (Error ''Assertion failed'') = None"
  by (simp add: blockInFault_def js_split_clean Let_def)

subsection \<open>A missing field\<close>

text \<open>A document whose first element is a block with a field, first of all, that its type does not have.\<close>

definition missing_field :: "loader \<Rightarrow> xml \<Rightarrow> string \<Rightarrow> bool" where
  "missing_field L x X \<longleftrightarrow> (case x of Elem r ra (Elem n at (Elem m ta tks # ks) # xs) \<Rightarrow>
     js_toLowerCase n = ''block'' \<and> js_toLowerCase m = ''title'' \<and> js_str (map_of ta ''name'') = X \<and>
     (case map_of at ''type'' of None \<Rightarrow> False | Some ty \<Rightarrow> ty \<noteq> [] \<and> ty \<noteq> X \<and>
        (case l_proto L ty of Inl e \<Rightarrow> False | Inr p \<Rightarrow> X \<notin> set (map fst (proto_titles p)))) | _ \<Rightarrow> False)"

lemma update_title_None: "update_title v n ti = None \<longleftrightarrow> n \<notin> set (map fst ti)"
proof (induction ti)
  case (Cons a ti)
  then show ?case by (cases a) auto
qed simp

lemma load_missing_field:
  assumes "missing_field L x X"
  shows "\<exists>b. domToWorkspace L V x ([], k) = (Some (Error (title_missing X)), [(b, 0, 0)], Suc k)"
proof -
  obtain r ra n at m ta tks ks xs ty p where x: "x = Elem r ra (Elem n at (Elem m ta tks # ks) # xs)"
    and n: "js_toLowerCase n = ''block''" "js_toLowerCase m = ''title''" "js_str (map_of ta ''name'') = X"
    and ty: "map_of at ''type'' = Some ty" "ty \<noteq> []" "l_proto L ty = Inr p" "X \<notin> set (map fst (proto_titles p))"
    using assms by (auto simp: missing_field_def split: xml.splits list.splits option.splits sum.splits)
  have "setTitleValue v X (flag_block at (proto_block i ty p)) = Inl (title_missing X)" for v i
    using update_title_None [of v X "proto_titles p"] ty(4) by (simp add: setTitleValue_def flag_block_def proto_block_def)
  then have "domToBlock L k (Elem n at (Elem m ta tks # ks)) =
      (Inl (Error (title_missing X), [flag_block at (proto_block (Suc k) ty p)]), Suc k)"
    using n ty by (simp add: domToBlock.simps(2) load_kids.simps(3) shape_of_def Let_def)
  then show ?thesis using n by (simp add: x domToWorkspace_def)
qed

lemma missing_field_recover:
  assumes "missing_field (loader_of E s) x X"
  shows "missing_field (loader_of E (snd (recover_from E X code s))) x X"
  using assms
  by (auto simp: missing_field_def recover_from_def tryToRecover_def act_simps loader_of_def split: xml.splits list.splits option.splits)

lemma load_retry_hangs:
  "textToDom code = Inr x \<Longrightarrow> missing_field (loader_of E s) x X \<Longrightarrow> CHR 34 \<notin> set X \<Longrightarrow> a_ws s = [] \<Longrightarrow>
   load_retry E n code s = None"
proof (induction n arbitrary: s)
  case (Suc n)
  obtain b where "domToWorkspace (loader_of E s) (e_view E) x ([], a_uid s) = (Some (Error (title_missing X)), [(b, 0, 0)], Suc (a_uid s))"
    using load_missing_field [OF Suc.prems(2)] by blast
  then have d: "domToWs E x s = (Some (Error (title_missing X)), s\<lparr>a_ws := [(b, 0, 0)], a_uid := Suc (a_uid s)\<rparr>)"
    using Suc.prems(4) by (simp add: domToWs_def)
  define s2 where "s2 = snd (clear_ws (s\<lparr>a_ws := [(b, 0, 0)], a_uid := Suc (a_uid s)\<rparr>))"
  have "loader_of E s2 = loader_of E s" "a_ws s2 = []"
    by (simp_all add: s2_def clear_ws_def put_ws_def upd_def loader_of_def)
  then have again: "missing_field (loader_of E (snd (recover_from E X code s2))) x X" "a_ws (snd (recover_from E X code s2)) = []"
    using missing_field_recover Suc.prems(2)
    by (auto simp: recover_from_def tryToRecover_def act_simps)
  have "load_retry E (Suc n) code s = load_retry E n code (snd (recover_from E X code s2))"
    using Suc.prems(1,3) by (simp add: d s2_def [symmetric] Let_def)
  then show ?case using Suc.IH [OF Suc.prems(1) again(1) Suc.prems(3) again(2)] by simp
qed simp

text \<open>C34. A stored behaviour with a field that its block type no longer has keeps the page from ever
  finishing to load: the message \<open>Title "X" not found.\<close> is taken for one about a missing block,
  \<open>tryToRecover\<close> defines a block type \<open>X\<close>, the next attempt fails with the same message, and however
  many attempts are made the loop has not ended.
\<close>

theorem missing_field_hangs:
  assumes "saved_list (a_store s) = Inr ((name, code) # l)" and "name \<notin> set (bx_names s)" and "a_ws s = []"
    and "textToDom code = Inr x" and "missing_field (loader_of E s) x X" and "CHR 34 \<notin> set X"
  shows "window_load E n s = None"
proof -
  have "block_count s = 0" using assms(3) by (simp add: block_count_def all_blocks_def)
  then show ?thesis
    using assms(1,2) load_retry_hangs [OF assms(4-6,3)] by (simp add: window_load_def whens_def)
qed

subsection \<open>Missing types only\<close>

text \<open>All block elements of a document, and the names of the fields a block element sets.\<close>

fun block_elems :: "xml \<Rightarrow> ((string \<times> string) list \<times> xml list) list" where
  "block_elems (Txt s) = []"
| "block_elems (Elem n at ks) = (if js_toLowerCase n = ''block'' then [(at, ks)] else []) @ concat (map block_elems ks)"

definition kid_fields :: "xml list \<Rightarrow> string list" where
  "kid_fields ks = concat (map (\<lambda>x. case x of Txt s \<Rightarrow> []
     | Elem n at cs \<Rightarrow> if js_toLowerCase n = ''title'' then [kid_name at] else []) ks)"

definition elem_type :: "(string \<times> string) list \<Rightarrow> string" where
  "elem_type at = (case map_of at ''type'' of None \<Rightarrow> [] | Some t \<Rightarrow> t)"

definition doc_types :: "xml \<Rightarrow> string list" where
  "doc_types x = map (\<lambda>(at, ks). elem_type at) (block_elems x)"

text \<open>No block sets a field that its type does not have; a block of a missing type sets none.\<close>

definition fields_of :: "loader \<Rightarrow> (string \<times> string) list \<Rightarrow> string list" where
  "fields_of L at = (case shape_of L (map_of at ''type'') of Inl e \<Rightarrow> [] | Inr p \<Rightarrow> map fst (proto_titles p))"

definition fields_known :: "loader \<Rightarrow> xml \<Rightarrow> bool" where
  "fields_known L x \<longleftrightarrow> list_all (\<lambda>(at, ks). set (kid_fields ks) \<subseteq> set (fields_of L at)) (block_elems x)"

definition is_block_elem :: "xml \<Rightarrow> bool" where
  "is_block_elem x \<longleftrightarrow> (case x of Txt s \<Rightarrow> False | Elem n at ks \<Rightarrow> js_toLowerCase n = ''block'')"

lemma fields_known_Elem:
  "fields_known L (Elem n at ks) \<longleftrightarrow>
     (js_toLowerCase n = ''block'' \<longrightarrow> set (kid_fields ks) \<subseteq> set (fields_of L at)) \<and> list_all (fields_known L) ks"
  unfolding fields_known_def list_all_iff by (simp add: ball_Un)

lemma block_child_block: "block_child ks = Some e \<Longrightarrow> e \<in> set ks \<and> is_block_elem e"
  using block_child_in [of ks e]
  by (auto simp: block_child_def is_block_elem_def split: list.splits xml.splits if_splits)

lemma doc_types_kid: "e \<in> set ks \<Longrightarrow> set (doc_types e) \<subseteq> set (doc_types (Elem n at ks))"
  by (auto simp: doc_types_def)

text \<open>What can go wrong then: a type is missing, or nothing that a message names.\<close>

definition type_fault :: "loader \<Rightarrow> string set \<Rightarrow> exn \<Rightarrow> bool" where
  "type_fault L T e \<longleftrightarrow> unquoted e \<or> (\<exists>ty \<in> T. \<exists>m. l_proto L ty = Inl m \<and> e = Error m)"

lemma type_fault_mono: "type_fault L T e \<Longrightarrow> T \<subseteq> T' \<Longrightarrow> type_fault L T' e"
  by (auto simp: type_fault_def)

definition faults_ok :: "loader \<Rightarrow> string set \<Rightarrow> block loading \<Rightarrow> bool" where
  "faults_ok L T r \<longleftrightarrow> (case fst r of Inr b \<Rightarrow> True | Inl (e, bs) \<Rightarrow> type_fault L T e)"

lemma faults_ok_simps [simp]:
  "faults_ok L T (Inr b, k)" "faults_ok L T (Inl (e, bs), k) \<longleftrightarrow> type_fault L T e"
  by (simp_all add: faults_ok_def)

lemma faults_ok_mono: "faults_ok L T r \<Longrightarrow> T \<subseteq> T' \<Longrightarrow> faults_ok L T' r"
  by (auto simp: faults_ok_def intro: type_fault_mono split: sum.splits)

definition field_names :: "block \<Rightarrow> string list" where
  "field_names b = (if b = NoBlock then [] else map fst (b_titles b))"

lemma update_title_names: "update_title v n ti = Some ti' \<Longrightarrow> map fst ti' = map fst ti"
  by (induction ti arbitrary: ti') (auto split: if_splits)

lemma field_names_set: "setTitleValue v n b = Inr b' \<Longrightarrow> field_names b' = field_names b"
  by (cases b) (auto simp: setTitleValue_def field_names_def dest: update_title_names split: option.splits)

lemma field_names_kept [simp]:
  "field_names (domToMutation at b) = field_names b" "field_names (set_comment t b) = field_names b"
  "field_names (set_next c b) = field_names b" "field_names (set_inputs ins mu b) = field_names b"
  by (cases b; simp add: field_names_def domToMutation_def set_inputs_def set_comment_def set_next_def Let_def)+

lemma field_names_change: "kid_changes L n at cs b b' \<Longrightarrow> field_names b' = field_names b"
  by (auto simp: kid_changes_def kid_title_def dest: field_names_set)

lemma field_names_join: "kid_joins L at b c b' \<Longrightarrow> field_names b' = field_names b"
  by (auto simp: kid_joins_def attach_def Let_def split: if_splits)

lemma setTitleValue_fails: "setTitleValue v n b = Inl m \<Longrightarrow> n \<notin> set (field_names b)"
  by (cases b) (auto simp: setTitleValue_def field_names_def update_title_None split: option.splits)

lemma flag_block_fields: "field_names (flag_block at (proto_block i ty p)) = map fst (proto_titles p)"
  by (simp add: field_names_def flag_block_def proto_block_def)

lemma load_faults:
  "is_block_elem x \<and> fields_known L x \<longrightarrow> faults_ok L (set (doc_types x)) (domToBlock L k x)"
  "set (kid_fields ks) \<subseteq> set (field_names b) \<and> list_all (fields_known L) ks \<longrightarrow>
   faults_ok L (set (concat (map doc_types ks))) (load_kids L p k ks b)"
proof (induction L k x and L p k ks b rule: load_rule [where
      P = "\<lambda>L k x r. is_block_elem x \<and> fields_known L x \<longrightarrow> faults_ok L (set (doc_types x)) r"
      and Q = "\<lambda>L p k ks b r. set (kid_fields ks) \<subseteq> set (field_names b) \<and> list_all (fields_known L) ks \<longrightarrow>
        faults_ok L (set (concat (map doc_types ks))) r"])
  case (Unknown L k n at ks e)
  then have "l_proto L (elem_type at) = Inl e"
    by (auto simp: shape_of_def elem_type_def split: option.splits if_splits)
  then show ?case by (auto simp: type_fault_def doc_types_def is_block_elem_def)
next
  case (Block L k n at ks p r)
  show ?case
  proof
    assume x: "is_block_elem (Elem n at ks) \<and> fields_known L (Elem n at ks)"
    have "fields_of L at = map fst (proto_titles p)" using Block(1) by (simp add: fields_of_def)
    then have "faults_ok L (set (concat (map doc_types ks))) r"
      using Block(2) x by (simp add: fields_known_Elem is_block_elem_def flag_block_fields)
    moreover have "set (concat (map doc_types ks)) \<subseteq> set (doc_types (Elem n at ks))"
      using doc_types_kid by fastforce
    ultimately show "faults_ok L (set (doc_types (Elem n at ks))) r" by (rule faults_ok_mono)
  qed
next
  case (Stop L p k n at cs ks b e)
  show ?case
  proof
    assume fits: "set (kid_fields (Elem n at cs # ks)) \<subseteq> set (field_names b) \<and> list_all (fields_known L) (Elem n at cs # ks)"
    have "unquoted e"
    proof (rule ccontr)
      assume "\<not> unquoted e"
      then obtain m where "js_toLowerCase n = ''title''" "kid_title L at cs b = Inl m" using Stop by (auto simp: kid_stops_def)
      then show False using fits setTitleValue_fails by (auto simp: kid_title_def kid_fields_def)
    qed
    then show "faults_ok L (set (concat (map doc_types (Elem n at cs # ks)))) (Inl (e, [b]), k)"
      by (simp add: type_fault_def)
  qed
next
  case (ChildFails L p k n at cs ks b e x rest k')
  have "e \<in> set cs" "is_block_elem e" using block_child_block [OF ChildFails(1)] by auto
  moreover from this have "set (doc_types e) \<subseteq> set (doc_types (Elem n at cs))" by (intro doc_types_kid)
  ultimately show ?case using ChildFails(3) by (auto simp: fields_known_Elem list_all_iff intro: type_fault_mono)
next
  case (Change L p k n at cs ks b b' r)
  have "set (kid_fields ks) \<subseteq> set (kid_fields (Elem n at cs # ks))" by (auto simp: kid_fields_def)
  then show ?case using Change field_names_change [OF Change(1)] by (auto intro: faults_ok_mono)
next
  case (Child L p k n at cs ks b e c b' k' r)
  have "set (kid_fields ks) \<subseteq> set (kid_fields (Elem n at cs # ks))" by (auto simp: kid_fields_def)
  then show ?case using Child field_names_join [OF Child(4)] by (auto intro: faults_ok_mono)
qed (auto simp: type_fault_def kid_fields_def intro: faults_ok_mono)

lemma load_tops_faults:
  "list_all (fields_known L) xs \<Longrightarrow> load_tops L V k xs ws = (Some e, ws', k') \<Longrightarrow>
   type_fault L (set (concat (map doc_types xs))) e"
proof (induction L V k xs ws rule: load_tops.induct)
  case (3 L V k n at cs xs ws)
  have sub: "set (concat (map doc_types xs)) \<subseteq> set (concat (map doc_types (Elem n at cs # xs)))" by auto
  show ?case
  proof (cases "js_toLowerCase n = ''block''")
    case False
    then show ?thesis using 3 type_fault_mono [OF _ sub] by simp
  next
    case True
    obtain r k1 where d: "domToBlock L k (Elem n at cs) = (r, k1)" by force
    have ok: "faults_ok L (set (doc_types (Elem n at cs))) (r, k1)"
      using load_faults(1) [of "Elem n at cs" L k] d True 3(3) by (simp add: is_block_elem_def)
    show ?thesis
    proof (cases r)
      case (Inl a)
      then show ?thesis using 3(4) True d ok by (cases a) (auto intro: type_fault_mono)
    next
      case (Inr b)
      then show ?thesis using 3(1) [OF True d [symmetric] Inr] 3(3,4) True d type_fault_mono [OF _ sub] by simp
    qed
  qed
qed (auto intro: type_fault_mono)

lemma workspace_faults:
  assumes "fields_known L x" and "domToWorkspace L V x s = (Some e, s')"
  shows "type_fault L (set (doc_types x)) e"
proof (cases x)
  case (Txt t)
  then show ?thesis using assms(2) by (simp add: domToWorkspace_def)
next
  case (Elem n at ks)
  have "set (concat (map doc_types ks)) \<subseteq> set (doc_types x)" using doc_types_kid Elem by fastforce
  then show ?thesis
    using load_tops_faults [of L ks V "snd s" "fst s" e "fst s'" "snd s'"] assms Elem
    by (simp add: domToWorkspace_def fields_known_Elem type_fault_mono)
qed

text \<open>Recovering a type leaves the fields known, and one type less is missing.\<close>

definition missing_types :: "app \<Rightarrow> xml \<Rightarrow> string set" where
  "missing_types s x = {ty \<in> set (doc_types x). map_of (a_recovered s) ty = None}"

lemma fields_known_recover:
  assumes "fields_known (loader_of E s) x" and "l_proto (loader_of E s) ty = Inl m"
  shows "fields_known (loader_of E (snd (recover_from E ty code s))) x"
proof -
  let ?L = "loader_of E s" and ?L' = "loader_of E (snd (recover_from E ty code s))"
  have rest: "l_proto ?L' t = l_proto ?L t" if "t \<noteq> ty" for t
    using that by (simp add: loader_of_def recover_from_def tryToRecover_def act_simps)
  have "set (fields_of ?L at) \<subseteq> set (fields_of ?L' at)" for at
  proof (cases "map_of at ''type'' = Some ty \<and> ty \<noteq> []")
    case True
    then show ?thesis using assms(2) by (simp add: fields_of_def shape_of_def)
  next
    case False
    then have "shape_of ?L' (map_of at ''type'') = shape_of ?L (map_of at ''type'')"
      using rest False by (cases "map_of at ''type''") (auto simp: shape_of_def)
    then show ?thesis by (simp add: fields_of_def)
  qed
  then show ?thesis using assms(1) by (fastforce simp: fields_known_def list_all_iff)
qed

lemma missing_types_recover:
  assumes "ty \<in> missing_types s x"
  shows "card (missing_types (snd (recover_from E ty code s)) x) < card (missing_types s x)"
proof -
  have "missing_types (snd (recover_from E ty code s)) x = missing_types s x - {ty}"
    by (auto simp: missing_types_def recover_from_def tryToRecover_def act_simps)
  moreover have "finite (missing_types s x)" by (simp add: missing_types_def)
  ultimately show ?thesis using assms card_Diff1_less [of "missing_types s x" ty] by simp
qed

lemma init_proto_error: "init_proto M ty = Inl m \<Longrightarrow> m = unknown_block ty \<or> m = ''Assertion failed''"
  by (auto simp: init_proto_def split: option.splits)

lemma fault_is_missing:
  assumes "type_fault (loader_of E s) (set (doc_types x)) e" and "blockInFault e = Some ty"
    and "list_all (\<lambda>ty. CHR 34 \<notin> set ty) (doc_types x)"
  shows "ty \<in> missing_types s x \<and> (\<exists>m. l_proto (loader_of E s) ty = Inl m)"
proof -
  obtain t m where t: "t \<in> set (doc_types x)" "l_proto (loader_of E s) t = Inl m" "e = Error m"
    using assms(1,2) blockInFault_unquoted by (auto simp: type_fault_def)
  have q: "CHR 34 \<notin> set t" using assms(3) t(1) by (auto simp: list_all_iff)
  have r: "map_of (a_recovered s) t = None" "init_proto (e_msgs E) t = Inl m"
    using t(2) by (simp_all add: loader_of_def split: option.splits)
  have "ty = t"
    using init_proto_error [OF r(2)] assms(2) t(3) q blockInFault_init by auto
  then show ?thesis using t r by (auto simp: missing_types_def)
qed

lemma load_retry_ends:
  "textToDom code = Inr x \<Longrightarrow> fields_known (loader_of E s) x \<Longrightarrow> list_all (\<lambda>ty. CHR 34 \<notin> set ty) (doc_types x) \<Longrightarrow>
   card (missing_types s x) < n \<Longrightarrow> \<exists>t. load_retry E n code s = Some (None, t)"
proof (induction n arbitrary: s)
  case (Suc n)
  obtain r s1 where d: "domToWs E x s = (r, s1)" by force
  have same: "a_recovered s1 = a_recovered s" using d by (auto simp: domToWs_def split: prod.splits)
  show ?case
  proof (cases r)
    case None
    then show ?thesis using Suc.prems(1) d by simp
  next
    case (Some e)
    define s2 where "s2 = snd (clear_ws s1)"
    have s2: "a_recovered s2 = a_recovered s" using same by (simp add: s2_def clear_ws_def put_ws_def upd_def)
    then have L: "loader_of E s2 = loader_of E s" "missing_types s2 x = missing_types s x"
      by (simp_all add: loader_of_def missing_types_def)
    have fault: "type_fault (loader_of E s) (set (doc_types x)) e"
      using d Some workspace_faults [OF Suc.prems(2)] by (auto simp: domToWs_def split: prod.splits)
    show ?thesis
    proof (cases "blockInFault e")
      case None
      then show ?thesis
        using Suc.prems(1) d Some by (simp add: ShowMessage_def act_simps set_html_def show_el_def setTimeout_def Let_def)
    next
      case (Some ty)
      then obtain m where ty: "ty \<in> missing_types s x" "l_proto (loader_of E s2) ty = Inl m"
        using fault_is_missing [OF fault _ Suc.prems(3)] L by auto
      let ?s3 = "snd (recover_from E ty code s2)"
      have "fields_known (loader_of E ?s3) x" by (rule fields_known_recover [OF _ ty(2)]) (simp add: L Suc.prems(2))
      moreover have "card (missing_types ?s3 x) < n"
        using missing_types_recover [of ty s2 x E code] ty(1) Suc.prems(4) L by simp
      ultimately have "\<exists>t. load_retry E n code ?s3 = Some (None, t)" by (intro Suc.IH Suc.prems(1,3))
      then show ?thesis using Suc.prems(1) d \<open>r = Some e\<close> Some by (simp add: s2_def Let_def)
    qed
  qed
qed simp

text \<open>C14. Missing block types do not keep the page from loading: when every block sets only fields its
  type has - and none, if the type is missing - restoring a document ends, and without an
  exception, after at most one attempt more than the document has blocks; each failed attempt
  has defined one of the missing types.
\<close>

theorem missing_types_recovered:
  assumes "textToDom code = Inr x" and "fields_known (loader_of E s) x" and "list_all (\<lambda>ty. CHR 34 \<notin> set ty) (doc_types x)"
    and "length (block_elems x) < n"
  shows "\<exists>t. load_retry E n code s = Some (None, t)"
proof (rule load_retry_ends [OF assms(1-3)])
  have "card (missing_types s x) \<le> card (set (doc_types x))"
    unfolding missing_types_def by (rule card_mono) auto
  also have "\<dots> \<le> length (block_elems x)" using card_length [of "doc_types x"] by (simp add: doc_types_def)
  finally show "card (missing_types s x) < n" using assms(4) by simp
qed

subsection \<open>Two stored behaviours\<close>

definition demo_old_field :: string where
  "demo_old_field = ''<xml><block type='' @ [CHR 34] @ ''controls_behaviour'' @ [CHR 34] @ ''><title name='' @ [CHR 34] @ ''OLD'' @ [CHR 34] @ ''>a</title></block></xml>''"

definition demo_old_type :: string where
  "demo_old_type = ''<xml><block type='' @ [CHR 34] @ ''controls_behaviour'' @ [CHR 34] @ ''><statement name='' @ [CHR 34] @ ''BEHAVIOUR_CODE'' @ [CHR 34] @
     ''><block type='' @ [CHR 34] @ ''grab'' @ [CHR 34] @ ''></block></statement></block></xml>''"

lemma demo_old_parse:
  "textToDom demo_old_field = Inr (Elem ''xml'' [] [Elem ''block'' [(''type'', ''controls_behaviour'')] [Elem ''title'' [(''name'', ''OLD'')] [Txt ''a'']]])"
  "textToDom demo_old_type = Inr (Elem ''xml'' [] [Elem ''block'' [(''type'', ''controls_behaviour'')]
     [Elem ''statement'' [(''name'', ''BEHAVIOUR_CODE'')] [Elem ''block'' [(''type'', ''grab'')] []]]])"
  by code_simp+

definition demo_stored :: app where
  "demo_stored = new_page 6 [] ''es'' (''http://robot/'', []) \<lparr>yatay_bxs = Some (pairs_text [(''a'', demo_old_field)]), yatay_bxs_autosaved = None, yatay_speed = None\<rparr> []"

lemma demo_loader_proto: "a_recovered s = [] \<Longrightarrow> l_proto (loader_of demo_E s) ''controls_behaviour'' = demo_proto ''controls_behaviour''"
  by (simp add: loader_of_def demo_E_def demo_protos)

lemma demo_behaviour_fields:
  "\<exists>p. demo_proto ''controls_behaviour'' = Inr p \<and> map fst (proto_titles p) = [''TEXT'', ''PR'']"
proof -
  have "map_res (\<lambda>p. map fst (proto_titles p)) (demo_proto ''controls_behaviour'') = Inr [''TEXT'', ''PR'']" by code_simp
  then show ?thesis by (cases "demo_proto ''controls_behaviour''") auto
qed

theorem missing_field_hangs_witness: "\<forall>n. window_load demo_E n demo_stored = None"
proof
  fix n
  have "saved_list (a_store demo_stored) = Inr [(''a'', demo_old_field)]"
    by (simp add: demo_stored_def new_page_def saved_list_def pairs_roundtrip pairs_text_notNil)
  moreover have "missing_field (loader_of demo_E demo_stored) (Elem ''xml'' [] [Elem ''block'' [(''type'', ''controls_behaviour'')]
      [Elem ''title'' [(''name'', ''OLD'')] [Txt ''a'']]]) ''OLD''"
    using demo_behaviour_fields demo_loader_proto [of demo_stored]
    by (auto simp: missing_field_def demo_stored_def new_page_def js_str_def)
  moreover have "bx_names demo_stored = []" "a_ws demo_stored = []" by (simp_all add: bx_names_def demo_stored_def new_page_def)
  moreover have "CHR 34 \<notin> set ''OLD''" by simp
  ultimately show "window_load demo_E n demo_stored = None"
    by (intro missing_field_hangs [OF _ _ _ demo_old_parse(1)]) (assumption | simp)+
qed

theorem missing_types_recovered_witness: "\<exists>t. load_retry demo_E 3 demo_old_type demo_stored = Some (None, t)"
proof -
  have "fields_known (loader_of demo_E demo_stored) (Elem ''xml'' [] [Elem ''block'' [(''type'', ''controls_behaviour'')]
     [Elem ''statement'' [(''name'', ''BEHAVIOUR_CODE'')] [Elem ''block'' [(''type'', ''grab'')] []]]])"
    by (simp add: fields_known_def kid_fields_def)
  then show ?thesis
    by (intro missing_types_recovered [OF demo_old_parse(2)]) (simp_all add: doc_types_def elem_type_def)
qed

end
