(* ===== verification/SavingProps.thy ===== *)
theory SavingProps
  imports BehaviourProps
begin

text \<open>
  Saving. \<open>AutoSave\<close> gives the behaviour in the workspace a name that no ready behaviour has and
  stores it in the browser without losing an entry of a ready one. A file that is saved and opened
  again gives the ready behaviours back, as long as no text in it looks like the end of a document.
\<close>

subsection \<open>Free names\<close>

lemma free_index_free: "numbered n (free_index names n i) \<notin> set names"
proof (induction names n i rule: free_index.induct)
  case (1 names n i)
  then show ?case by (subst free_index.simps) simp
qed

lemma free_index_least: "i \<le> j \<Longrightarrow> j < free_index names n i \<Longrightarrow> numbered n j \<in> set names"
proof (induction names n i rule: free_index.induct)
  case (1 names n i)
  show ?case
  proof (cases "numbered n i \<in> set names")
    case True
    then have "free_index names n i = free_index names n (Suc i)" by (subst free_index.simps) simp
    then show ?thesis using 1 True by (cases "i = j") auto
  next
    case False
    then have "free_index names n i = i" by (subst free_index.simps) simp
    then show ?thesis using 1 by simp
  qed
qed

lemma free_name_free: "free_name s n \<notin> set (bx_names s)"
  by (simp add: free_name_def free_index_free)

lemma free_name_same: "free_name s n = n \<longleftrightarrow> n \<notin> set (bx_names s)"
proof
  assume "n \<notin> set (bx_names s)"
  then have "free_index (bx_names s) n 0 = 0" by (subst free_index.simps) (simp add: numbered_def)
  then show "free_name s n = n" by (simp add: free_name_def numbered_def)
qed (metis free_name_free)

subsection \<open>The first field\<close>

text \<open>The first field of the first block is named, has a value, and its change handler keeps every value.\<close>

definition named_first :: "env \<Rightarrow> app \<Rightarrow> block \<Rightarrow> string \<Rightarrow> string \<Rightarrow> bool" where
  "named_first E s b f v \<longleftrightarrow> (\<exists>d. first_field (loader_of E s) b = Some (Some f, d)) \<and> getTitleValue b f = Some v \<and>
     e_fix E (b_type b) f = (\<lambda>w. w)"

lemma named_first_value: "a_ws s = (b, xy) # ws \<Longrightarrow> b \<noteq> NoBlock \<Longrightarrow> named_first E s b f v \<Longrightarrow> first_name E s = Some v"
  by (auto simp: first_name_def first_block_def first_value_def named_first_def)

lemma update_title_found: "map_of ti n = Some w \<Longrightarrow> \<exists>ti'. update_title v n ti = Some ti' \<and> map_of ti' n = Some v"
  by (induction ti) (auto split: if_splits)

lemma setTitleValue_found:
  assumes "getTitleValue b n = Some w"
  shows "\<exists>b'. setTitleValue v n b = Inr b' \<and> getTitleValue b' n = Some v \<and> b_type b' = b_type b \<and> b' \<noteq> NoBlock"
proof (cases b)
  case (Block i ty ti mu ins nx fl cm)
  then show ?thesis using update_title_found [of ti n w v] assms by (auto simp: setTitleValue_def getTitleValue_def)
qed (use assms in \<open>simp add: getTitleValue_def\<close>)

lemma rename_first_named:
  assumes ws: "a_ws s = (b, xy) # ws" "b \<noteq> NoBlock" and n: "named_first E s b f v"
  shows "\<exists>b'. rename_first E w s = (None, s\<lparr>a_ws := (b', xy) # ws\<rparr>) \<and> b' \<noteq> NoBlock \<and> named_first E s b' f w"
proof -
  obtain d where d: "first_field (loader_of E s) b = Some (Some f, d)" and v: "getTitleValue b f = Some v"
    and fx: "e_fix E (b_type b) f = (\<lambda>w. w)" using n by (auto simp: named_first_def)
  obtain b' where b': "setTitleValue w f b = Inr b'" "getTitleValue b' f = Some w" "b_type b' = b_type b" "b' \<noteq> NoBlock"
    using setTitleValue_found [OF v, of w] by blast
  have "first_field (loader_of E s) b' = Some (Some f, d)" using d b'(3) by (simp add: first_field_def)
  moreover have "l_fix (loader_of E s) = e_fix E" by (simp add: loader_of_def)
  ultimately show ?thesis
    using ws d fx b' by (intro exI [of _ b']) (simp add: rename_first_def set_first_value_def named_first_def)
qed

lemma named_first_cong: "a_recovered t = a_recovered s \<Longrightarrow> named_first E t b f v = named_first E s b f v"
  by (simp add: named_first_def loader_of_def)

subsection \<open>\<open>AutoSave\<close>\<close>

text \<open>Saving a task sends it, or does nothing; it changes requests only.\<close>

lemma saveTask_done:
  assumes "autosaved_list (a_store s) = Inr names"
  shows "\<exists>rq. saveTask E block code s = (None, s\<lparr>a_requests := rq\<rparr>)"
proof -
  let ?send = "cookie s ''project_name'' \<noteq> [] \<and> encode_code code \<noteq> []"
  have "saveTask E block code s = whens (\<lambda>_. ?send) (ajax (SaveReq block (block \<notin> set names) (total_blocks s) names)
      [(''id'', ''save''), (''newborn'', bool_str (block \<notin> set names)), (''project'', cookie s ''project_name''), (''block'', block),
       (''code'', encode_code code), (''blockCount'', nat_str (total_blocks s))]) s"
    using assms by (simp add: saveTask_def reads_res_def reads_def Let_def)
  moreover have "\<exists>rq. whens (\<lambda>_. c) (ajax r d) s = (None, s\<lparr>a_requests := rq\<rparr>)" for c r d
  proof (cases c)
    case False
    then have "whens (\<lambda>_. c) (ajax r d) s = (None, s\<lparr>a_requests := a_requests s\<rparr>)" by (simp add: whens_def)
    then show ?thesis by blast
  next
    case True
    then have "whens (\<lambda>_. c) (ajax r d) s = (None, s\<lparr>a_requests := a_requests s @ [(r, d)]\<rparr>)"
      by (simp add: whens_def ajax_def upd_def)
    then show ?thesis by blast
  qed
  ultimately show ?thesis by simp
qed

lemma rename_step:
  assumes "a_ws s = (b, xy) # ws" "b \<noteq> NoBlock" "named_first E s b f v"
  shows "\<exists>b'. whens (\<lambda>_. w \<noteq> v) (rename_first E w) s = (None, s\<lparr>a_ws := (b', xy) # ws\<rparr>) \<and> b' \<noteq> NoBlock \<and>
    named_first E s b' f w"
proof (cases "w = v")
  case True
  then show ?thesis using assms by (intro exI [of _ b]) (simp add: whens_def assms(1) [symmetric])
next
  case False
  then show ?thesis using rename_first_named [OF assms, of w] by (simp add: whens_def)
qed

text \<open>Whether the number of blocks has changed or not, the second step of \<open>AutoSave\<close> changes requests only.\<close>

lemma save_step:
  assumes "autosaved_list (a_store s) = Inr names"
  shows "\<exists>n rq. whens (\<lambda>s. a_countBlocks s \<noteq> Some (block_count s)) (seqs [
      upd (\<lambda>s. s\<lparr>a_countBlocks := Some (block_count s)\<rparr>), saveTask E block code]) s =
    (None, s\<lparr>a_countBlocks := n, a_requests := rq\<rparr>)"
proof (cases "a_countBlocks s = Some (block_count s)")
  case True
  then have "whens (\<lambda>s. a_countBlocks s \<noteq> Some (block_count s)) p s =
    (None, s\<lparr>a_countBlocks := a_countBlocks s, a_requests := a_requests s\<rparr>)" for p
    by (simp add: whens_def)
  then show ?thesis by blast
next
  case False
  let ?s = "s\<lparr>a_countBlocks := Some (block_count s)\<rparr>"
  have "autosaved_list (a_store ?s) = Inr names" using assms by simp
  then obtain rq where "saveTask E block code ?s = (None, ?s\<lparr>a_requests := rq\<rparr>)" using saveTask_done by blast
  then show ?thesis using False by (intro exI [of _ "Some (block_count s)"] exI [of _ rq]) (simp add: whens_def upd_def)
qed

lemma save_local_list:
  "saved_list (a_store s) = Inr l \<Longrightarrow>
    save_local E n c s = (None, s\<lparr>a_store := put_saved (sib_list (bx_names s) n c l) (a_store s)\<rparr>)"
  using saveInBrowser_list [of "a_store s" l "bx_names s" n c] by (simp add: save_local_def reads_res_def upd_def)

text \<open>What \<open>AutoSave\<close> leaves, when the first block has a name: the new name, and the entries of the browser.\<close>

lemma AutoSave_value:
  assumes "a_ws s = (b, xy) # ws" "b \<noteq> NoBlock" "named_first E s b f orig"
    and "saved_list (a_store s) = Inr l" and "autosaved_list (a_store s) = Inr names"
  shows "\<exists>t. AutoSave E s = (None, t) \<and> first_name E t = Some (free_name s orig) \<and> bx_names t = bx_names s \<and>
    saved_list (a_store t) = Inr (sib_list (bx_names s) (free_name s orig) (ws_text E s) l)"
proof -
  let ?name = "free_name s orig"
  define s1 where "s1 = s\<lparr>a_gen := (a_gen s)\<lparr>g_vars := []\<rparr>\<rparr>"
  have s1: "new_variables s = (None, s1)" "a_ws s1 = a_ws s" "a_behaviours s1 = a_behaviours s" "a_store s1 = a_store s" "a_recovered s1 = a_recovered s"
    by (simp_all add: new_variables_def upd_def s1_def)
  have named: "named_first E s1 b f orig" using assms(3) named_first_cong [OF s1(5)] by simp
  have first: "first_name E s1 = Some orig" "ws_text E s1 = ws_text E s" "free_name s1 orig = ?name"
    using named_first_value [OF _ assms(2) named, of xy ws] assms(1) by (simp_all add: s1 ws_text_def free_name_def bx_names_def)
  obtain b2 where b2: "whens (\<lambda>_. ?name \<noteq> orig) (rename_first E ?name) s1 = (None, s1\<lparr>a_ws := (b2, xy) # ws\<rparr>)" "b2 \<noteq> NoBlock"
      "named_first E s1 b2 f ?name"
    using rename_step [OF _ assms(2) named, of xy ws ?name] assms(1) s1(2) by auto
  define s2 where "s2 = s1\<lparr>a_ws := (b2, xy) # ws\<rparr>"
  obtain n rq where s3: "whens (\<lambda>s. a_countBlocks s \<noteq> Some (block_count s)) (seqs [
             upd (\<lambda>s. s\<lparr>a_countBlocks := Some (block_count s)\<rparr>), saveTask E ?name (ws_text E s)]) s2 =
         (None, s2\<lparr>a_countBlocks := n, a_requests := rq\<rparr>)"
    using save_step [of s2 names E ?name "ws_text E s"] assms(5) s1(4) by (auto simp: s2_def)
  define s3 where "s3 = s2\<lparr>a_countBlocks := n, a_requests := rq\<rparr>"
  have stores: "saved_list (a_store s3) = Inr l" "bx_names s3 = bx_names s"
    using assms(4) s1(3,4) by (simp_all add: s3_def s2_def bx_names_def)
  let ?l = "sib_list (bx_names s) ?name (ws_text E s) l"
  define t where "t = (s3\<lparr>a_store := put_saved ?l (a_store s3)\<rparr>)\<lparr>a_countBlocks := Some (block_count (s3\<lparr>a_store := put_saved ?l (a_store s3)\<rparr>))\<rparr>"
  have count: "1 \<le> block_count s" using assms(1,2) by (simp add: block_count_def all_blocks_def)
  have "AutoSave E s = (None, t)"
    unfolding AutoSave_def seqs.simps(2) whens_true [of "\<lambda>s. 1 \<le> block_count s", OF count] s1(1) prod.case option.case
      reads_def [of "\<lambda>s. (ws_text E s, first_name E s)"] first reads_def [of "\<lambda>s. free_name s orig"] b2(1) s2_def [symmetric]
      s3 s3_def [symmetric] save_local_list [OF stores(1)] stores(2)
    by (simp add: upd_def t_def)
  moreover have "first_name E t = Some ?name"
    using named_first_value [of t b2 xy ws E f ?name] b2(2,3) named_first_cong [of t s1] by (simp add: t_def s3_def s2_def)
  moreover have "bx_names t = bx_names s" using stores(2) by (simp add: t_def bx_names_def)
  ultimately show ?thesis by (intro exI [of _ t]) (simp add: t_def)
qed

text \<open>C33. \<open>AutoSave\<close> ends - whatever names the ready behaviours have - without an exception, and then the
  behaviour in the workspace has a name that no ready behaviour has: its own if that is free, else
  its own with the smallest free number behind it. The browser has stored it under that name, and
  still has every entry of a ready behaviour.
\<close>

theorem AutoSave_free_name:
  assumes "a_ws s = (b, xy) # ws" and "b \<noteq> NoBlock" and "named_first E s b f orig"
    and "saved_list (a_store s) = Inr l" and "autosaved_list (a_store s) = Inr names"
  shows "\<exists>t l'. AutoSave E s = (None, t) \<and> first_name E t = Some (free_name s orig) \<and>
    free_name s orig \<notin> set (bx_names t) \<and> (orig \<notin> set (bx_names s) \<longrightarrow> free_name s orig = orig) \<and>
    saved_list (a_store t) = Inr l' \<and> (free_name s orig, ws_text E s) \<in> set l' \<and>
    {e \<in> set l. fst e \<in> set (bx_names t)} \<subseteq> set l'"
proof -
  let ?name = "free_name s orig" and ?l = "sib_list (bx_names s) (free_name s orig) (ws_text E s) l"
  obtain t where t: "AutoSave E s = (None, t)" "first_name E t = Some ?name" "bx_names t = bx_names s" "saved_list (a_store t) = Inr ?l"
    using AutoSave_value [OF assms] by blast
  have "{e \<in> set l. fst e \<in> set (bx_names t)} \<subseteq> set ?l"
  proof
    fix e
    assume "e \<in> {e \<in> set l. fst e \<in> set (bx_names t)}"
    then have e: "e \<in> set l" "fst e \<in> set (bx_names s)" by (simp_all add: t(3))
    then have "fst e \<noteq> ?name" using free_name_free [of s orig] by metis
    then show "e \<in> set ?l" by (intro sib_list_keeps e)
  qed
  moreover have "?name \<notin> set (bx_names t)" "orig \<notin> set (bx_names s) \<longrightarrow> ?name = orig"
    using free_name_free free_name_same by (simp_all add: t(3))
  moreover have "(?name, ws_text E s) \<in> set ?l" by (rule sib_list_has)
  ultimately show ?thesis using t by (intro exI [of _ t] exI [of _ ?l] conjI)
qed

lemma demo_named: "a_recovered s = [] \<Longrightarrow> named_first demo_E s demo_behaviour ''TEXT'' ''a<b''"
proof -
  assume "a_recovered s = []"
  then have "l_proto (loader_of demo_E s) ''controls_behaviour'' = demo_proto ''controls_behaviour''"
    by (simp add: loader_of_def demo_E_def demo_protos)
  moreover have "map_res (\<lambda>p. case p_inputs p of [] \<Rightarrow> None | i # _ \<Rightarrow> (case pi_row i of [] \<Rightarrow> None | r # _ \<Rightarrow> fst r)) (demo_proto ''controls_behaviour'') = Inr (Some ''TEXT'')"
    by code_simp
  ultimately have "\<exists>d. first_field (loader_of demo_E s) demo_behaviour = Some (Some ''TEXT'', d)"
    by (cases "demo_proto ''controls_behaviour''") (auto simp: first_field_def demo_behaviour_def split: list.splits)
  then show ?thesis by (simp add: named_first_def demo_behaviour_def getTitleValue_def demo_E_def)
qed

theorem AutoSave_free_name_witness:
  "\<exists>t l'. AutoSave demo_E (demo_edited\<lparr>a_behaviours := [\<lparr>bx_id = 1, bx_text = [], bx_name = ''a<b'', bx_size = 1\<rparr>]\<rparr>) = (None, t) \<and>
    first_name demo_E t = Some ''a<b1'' \<and> saved_list (a_store t) = Inr l' \<and> ''a<b1'' \<in> fst ` set l'"
proof -
  let ?s = "demo_edited\<lparr>a_behaviours := [\<lparr>bx_id = 1, bx_text = [], bx_name = ''a<b'', bx_size = 1\<rparr>]\<rparr>"
  have store: "saved_list (a_store ?s) = Inr []" "autosaved_list (a_store ?s) = Inr []"
    by (simp_all add: demo_edited_def demo_page_def new_page_def saved_list_def autosaved_list_def)
  have "free_index [''a<b''] ''a<b'' 0 = 1"
    by (simp add: free_index.simps [of "[''a<b'']"] numbered_def nat_str.simps digit_def)
  then have free: "free_name ?s ''a<b'' = ''a<b1''"
    by (simp add: free_name_def bx_names_def numbered_def nat_str.simps digit_def)
  obtain t l' where "AutoSave demo_E ?s = (None, t)" "first_name demo_E t = Some ''a<b1''" "saved_list (a_store t) = Inr l'"
      "(''a<b1'', ws_text demo_E ?s) \<in> set l'"
    using AutoSave_free_name [of ?s demo_behaviour "(20, 30)" "[]" demo_E "''TEXT''" "''a<b''", OF _ _ demo_named store] free
    by (auto simp: demo_behaviour_def)
  then show ?thesis by force
qed


subsection \<open>Answers that cross\<close>

lemma autosaved_put: "autosaved_list (st\<lparr>yatay_bxs_autosaved := Some (names_text l)\<rparr>) = Inr l"
proof -
  have "json_parse (names_text l) = Some (JArr (map JStr l))" unfolding names_text_def by (rule json_roundtrip)
  moreover have "all_some (map (str_of \<circ> JStr) l) = Some (map (\<lambda>t. t) l)" by (rule all_some_map) simp
  moreover have "names_text l \<noteq> []" by (simp add: names_text_def)
  ultimately show ?thesis by (simp add: autosaved_list_def)
qed

text \<open>A save that is sent: the request carries the names known when it was sent.\<close>

lemma saveTask_sends:
  assumes "autosaved_list (a_store s) = Inr l" and "b \<notin> set l" and "cookie s ''project_name'' \<noteq> []" and "c \<noteq> []"
  shows "\<exists>d. saveTask E b c s = (None, s\<lparr>a_requests := a_requests s @ [(SaveReq b True (total_blocks s) l, d)]\<rparr>)"
proof -
  have "encode_code [] = []" by code_simp
  then have "encode_code c \<noteq> []" using task_codec.dec_enc [of c] task_codec.dec_enc [of "[]"] assms(4) by auto
  then show ?thesis
    using assms by (intro exI [of _ "[(''id'', ''save''), (''newborn'', bool_str True), (''project'', cookie s ''project_name''), (''block'', b),
        (''code'', encode_code c), (''blockCount'', nat_str (total_blocks s))]"])
      (simp add: saveTask_def reads_res_def reads_def whens_def ajax_def upd_def Let_def)
qed

lemma reply_adds:
  assumes "b \<noteq> []" and "n > 1"
  shows "saveTask_reply E b True n l b s = (None, s\<lparr>a_store := (a_store s)\<lparr>yatay_bxs_autosaved := Some (names_text (l @ [b]))\<rparr>\<rparr>)"
  using assms by (simp add: saveTask_reply_def act_simps)

text \<open>C36. Answers to saves must not cross: when a second new behaviour is saved before the server has
  answered for the first, the answer for the second overwrites the list of saved names with the
  names it knew, and the first is forgotten, so that its next save is a new behaviour for the
  server again. When each save is answered before the next, both names are kept.
\<close>

theorem crossing_saves_forget:
  assumes l: "autosaved_list (a_store s) = Inr l" and new: "b1 \<notin> set l" "b2 \<notin> set l" "b1 \<noteq> b2" "b1 \<noteq> []" "b2 \<noteq> []"
    and p: "cookie s ''project_name'' \<noteq> []" and c: "c1 \<noteq> []" "c2 \<noteq> []" and n: "total_blocks s > 1"
  shows "(\<exists>u r1 r2 d1 d2 t. seqs [saveTask E b1 c1, saveTask E b2 c2] s = (None, u) \<and>
      a_requests u = a_requests s @ [(r1, d1), (r2, d2)] \<and>
      seqs [reply E r1 (Content b1), reply E r2 (Content b2)] u = (None, t) \<and>
      autosaved_list (a_store t) = Inr (l @ [b2])) \<and>
    (\<exists>u r1 d1 v r2 d2 t. saveTask E b1 c1 s = (None, u) \<and> a_requests u = a_requests s @ [(r1, d1)] \<and>
      seqs [reply E r1 (Content b1), saveTask E b2 c2] u = (None, v) \<and> a_requests v = a_requests u @ [(r2, d2)] \<and>
      reply E r2 (Content b2) v = (None, t) \<and> autosaved_list (a_store t) = Inr (l @ [b1, b2]))"
proof
  let ?n = "total_blocks s"
  let ?r1 = "SaveReq b1 True ?n l"
  let ?put = "\<lambda>l s. s\<lparr>a_store := (a_store s)\<lparr>yatay_bxs_autosaved := Some (names_text l)\<rparr>\<rparr> :: app"
  obtain d1 where d1: "saveTask E b1 c1 s = (None, s\<lparr>a_requests := a_requests s @ [(?r1, d1)]\<rparr>)"
    using saveTask_sends [OF l new(1) p c(1)] by blast
  let ?u = "s\<lparr>a_requests := a_requests s @ [(?r1, d1)]\<rparr>"
  have frame: "cookie (s\<lparr>a_requests := r, a_store := st\<rparr>) = cookie s" "total_blocks (s\<lparr>a_requests := r, a_store := st\<rparr>) = ?n"
      "cookie (s\<lparr>a_requests := r\<rparr>) = cookie s" "total_blocks (s\<lparr>a_requests := r\<rparr>) = ?n" for r st
    by (simp_all add: cookie_def fun_eq_iff total_blocks_def block_count_def all_blocks_def)
  have rep: "reply E (SaveReq b True ?n l') (Content b) s' = (None, ?put (l' @ [b]) s')" if "b \<noteq> []" for b l' s'
    using reply_adds [OF that n] by (simp add: reply_def)
  obtain d2 where d2: "saveTask E b2 c2 ?u = (None, ?u\<lparr>a_requests := a_requests ?u @ [(SaveReq b2 True ?n l, d2)]\<rparr>)"
    using saveTask_sends [of ?u l b2 c2 E] l new(2) p c(2) frame by auto
  let ?w = "?u\<lparr>a_requests := a_requests ?u @ [(SaveReq b2 True ?n l, d2)]\<rparr>"
  have "seqs [saveTask E b1 c1, saveTask E b2 c2] s = (None, ?w)" by (simp add: d1 d2)
  moreover have "seqs [reply E ?r1 (Content b1), reply E (SaveReq b2 True ?n l) (Content b2)] ?w = (None, ?put (l @ [b2]) (?put (l @ [b1]) ?w))"
    by (simp only: seqs.simps rep [OF new(4)] rep [OF new(5)] prod.case option.case)
  moreover have "autosaved_list (a_store (?put (l @ [b2]) (?put (l @ [b1]) ?w))) = Inr (l @ [b2])" by (simp add: autosaved_put)
  ultimately show "\<exists>u r1 r2 d1 d2 t. seqs [saveTask E b1 c1, saveTask E b2 c2] s = (None, u) \<and>
      a_requests u = a_requests s @ [(r1, d1), (r2, d2)] \<and>
      seqs [reply E r1 (Content b1), reply E r2 (Content b2)] u = (None, t) \<and>
      autosaved_list (a_store t) = Inr (l @ [b2])"
    by (intro exI conjI) (assumption | simp)+
  let ?v = "?put (l @ [b1]) ?u"
  obtain d3 where d3: "saveTask E b2 c2 ?v = (None, ?v\<lparr>a_requests := a_requests ?v @ [(SaveReq b2 True ?n (l @ [b1]), d3)]\<rparr>)"
    using saveTask_sends [of ?v "l @ [b1]" b2 c2 E] autosaved_put new(2,3) p c(2) frame by auto
  let ?x = "?v\<lparr>a_requests := a_requests ?v @ [(SaveReq b2 True ?n (l @ [b1]), d3)]\<rparr>"
  have run: "seqs [reply E ?r1 (Content b1), saveTask E b2 c2] ?u = (None, ?x)"
    by (simp only: seqs.simps rep [OF new(4)] d3 prod.case option.case)
  have last: "reply E (SaveReq b2 True ?n (l @ [b1])) (Content b2) ?x = (None, ?put ((l @ [b1]) @ [b2]) ?x)" by (rule rep [OF new(5)])
  have names: "autosaved_list (a_store (?put ((l @ [b1]) @ [b2]) ?x)) = Inr (l @ [b1, b2])"
    using autosaved_put [where st = "a_store ?x" and l = "(l @ [b1]) @ [b2]"] by simp
  show "\<exists>u r1 d1 v r2 d2 t. saveTask E b1 c1 s = (None, u) \<and> a_requests u = a_requests s @ [(r1, d1)] \<and>
      seqs [reply E r1 (Content b1), saveTask E b2 c2] u = (None, v) \<and> a_requests v = a_requests u @ [(r2, d2)] \<and>
      reply E r2 (Content b2) v = (None, t) \<and> autosaved_list (a_store t) = Inr (l @ [b1, b2])"
    by (intro exI conjI) (rule d1, simp, rule run, simp, rule last, rule names)
qed


theorem crossing_saves_forget_witness:
  "\<exists>s u t r1 r2 d1 d2. seqs [saveTask demo_E ''a'' ''x'', saveTask demo_E ''b'' ''y''] s = (None, u) \<and>
    a_requests u = [(r1, d1), (r2, d2)] \<and> seqs [reply demo_E r1 (Content ''a''), reply demo_E r2 (Content ''b'')] u = (None, t) \<and>
    autosaved_list (a_store t) = Inr [''b'']"
proof -
  let ?s = "demo_edited\<lparr>a_jar := [(''project_name'', ''p'')]\<rparr>"
  have none: "autosaved_list (a_store ?s) = Inr []" "a_requests ?s = []"
    by (simp_all add: demo_edited_def demo_page_def new_page_def autosaved_list_def)
  have "getCookie ''project_name'' [(''project_name'', ''p'')] = Some ''p''" by code_simp
  then have cookie: "cookie ?s ''project_name'' \<noteq> []" by (simp add: cookie_def js_str_def)
  have "length (getAllBlocks [demo_behaviour]) = 3" by code_simp
  then have "total_blocks ?s > 1" by (simp add: total_blocks_def block_count_def all_blocks_def del: getAllBlocks.simps)
  from crossing_saves_forget [OF none(1) _ _ _ _ _ cookie _ _ this, of "''a''" "''b''" "''x''" "''y''" demo_E, THEN conjunct1] none(2)
  show ?thesis by simp blast
qed

end
