(* ===== verification/FileProps.thy ===== *)
theory FileProps
  imports SavingProps
begin

text \<open>
  Files. \<open>toXml\<close> saves the texts of the ready behaviours one behind the other, and \<open>fromXml\<close> takes
  the file apart at every \<open></xml>\<close>. That is right because this text occurs in a document only at
  its end: in what the user typed, the less-than sign is escaped.
\<close>

subsection \<open>Where the end tag occurs\<close>

text \<open>After a less-than sign there is something else than the rest of the end tag, and a greater-than sign.\<close>

definition no_end :: "string \<Rightarrow> bool" where
  "no_end s \<longleftrightarrow> (\<forall>a r. s = a @ CHR ''<'' # r \<longrightarrow> \<not> is_prefix ''/xml>'' r \<and> CHR ''>'' \<in> set r)"

lemma no_end_plain: "CHR ''<'' \<notin> set s \<Longrightarrow> no_end s"
  by (auto simp: no_end_def)

lemma no_end_tl: "no_end (c # s) \<Longrightarrow> no_end s"
  unfolding no_end_def by (metis append_Cons)

lemma prefix_append_cases: "is_prefix p (a @ b) \<Longrightarrow> is_prefix p a \<or> (\<exists>q. p = a @ q)"
  by (induction p a rule: is_prefix.induct) auto

lemma no_end_mid: "\<not> is_prefix ''/xml>'' r \<Longrightarrow> CHR ''>'' \<in> set r \<Longrightarrow> \<not> is_prefix ''/xml>'' (r @ s)"
proof
  assume r: "\<not> is_prefix ''/xml>'' r" "CHR ''>'' \<in> set r" and "is_prefix ''/xml>'' (r @ s)"
  then obtain q where q: "''/xml>'' = r @ q" using prefix_append_cases by blast
  then have "q \<noteq> []" using r(1) by (auto simp: is_prefix_iff)
  then have "CHR ''>'' \<notin> set r" using q by (auto simp: append_eq_Cons_conv Cons_eq_append_conv)
  then show False using r(2) by blast
qed

lemma no_end_append: "no_end a \<Longrightarrow> no_end b \<Longrightarrow> no_end (a @ b)"
proof -
  assume a: "no_end a" and b: "no_end b"
  have "\<not> is_prefix ''/xml>'' r \<and> CHR ''>'' \<in> set r" if eq: "a @ b = u @ CHR ''<'' # r" for u r
  proof (cases "length u < length a")
    case True
    then obtain r' where r': "a = u @ CHR ''<'' # r'" "r = r' @ b"
      using eq by (auto simp: append_eq_append_conv2 append_eq_Cons_conv Cons_eq_append_conv)
    then have "\<not> is_prefix ''/xml>'' r'" "CHR ''>'' \<in> set r'" using a by (auto simp: no_end_def)
    then show ?thesis using no_end_mid r'(2) by simp
  next
    case False
    then obtain v where "b = v @ CHR ''<'' # r" using eq by (auto simp: append_eq_append_conv2)
    then show ?thesis using b by (auto simp: no_end_def)
  qed
  then show ?thesis by (auto simp: no_end_def)
qed

lemma no_end_concat: "\<forall>s \<in> set ss. no_end s \<Longrightarrow> no_end (concat ss)"
  by (induction ss) (auto intro: no_end_append no_end_plain)

lemma escaped_plain: "CHR ''<'' \<notin> set (escape_text s)"
  by (auto simp: escape_text_def xml_escape_def)

lemma no_end_tag:
  assumes "CHR ''<'' \<notin> set r" and "CHR ''>'' \<in> set r" and "\<not> is_prefix ''/xml>'' r"
  shows "no_end (CHR ''<'' # r)"
  unfolding no_end_def using assms by (auto simp: Cons_eq_append_conv)

fun tags_ok :: "xml \<Rightarrow> bool" where
  "tags_ok (Txt s) = True"
| "tags_ok (Elem n at ks) \<longleftrightarrow> xml_name n \<and> n \<noteq> ''xml'' \<and> list_all (\<lambda>a. xml_name (fst a)) at \<and> list_all tags_ok ks"

lemma xml_name_plain: "xml_name n \<Longrightarrow> CHR ''<'' \<notin> set n \<and> CHR ''>'' \<notin> set n \<and> CHR ''/'' \<notin> set n \<and> n \<noteq> []"
  by (auto simp: xml_name_def name_char_def list_all_iff)

lemma attrs_plain: "list_all (\<lambda>a. xml_name (fst a)) at \<Longrightarrow> CHR ''<'' \<notin> set (concat (map attr_text at))"
  using escaped_plain xml_name_plain by (induction at) (auto simp: attr_text_def)

lemma no_end_open:
  assumes "xml_name n" and "list_all (\<lambda>a. xml_name (fst a)) at"
  shows "no_end (CHR ''<'' # n @ concat (map attr_text at) @ ''>'')"
proof (rule no_end_tag)
  show "CHR ''<'' \<notin> set (n @ concat (map attr_text at) @ ''>'')"
    using xml_name_plain [OF assms(1)] attrs_plain [OF assms(2)] by simp
  show "\<not> is_prefix ''/xml>'' (n @ concat (map attr_text at) @ ''>'')"
    using xml_name_plain [OF assms(1)] by (cases n) auto
qed simp

lemma no_end_close:
  assumes "xml_name n" and "n \<noteq> ''xml''"
  shows "no_end (''</'' @ n @ ''>'')"
proof -
  have "no_end (CHR ''<'' # CHR ''/'' # n @ ''>'')"
  proof (rule no_end_tag)
    show "\<not> is_prefix ''/xml>'' (CHR ''/'' # n @ ''>'')"
    proof
      assume "is_prefix ''/xml>'' (CHR ''/'' # n @ ''>'')"
      then obtain r where "n @ ''>'' = ''xml'' @ ''>'' @ r" by (auto simp: is_prefix_iff)
      then have "takeWhile (\<lambda>c. c \<noteq> CHR ''>'') (n @ ''>'') = ''xml''" by simp
      moreover have "takeWhile (\<lambda>c. c \<noteq> CHR ''>'') (n @ ''>'') = n"
        using xml_name_plain [OF assms(1)] by (subst takeWhile_append2) auto
      ultimately have "n = ''xml''" by simp
      then show False using assms(2) by simp
    qed
  qed (use xml_name_plain [OF assms(1)] in auto)
  then show ?thesis by simp
qed

lemma no_end_text: "tags_ok x \<Longrightarrow> no_end (domToText x)"
proof (induction x rule: domToText.induct)
  case (1 s)
  then show ?case using escaped_plain no_end_plain by simp
next
  case (2 n at ks)
  have "no_end ((CHR ''<'' # n @ concat (map attr_text at) @ ''>'') @ concat (map domToText ks) @ ''</'' @ n @ ''>'')"
    using 2 by (intro no_end_append no_end_open no_end_close no_end_concat) (auto simp: list_all_iff)
  then show ?case by simp
qed

lemma break_at_end: "no_end s \<Longrightarrow> break_at xmlEndTag (s @ xmlEndTag @ r) = Some (s, r)"
proof (induction s)
  case Nil
  then show ?case by (simp add: xmlEndTag_def)
next
  case (Cons c s)
  have "\<not> is_prefix xmlEndTag (c # s @ xmlEndTag @ r)"
  proof
    assume "is_prefix xmlEndTag (c # s @ xmlEndTag @ r)"
    then have c: "c = CHR ''<''" "is_prefix ''/xml>'' (s @ xmlEndTag @ r)" by (auto simp: xmlEndTag_def)
    have "\<not> is_prefix ''/xml>'' s" "CHR ''>'' \<in> set s" using Cons.prems c(1) by (auto simp: no_end_def)
    then show False using no_end_mid c(2) by blast
  qed
  then show ?case using Cons.IH no_end_tl [OF Cons.prems] by simp
qed

subsection \<open>Documents of a workspace\<close>

lemma tags_written:
  "b \<noteq> NoBlock \<longrightarrow> tags_ok (blockToDom V b)"
  "list_all tags_ok (input_dom V i)"
proof (induction b and i)
  case (Block i ty ti mu ins nx fl cm)
  have "list_all (\<lambda>a. xml_name (fst a)) (block_attrs ty ins fl)" by (simp add: block_attrs_def)
  moreover have "list_all tags_ok (concat (map (input_dom V) ins))" using Block.IH(1) by (induction ins) simp_all
  moreover have "list_all tags_ok (map title_dom ti)" by (induction ti) (simp_all add: title_dom_def text_kids_def)
  moreover have "list_all tags_ok (comment_dom V i cm)" by (simp add: comment_dom_def text_kids_def split: option.split prod.split)
  moreover have "list_all tags_ok (mutation_kids (Block i ty ti mu ins nx fl cm))"
    by (simp add: mutation_kids_def mutationToDom_def split: option.split prod.split)
  ultimately show ?case using Block.IH(2) by simp
qed simp_all

lemma written_shape:
  assumes "b \<noteq> NoBlock"
  shows "\<exists>s. no_end s \<and> domToText (workspaceToDom V [(b, xy)]) = s @ xmlEndTag"
proof -
  obtain at ks where dom: "blockToDom V b = Elem ''block'' at ks" using assms by (cases b) auto
  have "tags_ok (blockToDom V b)" using tags_written(1) assms by blast
  then have "tags_ok (top_dom V (b, xy))" by (cases xy) (simp add: top_dom_def dom)
  then have "no_end ((CHR ''<'' # ''xml'' @ concat (map attr_text [(''xmlns'', xhtml)]) @ ''>'') @ domToText (top_dom V (b, xy)))"
    by (intro no_end_append no_end_open no_end_text) simp_all
  then show ?thesis
    by (intro exI conjI) (assumption, simp add: workspaceToDom_def surface_order_def xmlEndTag_def)
qed

lemma split_documents:
  "list_all no_end ss \<Longrightarrow> js_split xmlEndTag (concat (map (\<lambda>s. s @ xmlEndTag) ss)) = ss @ [[]]"
proof (induction ss)
  case Nil
  have "break_at xmlEndTag [] = None" by (simp add: xmlEndTag_def)
  then show ?case by (subst js_split.simps) (simp add: xmlEndTag_def)
next
  case (Cons s ss)
  have "break_at xmlEndTag (concat (map (\<lambda>s. s @ xmlEndTag) (s # ss))) = Some (s, concat (map (\<lambda>s. s @ xmlEndTag) ss))"
    using break_at_end [of s "concat (map (\<lambda>s. s @ xmlEndTag) ss)"] Cons.prems by simp
  then show ?case using Cons by (subst js_split.simps) (simp add: xmlEndTag_def)
qed

text \<open>New numbers do not show in the text when comments look alike.\<close>

definition same_bubbles :: "view \<Rightarrow> bool" where
  "same_bubbles V \<longleftrightarrow> (\<forall>i j. v_bubble V i = v_bubble V j)"

lemma comment_same: "same_bubbles V \<Longrightarrow> comment_dom V i cm = comment_dom V j cm"
  unfolding same_bubbles_def comment_dom_def by metis

lemma value_kind: "list_ex (\<lambda>i. i_kind i = ValueInput) ins \<longleftrightarrow> ValueInput \<in> set (map i_kind ins)"
  by (induction ins) auto

lemma written_renumber:
  assumes "same_bubbles V"
  shows "blockToDom V (fst (renumber k b)) = blockToDom V b"
    and "map (input_dom V) (fst (renumber_ins k ins)) = map (input_dom V) ins \<and>
      map i_kind (fst (renumber_ins k ins)) = map i_kind ins"
proof (induction k b and k ins rule: renumber_renumber_ins.induct)
  case (2 k i ty ti mu ins nx fl cm)
  obtain ins' k1 where r1: "renumber_ins (Suc k) ins = (ins', k1)" by force
  obtain nx' k2 where r2: "renumber k1 nx = (nx', k2)" by force
  have "map i_kind ins' = map i_kind ins" "map (input_dom V) ins' = map (input_dom V) ins" using "2.IH"(1) r1 by simp_all
  moreover from this have "list_ex (\<lambda>i. i_kind i = ValueInput) ins' = list_ex (\<lambda>i. i_kind i = ValueInput) ins"
    using value_kind [of ins] value_kind [of ins'] by simp
  moreover have "nx' = NoBlock \<longleftrightarrow> nx = NoBlock" using renumber_kind [of k1 nx] r2 by simp
  moreover have "blockToDom V nx' = blockToDom V nx" using "2.IH"(2) [OF r1 [symmetric]] r2 by simp
  ultimately show ?case
    using r1 r2 comment_same [OF assms, of "Suc k" cm i] by (simp add: block_attrs_def mutation_kids_def mutationToDom_def)
next
  case (4 k n kd t ins)
  obtain t' k1 where r1: "renumber k t = (t', k1)" by force
  obtain ins' k2 where r2: "renumber_ins k1 ins = (ins', k2)" by force
  have "t' = NoBlock \<longleftrightarrow> t = NoBlock" using renumber_kind [of k t] r1 by simp
  moreover have "blockToDom V t' = blockToDom V t" using "4.IH"(1) r1 by simp
  moreover have "map (input_dom V) ins' = map (input_dom V) ins" "map i_kind ins' = map i_kind ins"
    using "4.IH"(2) [OF r1 [symmetric]] r2 by simp_all
  ultimately show ?case using r1 r2 by simp
qed simp_all


subsection \<open>Saving and opening a file\<close>

definition listed_ok :: "loader \<Rightarrow> view \<Rightarrow> behaviour \<Rightarrow> bool" where
  "listed_ok L V x \<longleftrightarrow> (\<exists>b xy. bx_text x = domToText (workspaceToDom V [(b, xy)]) \<and> is_behaviour b \<and> top_ok L (b, xy) \<and>
     first_value L b = Some (bx_name x))"

definition entry :: "behaviour \<Rightarrow> string \<times> string" where
  "entry x = (bx_name x, bx_text x)"

lemma first_value_renumber: "b \<noteq> NoBlock \<Longrightarrow> first_value L (fst (renumber k b)) = first_value L b"
  by (cases b) (simp_all add: first_value_def first_field_def getTitleValue_def split: prod.split option.split)

lemma text_renumber:
  assumes "same_bubbles V" and "b \<noteq> NoBlock"
  shows "workspaceToDom V [(fst (renumber k b), xy)] = workspaceToDom V [(b, xy)]"
  using written_renumber(1) [OF assms(1), of k b] by (cases xy) (simp add: workspaceToDom_def surface_order_def top_dom_def)

lemma behaviour_renumber: "is_behaviour b \<Longrightarrow> is_behaviour (fst (renumber k b))"
  by (auto simp: is_behaviour_def)

text \<open>One behaviour of the file becomes one entry of the list.\<close>

lemma load_entry:
  assumes "a_ws s = []" and "listed_ok (loader_of E s) (e_view E) x" and "same_bubbles (e_view E)"
  shows "\<exists>t. seqs [load_text E (bx_text x), bxReady E] s = (None, t) \<and> a_ws t = [] \<and> loader_of E t = loader_of E s \<and>
    map entry (a_behaviours t) = map entry (a_behaviours s) @ [entry x]"
proof -
  obtain b xy where b: "bx_text x = domToText (workspaceToDom (e_view E) [(b, xy)])" "is_behaviour b"
      "top_ok (loader_of E s) (b, xy)" "first_value (loader_of E s) b = Some (bx_name x)"
    using assms(2) by (auto simp: listed_ok_def)
  have nb: "b \<noteq> NoBlock" using b(2) by (simp add: is_behaviour_def)
  let ?b = "fst (renumber (a_uid s) b)"
  define s1 where "s1 = s\<lparr>a_ws := [(?b, xy)], a_uid := snd (renumber (a_uid s) b)\<rparr>"
  have dom: "domToWs E (workspaceToDom (e_view E) [(b, xy)]) s = (None, s1)"
    using domToWs_written [of E s "[(b, xy)]"] b(3) assms(1) by (simp add: s1_def surface_order_def split: prod.split)
  have "textToDom (bx_text x) = Inr (workspaceToDom (e_view E) [(b, xy)])"
    unfolding b(1) by (rule workspace_text_parses) (simp add: nb)
  then have load: "load_text E (bx_text x) s = (None, s1)" using dom by (simp add: load_text_def)
  have l: "loader_of E s1 = loader_of E s" by (simp add: s1_def loader_of_def)
  have "?b \<noteq> NoBlock" using nb by simp
  then have "first_name E s1 = Some (bx_name x)"
    using first_value_renumber [OF nb] b(4) by (simp add: first_name_def first_block_def l) (simp add: s1_def)
  then obtain t where t: "bxReady E s1 = (None, t)" "same_setting s1 t" "a_ws t = []"
      "a_behaviours t = a_behaviours s1 @ [entry_of E s1 ?b (bx_name x)]"
    using bxReady_single [of s1 ?b xy E "bx_name x"] behaviour_renumber [OF b(2)] by (auto simp: s1_def)
  have "ws_text E s1 = bx_text x" using text_renumber [OF assms(3) nb] by (simp add: ws_text_def s1_def b(1))
  then have "map entry (a_behaviours t) = map entry (a_behaviours s) @ [entry x]"
    by (simp add: t(4) entry_def entry_of_def) (simp add: s1_def)
  then show ?thesis using load t l same_setting_loader [OF t(2)] by simp
qed

lemma load_entries:
  assumes "a_ws s = []" and "\<forall>x \<in> set xs. listed_ok (loader_of E s) (e_view E) x" and "same_bubbles (e_view E)"
  shows "\<exists>t. seqs (concat (map (\<lambda>x. [load_text E (bx_text x), bxReady E]) xs)) s = (None, t) \<and> a_ws t = [] \<and>
    map entry (a_behaviours t) = map entry (a_behaviours s) @ map entry xs"
  using assms(1,2)
proof (induction xs arbitrary: s)
  case (Cons x xs)
  then obtain t where t: "seqs [load_text E (bx_text x), bxReady E] s = (None, t)" "a_ws t = []" "loader_of E t = loader_of E s"
      "map entry (a_behaviours t) = map entry (a_behaviours s) @ [entry x]"
    using load_entry [OF Cons.prems(1) _ assms(3)] by (metis list.set_intros(1))
  obtain u where u: "seqs (concat (map (\<lambda>x. [load_text E (bx_text x), bxReady E]) xs)) t = (None, u)" "a_ws u = []"
      "map entry (a_behaviours u) = map entry (a_behaviours t) @ map entry xs"
    using Cons.IH [OF t(2)] Cons.prems(2) t(3) by auto
  have "seqs (concat (map (\<lambda>x. [load_text E (bx_text x), bxReady E]) (x # xs))) s = (None, u)"
    unfolding list.map(2) concat.simps(2) seqs_append t(1) prod.case option.case by (rule u(1))
  then show ?case using u(2,3) t(4) by simp
qed simp

text \<open>The file is the texts one behind the other, and is taken apart into them.\<close>

lemma listed_shape: "listed_ok L V x \<Longrightarrow> \<exists>s. no_end s \<and> bx_text x = s @ xmlEndTag"
  unfolding listed_ok_def using written_shape by (metis is_behaviour_def)

lemma split_file:
  assumes "\<forall>x \<in> set xs. listed_ok L V x"
  shows "map (\<lambda>p. p @ xmlEndTag) (butlast (js_split xmlEndTag (concat (map bx_text xs)))) = map bx_text xs"
proof -
  have "\<exists>ss. list_all no_end ss \<and> map bx_text xs = map (\<lambda>s. s @ xmlEndTag) ss"
    using assms
  proof (induction xs)
    case (Cons x xs)
    then obtain ss where ss: "list_all no_end ss" "map bx_text xs = map (\<lambda>s. s @ xmlEndTag) ss" by auto
    obtain s where "no_end s" "bx_text x = s @ xmlEndTag" using listed_shape Cons.prems by (metis list.set_intros(1))
    then show ?case using ss by (intro exI [of _ "s # ss"]) simp
  qed simp
  then obtain ss where ss: "list_all no_end ss" "map bx_text xs = map (\<lambda>s. s @ xmlEndTag) ss" by blast
  show ?thesis unfolding ss(2) split_documents [OF ss(1)] by simp
qed

lemma toXml_listed:
  assumes "a_ws s = []" and "a_behaviours s \<noteq> []" and "\<not> is_android_browser (e_agent E)"
  shows "\<exists>t. toXml E s = (None, t) \<and> a_behaviours t = a_behaviours s \<and>
    a_effects t = a_effects s @ [SavedFile (msg E ''FILE_BLOCKS'' @ ''.xml'') (concat (map bx_text (a_behaviours s)))]"
  using assms by (simp add: toXml_def debounced_def disarm_def act_simps block_count_def all_blocks_def happens_def setTimeout_def)

lemma whens_nothing: "a_ws s = [] \<Longrightarrow> whens (\<lambda>s. block_count s > 0) a s = (None, s)"
  by (simp add: whens_def block_count_def all_blocks_def)

lemma leave_nothing:
  "a_ws s = [] \<Longrightarrow> leaveOnlyBehavioursInWspace E s = (None, if \<not> a_butiaSel s \<and> \<not> a_testMode s then put_ws [] s else s)"
  by (simp add: leaveOnlyBehavioursInWspace_def act_simps kept_tops_def)

lemma fromXml_opened:
  assumes "a_ws p = []" and "same_bubbles (e_view E)" and "xs \<noteq> []"
    and "\<forall>x \<in> set xs. listed_ok (loader_of E p) (e_view E) x"
  shows "\<exists>u. fromXml E n (p\<lparr>a_fileCode := concat (map bx_text xs)\<rparr>) = Some (None, u) \<and> a_ws u = [] \<and> a_fileCode u = [] \<and>
    map entry (a_behaviours u) = map entry (a_behaviours p) @ map entry xs"
proof -
  let ?code = "concat (map bx_text xs)"
  obtain q where q: "leaveOnlyBehavioursInWspace E (p\<lparr>a_fileCode := ?code\<rparr>) = (None, q)" "a_ws q = []" "a_fileCode q = ?code"
      "loader_of E q = loader_of E p" "a_behaviours q = a_behaviours p"
    using leave_nothing [where s = "p\<lparr>a_fileCode := ?code\<rparr>"] assms(1) by (simp add: loader_of_def put_ws_def)
  have parts: "map (\<lambda>p. [load_text E (p @ xmlEndTag), bxReady E]) (butlast (js_split xmlEndTag ?code)) =
      map (\<lambda>x. [load_text E (bx_text x), bxReady E]) xs"
    using arg_cong [OF split_file [OF assms(4)], of "map (\<lambda>t. [load_text E t, bxReady E])"] by (simp add: o_def)
  obtain t where t: "load_files E (butlast (js_split xmlEndTag ?code)) q = (None, t)" "a_ws t = []"
      "map entry (a_behaviours t) = map entry (a_behaviours p) @ map entry xs"
    using load_entries [OF q(2) _ assms(2), of xs] assms(4) q(4,5) unfolding load_files_def parts by auto
  have code: "?code \<noteq> []"
  proof -
    obtain x where x: "x \<in> set xs" using assms(3) by (cases xs) auto
    then obtain s where "bx_text x = s @ xmlEndTag" using listed_shape assms(4) by metis
    then have "bx_text x \<noteq> []" by (simp add: xmlEndTag_def)
    then show ?thesis using x by auto
  qed
  have first: "seqs (whens (\<lambda>s. block_count s > 0) (bxReady E) # load_files E (butlast (js_split xmlEndTag ?code)) # as) q = seqs as t" for as
    by (simp only: seqs.simps(2) whens_nothing [OF q(2)] t(1) prod.case option.case)
  show ?thesis unfolding fromXml_def q(1) prod.case option.case q(3) first using code t
    by (simp add: upd_def hide_el_def)
qed



end
