(* ===== verification/Buttons.thy ===== *)
theory Buttons
  imports BehaviourProps
begin

text \<open>
  The handlers of the buttons. A handler takes itself off its button while it runs and sets a timer
  that puts it back (\<open>debounced\<close>); a button without handler and without such a timer stays without
  effect for good. The predicate \<open>revives\<close> says that an operation leaves no button behind like
  that, and every operation of the page has it when it ends without an exception.
\<close>

subsection \<open>Buttons that stay without handler\<close>

definition waiting :: "app \<Rightarrow> string \<Rightarrow> bool" where
  "waiting s i \<longleftrightarrow> Rearm i \<in> snd ` set (a_timers s)"

definition dead :: "app \<Rightarrow> string \<Rightarrow> bool" where
  "dead s i \<longleftrightarrow> i \<noteq> ''btn_bx_ready'' \<and> \<not> a_armed s i \<and> \<not> waiting s i"

text \<open>For \<open>q\<close> false, the operation leaves none behind even if it ends with an exception.\<close>

definition revives :: "bool \<Rightarrow> act \<Rightarrow> bool" where
  "revives q a \<longleftrightarrow> (\<forall>s e t i. a s = (e, t) \<longrightarrow> (q \<longrightarrow> e = None) \<longrightarrow> dead t i \<longrightarrow> dead s i)"

named_theorems revive_intros \<open>how statements leave no button without its handler\<close>

lemma revivesI:
  "(\<And>s e t i. a s = (e, t) \<Longrightarrow> q \<longrightarrow> e = None \<Longrightarrow> dead t i \<Longrightarrow> dead s i) \<Longrightarrow> revives q a"
  unfolding revives_def by blast

lemma revivesD: "revives q a \<Longrightarrow> a s = (e, t) \<Longrightarrow> q \<longrightarrow> e = None \<Longrightarrow> dead t i \<Longrightarrow> dead s i"
  unfolding revives_def by blast

lemma dead_cong: "a_armed t = a_armed s \<Longrightarrow> a_timers t = a_timers s \<Longrightarrow> dead t i = dead s i"
  by (simp add: dead_def waiting_def)

lemma revives_frame: "(\<And>s. a_armed (snd (a s)) = a_armed s \<and> a_timers (snd (a s)) = a_timers s) \<Longrightarrow> revives q a"
  by (rule revivesI) (metis dead_cong snd_conv)

lemma revives_upd: "(\<And>s. a_armed (f s) = a_armed s \<and> a_timers (f s) = a_timers s) \<Longrightarrow> revives q (upd f)"
  by (rule revives_frame) (simp add: upd_def)

lemma revives_setTimeout [revive_intros]: "revives q (setTimeout ms tm)"
  by (rule revivesI) (auto simp: setTimeout_def upd_def dead_def waiting_def)

lemma revives_seqs_Nil [revive_intros]: "revives q (seqs [])"
  by (rule revives_frame) simp

lemma revives_seqs_Cons [revive_intros]: "revives q a \<Longrightarrow> revives q (seqs as) \<Longrightarrow> revives q (seqs (a # as))"
proof (rule revivesI)
  fix s e t i
  assume a: "revives q a" and as: "revives q (seqs as)" and run: "seqs (a # as) s = (e, t)" "q \<longrightarrow> e = None" and d: "dead t i"
  obtain e1 s1 where s1: "a s = (e1, s1)" by force
  show "dead s i"
  proof (cases e1)
    case None
    then have "dead s1 i" using revivesD [OF as _ run(2) d] run(1) s1 by simp
    then show ?thesis using revivesD [OF a s1] None by simp
  next
    case (Some x)
    then show ?thesis using revivesD [OF a s1] run s1 d by auto
  qed
qed

lemma revives_seqs: "(\<And>a. a \<in> set as \<Longrightarrow> revives q a) \<Longrightarrow> revives q (seqs as)"
  by (induction as) (auto intro: revive_intros)

lemma revives_seqs_append [revive_intros]: "revives q (seqs as) \<Longrightarrow> revives q (seqs bs) \<Longrightarrow> revives q (seqs (as @ bs))"
proof (rule revivesI)
  fix s e t i
  assume a: "revives q (seqs as)" and b: "revives q (seqs bs)" and run: "seqs (as @ bs) s = (e, t)" "q \<longrightarrow> e = None" and d: "dead t i"
  obtain e1 s1 where s1: "seqs as s = (e1, s1)" by force
  show "dead s i"
  proof (cases e1)
    case None
    then have "dead s1 i" using revivesD [OF b _ run(2) d] run(1) s1 by (simp add: seqs_append)
    then show ?thesis using revivesD [OF a s1] None by simp
  next
    case (Some x)
    then show ?thesis using revivesD [OF a s1] run s1 d by (auto simp: seqs_append)
  qed
qed

lemma revives_seqs_if [revive_intros]:
  "revives q (seqs as) \<Longrightarrow> revives q (seqs bs) \<Longrightarrow> revives q (seqs (if c then as else bs))"
  by simp

lemma revives_skip [revive_intros]: "revives q skip"
  by (rule revives_frame) (simp add: skip_def)

lemma revives_raise [revive_intros]: "revives q (raise e)"
  by (rule revives_frame) (simp add: raise_def)

lemma revives_reads [revive_intros]: "(\<And>x. revives q (a x)) \<Longrightarrow> revives q (reads f a)"
  by (simp add: revives_def reads_def)

lemma revives_reads_res [revive_intros]: "(\<And>x. revives q (a x)) \<Longrightarrow> revives q (reads_res f a)"
  by (auto simp: revives_def reads_res_def split: sum.splits)

lemma revives_ifs [revive_intros]: "revives q a \<Longrightarrow> revives q b \<Longrightarrow> revives q (ifs c a b)"
  by (simp add: revives_def ifs_def)

lemma revives_whens [revive_intros]: "revives q a \<Longrightarrow> revives q (whens c a)"
  by (simp add: revives_def whens_def)

lemma revives_attempt: "revives False a \<Longrightarrow> revives q (attempt a)"
  by (simp add: revives_def attempt_def) (metis prod.collapse)

lemma revives_if [revive_intros]: "(c \<Longrightarrow> revives q a) \<Longrightarrow> (\<not> c \<Longrightarrow> revives q b) \<Longrightarrow> revives q (if c then a else b)"
  by simp

lemma revives_Let [revive_intros]: "(\<And>x. revives q (f x)) \<Longrightarrow> revives q (Let t f)"
  by simp

lemma revives_option [revive_intros]:
  "revives q a \<Longrightarrow> (\<And>x. revives q (b x)) \<Longrightarrow> revives q (case r of None \<Rightarrow> a | Some x \<Rightarrow> b x)"
  by (cases r) simp_all

lemma revives_list [revive_intros]:
  "revives q a \<Longrightarrow> (\<And>x xs. revives q (b x xs)) \<Longrightarrow> revives q (case r of [] \<Rightarrow> a | x # xs \<Rightarrow> b x xs)"
  by (cases r) simp_all

lemma revives_prod [revive_intros]: "(\<And>x y. revives q (b x y)) \<Longrightarrow> revives q (case r of (x, y) \<Rightarrow> b x y)"
  by (cases r) simp

lemma revives_sum [revive_intros]:
  "(\<And>x. revives q (a x)) \<Longrightarrow> (\<And>x. revives q (b x)) \<Longrightarrow> revives q (case r of Inl x \<Rightarrow> a x | Inr x \<Rightarrow> b x)"
  by (cases r) simp_all

text \<open>The frame of a handler.\<close>

lemma revives_frame_of:
  assumes as: "revives True (seqs as)"
  shows "revives True (seqs (disarm i # as @ [setTimeout ms (Rearm i)]))"
proof (rule revivesI)
  fix s e t j
  assume run: "seqs (disarm i # as @ [setTimeout ms (Rearm i)]) s = (e, t)" "True \<longrightarrow> e = None" and d: "dead t j"
  let ?s = "s\<lparr>a_armed := (a_armed s)(i := False)\<rparr>"
  obtain s1 where s1: "seqs as ?s = (None, s1)" and t: "t = s1\<lparr>a_timers := a_timers s1 @ [(ms, Rearm i)]\<rparr>"
    using run by (auto simp: disarm_def upd_def setTimeout_def seqs_append split: prod.splits option.splits)
  have "j \<noteq> i" "dead s1 j" using d by (auto simp: t dead_def waiting_def)
  then have "dead ?s j" using revivesD [OF as s1] by simp
  then show "dead s j" using \<open>j \<noteq> i\<close> by (simp add: dead_def waiting_def)
qed

lemma revives_debounced [revive_intros]: "revives True (seqs as) \<Longrightarrow> revives True (debounced i as)"
  unfolding debounced_def by (rule revives_frame_of)

lemma revives_page [revive_intros]:
  "revives q (show_el E i)" "revives q (hide_el E i)" "revives q (toggle_el E i)" "revives q (set_html i t)"
  "revives q (ajax r d)" "revives q (happens e)"
  "revives q new_variables" "revives q (disable_el i b)" "revives q (store_cookie E n v)" "revives q (set_max c)"
  "revives q (removeClass n)" "revives q (addClass n)" "revives q forget_choice" "revives q (tryToRecover E ty t)"
  "revives q clear_ws" "revives q (each_block f)" "revives q (upd (\<lambda>s. put_ws (p s) s))"
  unfolding show_el_def hide_el_def toggle_el_def set_html_def ajax_def happens_def new_variables_def disable_el_def
    store_cookie_def set_max_def removeClass_def addClass_def forget_choice_def tryToRecover_def clear_ws_def each_block_def
  by (rule revives_upd; simp add: put_ws_def)+

lemma revives_domToWs [revive_intros]: "revives q (domToWs E x)"
  by (rule revives_frame) (simp add: domToWs_def split: prod.split)

lemma revives_load_text [revive_intros]: "revives q (load_text E t)"
proof (rule revivesI)
  fix s e u i
  assume run: "load_text E t s = (e, u)" "q \<longrightarrow> e = None" "dead u i"
  then show "dead s i"
    using revivesD [OF revives_domToWs] by (auto simp: load_text_def split: sum.splits)
qed

lemma revives_rename [revive_intros]: "revives q (rename_first E v)"
  by (rule revives_frame) (simp add: rename_first_def split: list.split sum.split)

lemma revives_with_code [revive_intros]: "(\<And>c. revives q (k c)) \<Longrightarrow> revives q (with_code E k)"
proof (rule revivesI)
  fix s e t i
  assume k: "\<And>c. revives q (k c)" and run: "with_code E k s = (e, t)" "q \<longrightarrow> e = None" "dead t i"
  show "dead s i"
  proof (cases "workspaceToCode (genv_of E s) (map (\<lambda>(b, xy). map_block (silence E s) b) (surface_order (e_view E) (a_ws s))) (a_gen s)")
    case (Inl m)
    then show ?thesis using run by (auto simp: with_code_def)
  next
    case (Inr r)
    obtain c g where r: "r = (c, g)" by force
    then have "dead (s\<lparr>a_gen := g\<rparr>) i" using revivesD [OF k _ run(2,3)] run(1) Inr by (auto simp: with_code_def)
    then show ?thesis using dead_cong [of "s\<lparr>a_gen := g\<rparr>" s] by simp
  qed
qed

lemma revives_with_user [revive_intros]: "(\<And>u. revives q (k u)) \<Longrightarrow> revives q (with_user k)"
  unfolding with_user_def by (intro revive_intros)

lemma revives_ShowMessage [revive_intros]: "revives q (ShowMessage E t)"
  unfolding ShowMessage_def by (intro revive_intros)


subsection \<open>The operations of the page\<close>

lemma revives_leaveOnly [revive_intros]: "revives q (leaveOnlyBehavioursInWspace E)"
  unfolding leaveOnlyBehavioursInWspace_def by (intro revive_intros)

text \<open>\<open>bxReady\<close> is called from everywhere, also where its exceptions are swallowed.\<close>

lemma revives_bxReady [revive_intros]: "revives q (bxReady E)"
proof -
  have "revives q (disarm ''btn_bx_ready'')"
    by (rule revivesI) (auto simp: disarm_def upd_def dead_def waiting_def)
  then show ?thesis
    unfolding bxReady_def debounced_def list_behaviour_def push_behaviour_def append.simps
    by (intro revive_intros) (auto intro: revives_upd)
qed

lemma revives_bxToWorkspace [revive_intros]: "revives q (bxToWorkspace E i)"
proof -
  have "revives q (reads ready_block each_block)" by (intro revive_intros)
  then have "revives q (bx_step E i j)" for j
    unfolding bx_step_def by (intro revive_intros) (auto intro: revives_upd)
  then have "revives q (seqs (map (bx_step E i) [0..<n]))" for n by (intro revives_seqs) auto
  then show ?thesis
    unfolding bxToWorkspace_def by (intro revive_intros) (auto intro: revives_upd)
qed

lemma revives_place [revive_intros]: "revives q (fire_PlaceTop E)"
  unfolding fire_PlaceTop_def
  by (intro revive_intros; (rule revives_upd | rule revives_frame); simp split: list.split prod.split)

lemma revives_saving [revive_intros]:
  "revives q (saveTask E b c)" "revives q (save_local E n c)" "revives q (saveTask_reply E b nb m l c)"
  unfolding saveTask_def save_local_def saveTask_reply_def
  by (intro revive_intros; auto intro: revives_upd)+

lemma revives_AutoSave [revive_intros]: "revives q (AutoSave E)"
  unfolding AutoSave_def by (intro revive_intros; auto intro: revives_upd)

lemma revives_change [revive_intros]: "revives q (change E)"
  unfolding change_def by (intro revive_intros; auto intro: revives_upd)

lemma revives_discard [revive_intros]: "revives q (discard E p)"
  unfolding discard_def clearWorkspace_def by (intro revive_intros; auto intro: revives_upd)

lemma revives_saveTempLocal [revive_intros]: "revives q (saveTempLocal x b)"
  unfolding saveTempLocal_def by (intro revive_intros)

lemma revives_files [revive_intros]: "revives True (toXml E)" "revives q (readFile f)" "revives q (load_files E parts)"
  unfolding toXml_def readFile_def load_files_def
  by (intro revive_intros revives_seqs; auto intro: revives_upd revive_intros)+

lemma revives_requests [revive_intros]: "revives q (sendTasks c)" "revives q (testRobot c)"
  unfolding sendTasks_def testRobot_def by (intro revive_intros)+

text \<open>There always is a user number, if only an empty one, so that \<open>killTasks\<close> sets its timer.\<close>

lemma with_user_runs: "\<exists>u. with_user k s = k u s"
  using getCookie_exists [of "''idUser''" "a_jar s"] by (auto simp: with_user_def reads_def)

lemma revives_killTasks [revive_intros]: "revives True (killTasks E)"
proof (rule revivesI)
  fix s e t i
  assume run: "killTasks E s = (e, t)" "True \<longrightarrow> e = None" "dead t i"
  define k where "k = (\<lambda>idUser. seqs [upd (\<lambda>s. s\<lparr>a_debug := False\<rparr>),
     ajax KillReq [(''id'', ''kill''), (''code'', []), (''userId'', idUser)], setTimeout 800 (Rearm ''btn_stop'')])"
  obtain s1 where s1: "disarm ''btn_stop'' s = (None, s1)" by (simp add: disarm_def upd_def)
  obtain u where "with_user k s1 = k u s1" using with_user_runs by blast
  then have "seqs (disarm ''btn_stop'' # [upd (\<lambda>s. s\<lparr>a_debug := False\<rparr>),
     ajax KillReq [(''id'', ''kill''), (''code'', []), (''userId'', u)]] @ [setTimeout 800 (Rearm ''btn_stop'')]) s = (e, t)"
    using run(1) by (simp add: killTasks_def k_def s1 split: prod.splits option.splits)
  moreover have "revives True (seqs [upd (\<lambda>s. s\<lparr>a_debug := False\<rparr>), ajax KillReq [(''id'', ''kill''), (''code'', []), (''userId'', u)]])"
    by (intro revive_intros revives_upd) simp
  ultimately show "dead s i" using revivesD [OF revives_frame_of] run(2,3) by blast
qed

lemma revives_openDeleteModal [revive_intros]: "revives True (openDeleteModal E)"
  unfolding openDeleteModal_def by (intro revive_intros)

lemma revives_collect [revive_intros]: "(\<And>codes. revives q (k codes)) \<Longrightarrow> revives q (collect_codes E i xs codes k)"
  by (induction xs arbitrary: i codes) (auto intro!: revive_intros)

lemma revives_collect_debug [revive_intros]: "(\<And>codes. revives q (k codes)) \<Longrightarrow> revives q (collect_debug E xs codes k)"
  by (induction xs arbitrary: codes) (auto intro!: revive_intros revives_upd)

lemma revives_map [revive_intros]: "revives q (seqs (map sendTasks codes))" "revives q (seqs (map (toggle_el E) l))"
  by (intro revives_seqs; auto intro: revive_intros)+

lemma revives_runTasks [revive_intros]: "revives True (runTasks E)"
  unfolding runTasks_def call_pollResults_def by (intro revive_intros)

lemma revives_debug [revive_intros]: "revives True (debug E)"
  unfolding debug_def call_debugPoll_def by (intro revive_intros; auto intro: revives_upd)

lemma revives_setCode [revive_intros]: "revives q (setCode t)"
  unfolding setCode_def by (intro revive_intros revives_upd) simp

lemma revives_editor [revive_intros]: "revives q (switchTabs b)" "revives q closeEditor" "revives q (saveEditedCode E)"
  unfolding switchTabs_def closeEditor_def saveEditedCode_def
  by (intro revive_intros; auto intro: revives_upd)+

lemma revives_edit_each [revive_intros]: "revives q (edit_each E xs)"
proof (induction xs)
  case (Cons x xs)
  then show ?case unfolding edit_each.simps by (intro revive_intros revives_upd) auto
qed (simp add: revives_skip)

lemma revives_edit [revive_intros]: "revives True (edit E)"
  unfolding edit_def by (intro revive_intros; auto intro: revives_upd revive_intros)

lemma revives_runEditedTasks [revive_intros]: "revives True (runEditedTasks E)"
  unfolding runEditedTasks_def by (intro revive_intros)

lemma revives_modes [revive_intros]: "revives q (enterTestMode c)" "revives q leaveTestMode" "revives q (slideToolbox a b)"
  unfolding enterTestMode_def leaveTestMode_def slideToolbox_def dispose_cats_def
  by (intro revive_intros; auto intro: revives_upd)+

lemma revives_test_selected [revive_intros]: "revives q (test_selected E b)"
  unfolding test_selected_def by (intro revive_intros revives_attempt) (auto intro: revives_upd)


lemma revives_robotest [revive_intros]: "revives True (robotest E)"
proof (rule revivesI)
  fix s e t i
  assume run: "robotest E s = (e, t)" "True \<longrightarrow> e = None" "dead t i"
  define as where "as butia = [
         (case butia of Some b \<Rightarrow> test_selected E b | None \<Rightarrow> attempt (bxReady E)),
         whens (\<lambda>_. e_tablet E) (hide_el E ''behaviours_popup''),
         enterTestMode (butia = None),
         upd (\<lambda>s. s\<lparr>a_testMode := True\<rparr>)] @
        (if e_tablet E then map (toggle_el E) [''btn_robotest'', ''btn_load'', ''btn_save'', ''btn_bx_ready'',
            ''btn_edit'', ''btn_speed'', ''btn_lang'']
         else [toggle_el E ''btn_more'',
               whens (\<lambda>s. a_shown s ''btn_bxs_ready'') (toggle_el E ''btn_bxs_ready''),
               slideToolbox False True]) @
        [toggle_el E ''btn_back'',
         whens (\<lambda>_. butia \<noteq> None) (setTimeout 100 ClickRun)]" for butia
  define sel where "sel = (\<lambda>s. case selected_block s of None \<Rightarrow> None | Some b \<Rightarrow> if b_type b \<in> set (e_butia E) then Some b else None)"
  have as_run: "robotest E = seqs [disarm ''btn_robotest'', reads sel (\<lambda>butia. seqs (as butia @ [setTimeout 800 (Rearm ''btn_robotest'')]))]"
    by (simp add: robotest_def as_def sel_def)
  let ?butia = "sel (snd (disarm ''btn_robotest'' s))"
  have run2: "seqs (disarm ''btn_robotest'' # as ?butia @ [setTimeout 800 (Rearm ''btn_robotest'')]) s = (e, t)"
    using run(1) unfolding as_run seqs_reads seqs_nested .
  have "revives True (seqs (as ?butia))"
    unfolding as_def by (intro revive_intros revives_attempt revives_upd) simp
  then show "dead s i" by (rule revivesD [OF revives_frame_of run2 run(2,3)])
qed

lemma revives_goBack [revive_intros]: "revives True (goBack E)"
  unfolding goBack_def by (intro revive_intros revives_attempt revives_upd) simp_all

lemma revives_polls [revive_intros]: "revives q (pollResults_reply E html)" "revives q (fire_PollResults E)" "revives q (fire_DebugPoll E)"
    "revives q (fire_SelectBlock n)" "revives True (refreshBlocks_reply E html)"
  unfolding pollResults_reply_def fire_PollResults_def fire_DebugPoll_def fire_SelectBlock_def refreshBlocks_reply_def
    call_pollResults_def call_refreshBlocksPoll_def clear_results_def
  by (intro revive_intros; auto intro: revives_upd)+

lemma revives_debugPoll_reply [revive_intros]: "revives q (debugPoll_reply E html)"
  unfolding debugPoll_reply_def show_place_def call_debugPoll_def
  by (intro revive_intros; auto intro: revives_upd)

lemma revives_server [revive_intros]: "revives q (SpeedChange)" "revives q (deleteDatabaseBxs b)" "revives q (loadBxs E c)" "revives q (loadProj E)"
    "revives q (projectSaver E)" "revives q fire_RefreshBlocks" "revives q (fire_ClearMessage E)" "revives True (openFileChooser E)"
    "revives q call_pollResults" "revives q call_debugPoll" "revives q call_refreshBlocksPoll" "revives True (changeLanguage E)"
  unfolding SpeedChange_def deleteDatabaseBxs_def loadBxs_def loadProj_def projectSaver_def fire_RefreshBlocks_def
    fire_ClearMessage_def openFileChooser_def call_pollResults_def call_debugPoll_def call_refreshBlocksPoll_def changeLanguage_def
  by (intro revive_intros; auto intro: revives_upd)+

lemma revives_closeError [revive_intros]: "revives True (closeEditionError E)"
  unfolding closeEditionError_def by (intro revive_intros)

lemma frame_choose_item: "a_armed (fold (choose_item p) vs s) = a_armed s \<and> a_timers (fold (choose_item p) vs s) = a_timers s"
  by (induction vs arbitrary: s) (auto simp: choose_item_def)

lemma revives_choices [revive_intros]: "revives q (BxsChangeSelection p sel)" "revives q (ProjChangeSelection p)"
  unfolding BxsChangeSelection_def ProjChangeSelection_def
  by (intro revive_intros revives_upd; simp add: frame_choose_item)+

lemma revives_replies [revive_intros]: "revives q (tasks_reply E)" "revives q (killTasks_reply E)" "revives q (loadBxs_reply E c data)"
    "revives q (deleteDatabaseBxs_reply E)" "revives q pollResults_error" "revives q (loadProj_reply E projs)"
    "revives q (saveTempLocal_reply n)" "revives q (requestUserId_reply E html)" "revives q (requestUserId_error html)"
  unfolding tasks_reply_def killTasks_reply_def loadBxs_reply_def deleteDatabaseBxs_reply_def pollResults_error_def
    loadProj_reply_def saveTempLocal_reply_def requestUserId_reply_def requestUserId_error_def
  by (intro revive_intros; auto intro: revives_upd)+

lemma revives_reply: "revives True (reply E r a)"
  unfolding reply_def by (cases r; cases a; simp; intro revive_intros)

lemma revives_onclick: "map_of (onclick E) i = Some a \<Longrightarrow> revives True a"
proof -
  have "list_all (\<lambda>(i, a). revives True a) (onclick E)"
    unfolding onclick_def list.pred_inject prod.case by (intro conjI list.pred_inject(1) TrueI revive_intros)
  then show "map_of (onclick E) i = Some a \<Longrightarrow> revives True a" by (auto simp: list_all_iff dest: map_of_SomeD)
qed

text \<open>A timer that fires is gone, and the handler it puts back is there.\<close>

lemma revives_rearm: "revives q (rearm i)"
  by (rule revivesI) (auto simp: rearm_def upd_def dead_def waiting_def split: if_splits)

lemma revives_fire: "revives True (fire E tm)"
  unfolding fire_def by (cases tm; simp; intro revive_intros revives_rearm)

lemma dead_after_removal:
  assumes "n < length (a_timers s)" and "dead (s\<lparr>a_timers := splice1 n (a_timers s)\<rparr>) i" and "\<not> dead s i"
  shows "snd (a_timers s ! n) = Rearm i"
proof (rule ccontr)
  assume other: "snd (a_timers s ! n) \<noteq> Rearm i"
  have "a_timers s = take n (a_timers s) @ a_timers s ! n # drop (Suc n) (a_timers s)" using assms(1) by (rule id_take_nth_drop)
  then have "set (a_timers s) = set (splice1 n (a_timers s)) \<union> {a_timers s ! n}"
    unfolding splice1_def by (metis Un_insert_right list.set(2) set_append sup_bot_right)
  then have "snd ` set (a_timers s) = snd ` set (splice1 n (a_timers s)) \<union> {snd (a_timers s ! n)}" by auto
  then show False using assms(2,3) other by (auto simp: dead_def waiting_def)
qed


subsection \<open>The page while no handler throws\<close>

lemma dead_load_retry: "load_retry E n code s = Some (e, t) \<Longrightarrow> dead t i \<Longrightarrow> dead s i"
proof (induction n arbitrary: s)
  case (Suc n)
  show ?case
  proof (cases "textToDom code")
    case (Inl m)
    then show ?thesis using Suc.prems by simp
  next
    case (Inr x)
    obtain x' s1 where d: "domToWs E x s = (x', s1)" by force
    have back1: "dead s1 i \<Longrightarrow> dead s i" using revivesD [OF revives_domToWs [where q = False] d] by simp
    obtain e2 s2 where c: "clear_ws s1 = (e2, s2)" by force
    have back2: "dead s2 i \<Longrightarrow> dead s i" using back1 revivesD [OF revives_page(15) [where q = False] c] by simp
    show ?thesis
    proof (cases x')
      case None
      then show ?thesis using Suc.prems back1 Inr d by simp
    next
      case (Some e')
      note run = Suc.prems(1) [unfolded load_retry.simps Inr d Some sum.case prod.case option.case Let_def c snd_conv]
      show ?thesis
      proof (cases "blockInFault e'")
        case None
        then have "ShowMessage E (msg E ''CANNOT_PARSE_BLOCKS'') s2 = (e, t)" using run by simp
        then show ?thesis using revivesD [OF revives_ShowMessage [where q = False]] Suc.prems(2) back2 by blast
      next
        case (Some ty)
        obtain e3 s3 where r: "recover_from E ty code s2 = (e3, s3)" by force
        have "revives False (recover_from E ty code)" unfolding recover_from_def by (intro revive_intros revives_upd) simp
        from revivesD [OF this r] have "dead s3 i \<Longrightarrow> dead s i" using back2 by simp
        then show ?thesis using Suc.IH [OF _ Suc.prems(2)] run Some r by simp
      qed
    qed
  qed
qed simp

lemma dead_before: "dead s1 i \<Longrightarrow> whens c (bxReady E) s = (e1, s1) \<Longrightarrow> dead s i"
  using revivesD [OF revives_whens [OF revives_bxReady [where q = False]]] by blast

lemma dead_restore_list: "restore_list E n l s = Some (e, t) \<Longrightarrow> dead t i \<Longrightarrow> dead s i"
proof (induction l arbitrary: s)
  case (Cons a l)
  obtain name code where a: "a = (name, code)" by force
  obtain e1 s1 where w: "whens (\<lambda>s. block_count s > 0) (bxReady E) s = (e1, s1)" by force
  show ?case
    using Cons dead_before [OF _ w] dead_load_retry
    by (fastforce simp: a w split: option.splits prod.splits if_splits)
qed simp

lemma dead_load_chosen: "load_chosen E n l s = Some (e, t) \<Longrightarrow> dead t i \<Longrightarrow> dead s i"
proof (induction l arbitrary: s)
  case (Cons a l)
  obtain project name where a: "a = (project, name)" by force
  obtain e1 s1 where w: "whens (\<lambda>s. block_count s > 0) (bxReady E) s = (e1, s1)" by force
  show ?case
    using Cons dead_before [OF _ w] dead_load_retry
    by (fastforce simp: a w split: option.splits prod.splits if_splits)
qed simp

lemma dead_window_load:
  assumes run: "window_load E n s = Some (e, t)" and d: "dead t i"
  shows "dead s i"
proof -
  have speed: "dead s1 i" if "set_speed E s1 = (e, t)" for s1
  proof -
    have "revives False (set_speed E)" unfolding set_speed_def by (intro revive_intros revives_upd; simp)
    then show ?thesis using revivesD that d by blast
  qed
  show ?thesis
  proof (cases "saved_list (a_store s)")
    case (Inl m)
    then show ?thesis using run speed [of s] by (simp add: window_load_def)
  next
    case (Inr l)
    show ?thesis
    proof (cases "restore_list E n l s")
      case None
      then show ?thesis using run Inr by (simp add: window_load_def)
    next
      case (Some r)
      obtain e2 s2 where r: "r = (e2, s2)" by force
      obtain e3 s3 where b: "bxReady E s2 = (e3, s3)" by force
      have "dead s3 i \<Longrightarrow> dead s2 i" using revivesD [OF revives_bxReady [where q = False] b] by simp
      then have "dead s2 i" using run Inr Some r b speed by (cases e2) (auto simp: window_load_def)
      then show ?thesis using dead_restore_list [OF Some [unfolded r]] by simp
    qed
  qed
qed

lemma dead_fromXml:
  assumes run: "fromXml E n s = Some (None, t)" and d: "dead t i"
  shows "dead s i"
proof -
  obtain e1 s1 where a: "leaveOnlyBehavioursInWspace E s = (e1, s1)" by force
  have before: "dead s1 i \<Longrightarrow> dead s i" using revivesD [OF revives_leaveOnly [where q = False] a] by simp
  have from_file: "revives True (seqs [whens (\<lambda>s. block_count s > 0) (bxReady E), load_files E parts,
      upd (\<lambda>s. s\<lparr>a_fileCode := []\<rparr>), hide_el E ''loader_modal''])" for parts
    by (intro revive_intros revives_upd) simp
  have chosen: "revives True (seqs [forget_choice, hide_el E ''loader_modal'', bxReady E])"
    by (intro revive_intros)
  have shook: "revives True (happens (Shook ''loader_modal''))" by (intro revive_intros)
  show ?thesis
  proof (cases e1)
    case (Some e2)
    then show ?thesis using run by (simp add: fromXml_def a)
  next
    case None
    note run = run [unfolded fromXml_def a None prod.case option.case]
    show ?thesis
    proof (cases "a_fileCode s1 = []")
      case False
      then show ?thesis using run before revivesD [OF from_file _ _ d] by simp
    next
      case nofile: True
      show ?thesis
      proof (cases "a_activesProj s1 = []")
        case True
        then show ?thesis using run nofile before revivesD [OF shook _ _ d] by simp
      next
        case False
        obtain e2 s2 where l: "load_chosen E n (chosen s1) s1 = Some (e2, s2)"
          using run nofile False by (cases "load_chosen E n (chosen s1) s1") auto
        have "dead s2 i" using run nofile False l revivesD [OF chosen _ _ d] by (cases e2) auto
        then show ?thesis using dead_load_chosen [OF l] before by simp
      qed
    qed
  qed
qed


lemma dead_handle:
  assumes run: "handle E n ev s = Some (None, t)" and d: "dead t i"
  shows "dead s i"
proof -
  have by_act: "dead s' i" if "revives True a" "a s' = (None, t)" for a s'
    using revivesD [OF that] d by simp
  show ?thesis
  proof (cases ev)
    case Start
    then show ?thesis using run d dead_window_load by (simp add: handle_def)
  next
    case (Press j)
    then show ?thesis
      using run d dead_fromXml by_act [OF revives_onclick]
      by (auto simp: handle_def press_def split: if_splits option.splits)
  next
    case (PressBehaviour j)
    then show ?thesis using run by_act [OF revives_whens [OF revives_bxToWorkspace]] by (simp add: handle_def)
  next
    case (PressTab j)
    then show ?thesis using run by_act [OF revives_editor(1)] by (simp add: handle_def)
  next
    case (ChooseFile f)
    then show ?thesis using run by_act [OF revives_files(2)] by (simp add: handle_def)
  next
    case (ChooseBehaviours p sel)
    then show ?thesis using run by_act [OF revives_choices(1)] by (simp add: handle_def)
  next
    case (ChooseProject p)
    then show ?thesis using run by_act [OF revives_choices(2)] by (simp add: handle_def)
  next
    case MoveSpeed
    then show ?thesis using run by_act [OF revives_server(1)] by (simp add: handle_def)
  next
    case (AnswerConfirm b)
    then show ?thesis using run by_act [OF revives_server(2)] by (simp add: handle_def)
  next
    case WorkspaceChanged
    then show ?thesis using run by_act [OF revives_change] by (simp add: handle_def)
  next
    case (Fire m)
    show ?thesis
    proof (cases "m < length (a_timers s)")
      case True
      let ?s = "s\<lparr>a_timers := splice1 m (a_timers s)\<rparr>"
      have fired: "fire E (snd (a_timers s ! m)) ?s = (None, t)" using run Fire True by (simp add: handle_def)
      have removed: "dead ?s i" by (rule by_act [OF revives_fire fired])
      show ?thesis
      proof (rule ccontr)
        assume "\<not> dead s i"
        then have "snd (a_timers s ! m) = Rearm i" by (rule dead_after_removal [OF True removed])
        then have "a_armed t i" using fired by (auto simp: fire_def rearm_def upd_def)
        then show False using d by (simp add: dead_def)
      qed
    next
      case False
      then show ?thesis using run d Fire by (simp add: handle_def)
    qed
  next
    case (Reply m a)
    show ?thesis
    proof (cases "m < length (a_requests s)")
      case True
      let ?s = "s\<lparr>a_requests := splice1 m (a_requests s)\<rparr>"
      have "reply E (fst (a_requests s ! m)) a ?s = (None, t)" using run Reply True by (simp add: handle_def)
      then have "dead ?s i" by (rule by_act [OF revives_reply])
      then show ?thesis using dead_cong [of ?s s] by simp
    next
      case False
      then show ?thesis using run d Reply by (simp add: handle_def)
    qed
  qed
qed

text \<open>The pages reached by events whose handlers all end without an exception.\<close>

inductive quiet :: "env \<Rightarrow> app \<Rightarrow> bool" for E where
  opened: "quiet E (new_page cats missing lang url st j)"
| handled: "quiet E s \<Longrightarrow> handle E n ev s = Some (None, t) \<Longrightarrow> quiet E t"
| edited: "quiet E s \<Longrightarrow> edit_ok (a_ws s) (a_uid s) ws k \<Longrightarrow> quiet E (s\<lparr>a_ws := ws, a_uid := k, a_selected := sel\<rparr>)"

lemma quiet_alive: "quiet E s \<Longrightarrow> \<not> dead s i"
proof (induction rule: quiet.induct)
  case (opened cats missing lang url st j)
  then show ?case by (simp add: dead_def new_page_def)
next
  case (handled s n ev t)
  then show ?case using dead_handle by blast
next
  case (edited s ws k sel)
  then show ?case using dead_cong [of "s\<lparr>a_ws := ws, a_uid := k, a_selected := sel\<rparr>" s] by simp
qed

text \<open>C6. Buttons come back: as long as no handler throws, a button that has been pressed - any but
  \<open>btn_bx_ready\<close>, whose handler is also called where exceptions are swallowed - has its handler or
  a timer is pending, and whatever happened in between, when that timer fires the button has its
  handler again.
\<close>

theorem pressed_buttons_come_back:
  assumes "quiet E s" and "i \<noteq> ''btn_bx_ready''" and "\<not> a_armed s i"
  shows "\<exists>n. n < length (a_timers s) \<and> snd (a_timers s ! n) = Rearm i \<and>
    (\<forall>m. \<exists>t. handle E m (Fire n) s = Some (None, t) \<and> a_armed t i \<and> (\<forall>j. a_armed s j \<longrightarrow> a_armed t j))"
proof -
  have "waiting s i" using quiet_alive [OF assms(1), of i] assms(2,3) by (simp add: dead_def)
  then obtain n where n: "n < length (a_timers s)" "snd (a_timers s ! n) = Rearm i"
    unfolding waiting_def by (auto simp: in_set_conv_nth)
  then have "handle E m (Fire n) s = Some (None, s\<lparr>a_timers := splice1 n (a_timers s), a_armed := (a_armed s)(i := True)\<rparr>)" for m
    by (simp add: handle_def fire_def rearm_def upd_def)
  then show ?thesis using n by (intro exI [of _ n]) simp
qed

theorem pressed_buttons_come_back_witness:
  "\<exists>s t. quiet demo_E s \<and> \<not> a_armed s ''btn_save'' \<and> handle demo_E 0 (Fire 0) s = Some (None, t) \<and> a_armed t ''btn_save''"
proof -
  let ?p = "new_page 6 [] ''es'' ([], []) empty_storage []"
  obtain s where s: "handle demo_E 0 (Press ''btn_save'') ?p = Some (None, s)" "a_timers s = [(800, Rearm ''btn_save'')]" "\<not> a_armed s ''btn_save''"
    by (simp add: handle_def press_def onclick_def toXml_def debounced_def disarm_def act_simps block_count_def all_blocks_def
        setTimeout_def new_page_def)
  have q: "quiet demo_E s" by (rule quiet.handled [OF quiet.opened s(1)])
  obtain n where n: "n < length (a_timers s)" "\<forall>m. \<exists>t. handle demo_E m (Fire n) s = Some (None, t) \<and> a_armed t ''btn_save'' \<and> (\<forall>j. a_armed s j \<longrightarrow> a_armed t j)"
    using pressed_buttons_come_back [OF q _ s(3)] by auto
  then obtain t where "handle demo_E 0 (Fire 0) s = Some (None, t)" "a_armed t ''btn_save''" using s(2) by auto
  then show ?thesis using q s(3) by (intro exI [of _ s] exI [of _ t] conjI)
qed

end
