(* ===== verification/RunProps.thy ===== *)
theory RunProps
  imports FileProps LuaProps
begin

text \<open>
  Running the behaviours: what is sent to the robot, and the buttons of the modes. The requests go
  out only after the code of every behaviour has been generated.
\<close>

subsection \<open>What running does not touch\<close>

definition run_setting :: "app \<Rightarrow> (request \<times> (string \<times> string) list) list \<times> jar \<times> nat option \<times> string \<times> bool \<times> bool \<times> bool \<times> bool" where
  "run_setting s = (a_requests s, a_jar s, a_active s, a_vel s, a_debug s, a_testMode s, a_butiaSel s, a_shown s ''btn_back'')"

text \<open>An operation frames a part of the state when it leaves it as it was, also if it ends with an exception.\<close>

definition frames :: "(app \<Rightarrow> 'a) \<Rightarrow> act \<Rightarrow> bool" where
  "frames p a \<longleftrightarrow> (\<forall>s. p (snd (a s)) = p s)"

lemma framesD: "frames p a \<Longrightarrow> a s = (e, t) \<Longrightarrow> p t = p s"
  unfolding frames_def by (metis snd_conv)

lemma frames_upd: "(\<And>s. p (f s) = p s) \<Longrightarrow> frames p (upd f)"
  by (simp add: frames_def upd_def)

lemma frames_seqs: "(\<And>a. a \<in> set as \<Longrightarrow> frames p a) \<Longrightarrow> frames p (seqs as)"
proof (induction as)
  case (Cons a as)
  show ?case unfolding frames_def
  proof
    fix s
    obtain e t where a: "a s = (e, t)" by force
    then have "p t = p s" using framesD Cons.prems by (metis list.set_intros(1))
    moreover have "p (snd (seqs as t)) = p t" using Cons unfolding frames_def by simp
    ultimately show "p (snd (seqs (a # as) s)) = p s" using a by (cases e) simp_all
  qed
qed (simp add: frames_def)

lemma frames_reads: "(\<And>x. frames p (a x)) \<Longrightarrow> frames p (reads f a)"
  by (simp add: frames_def reads_def)

lemma frames_whens: "frames p a \<Longrightarrow> frames p (whens c a)"
  by (simp add: frames_def whens_def)

lemma frames_ifs: "frames p a \<Longrightarrow> frames p b \<Longrightarrow> frames p (ifs c a b)"
  by (simp add: frames_def ifs_def)

lemma frames_attempt: "frames p a \<Longrightarrow> frames p (attempt a)"
  by (simp add: frames_def attempt_def)

lemma frames_option: "frames p a \<Longrightarrow> (\<And>x. frames p (b x)) \<Longrightarrow> frames p (case r of None \<Rightarrow> a | Some x \<Rightarrow> b x)"
  by (cases r) simp_all

lemmas frames_rules = frames_seqs frames_reads frames_whens frames_ifs frames_attempt frames_option

abbreviation silent :: "act \<Rightarrow> bool" where
  "silent \<equiv> frames run_setting"

lemma silent_steps:
  "silent (disarm i)" "silent (setTimeout ms tm)" "silent clear_ws" "silent new_variables" "silent (set_max c)" "silent (set_html i h)"
  "silent skip" "silent (raise e)" "silent (push_behaviour x)"
  "silent (upd (\<lambda>s. put_ws (p s) s))" "silent (upd (\<lambda>s. s\<lparr>a_items := f s\<rparr>))" "silent (upd (\<lambda>s. s\<lparr>a_countBlocks := m s\<rparr>))"
  unfolding disarm_def setTimeout_def clear_ws_def new_variables_def set_max_def set_html_def push_behaviour_def
  by (rule frames_upd; simp add: run_setting_def put_ws_def | simp add: frames_def skip_def raise_def)+

lemma silent_show: "i \<noteq> ''btn_back'' \<Longrightarrow> silent (show_el E i)"
  unfolding show_el_def by (rule frames_upd) (simp add: run_setting_def)

lemma silent_leaveOnly: "silent (leaveOnlyBehavioursInWspace E)"
  unfolding leaveOnlyBehavioursInWspace_def ShowMessage_def
  by (intro frames_whens frames_reads frames_seqs) (auto intro!: silent_steps frames_whens frames_seqs silent_show)

lemma silent_list: "silent (list_behaviour E b)"
proof -
  have "silent (case name of None \<Rightarrow> raise type_error | Some n \<Rightarrow> seqs [
         push_behaviour \<lparr>bx_id = b_id b, bx_text = w, bx_name = n, bx_size = sz\<rparr>,
         show_el E (bx_popup E),
         upd (\<lambda>s. s\<lparr>a_items := a_items s @ [(b_id b, shortname n)]\<rparr>),
         clear_ws,
         upd (\<lambda>s. s\<lparr>a_countBlocks := Some 0\<rparr>)])" for name w sz
    by (cases name) (auto intro!: silent_steps frames_seqs silent_show simp: bx_popup_def)
  then show ?thesis
    unfolding list_behaviour_def by (intro frames_seqs) (auto intro!: silent_steps frames_reads split: prod.split)
qed

lemma silent_bxReady: "silent (bxReady E)"
proof -
  have "silent (case first of None \<Rightarrow> skip | Some b \<Rightarrow> whens (\<lambda>_. is_behaviour b) (list_behaviour E b))" for first
    by (cases first) (auto intro!: silent_steps frames_whens silent_list)
  then show ?thesis
    unfolding bxReady_def debounced_def
    by (intro frames_seqs) (auto intro!: silent_steps silent_leaveOnly frames_reads)
qed

lemma silent_load_text: "silent (load_text E t)"
  by (simp add: frames_def load_text_def domToWs_def run_setting_def split: sum.split prod.split)

subsection \<open>The codes\<close>

text \<open>The code of an entry of the list: its text loaded into an empty workspace, and the generator run on that.\<close>

definition generates :: "env \<Rightarrow> app \<Rightarrow> behaviour \<Rightarrow> string \<Rightarrow> bool" where
  "generates E p x code \<longleftrightarrow> (\<exists>s s1 g. a_ws s = [] \<and> a_vel s = a_vel p \<and> a_debug s = a_debug p \<and> g_vars (a_gen s) = [] \<and>
     load_text E (bx_text x) s = (None, s1) \<and>
     workspaceToCode (genv_of E s1) (map (\<lambda>(b, xy). map_block (silence E s1) b) (surface_order (e_view E) (a_ws s1))) (a_gen s1) =
       Inr (code, g))"

lemma collect_codes_runs:
  assumes "collect_codes E i xs codes k s = (e, t)" and "a_active s = None" and "a_ws s = []"
  shows "(\<exists>cs s1. list_all2 (generates E s) xs cs \<and> k (codes @ cs) s1 = (e, t) \<and> run_setting s1 = run_setting s \<and>
      a_behaviours s1 = a_behaviours s) \<or>
    (e \<noteq> None \<and> run_setting t = run_setting s)"
  using assms
proof (induction xs arbitrary: i codes s)
  case (Cons x xs)
  define s0 where "s0 = s\<lparr>a_gen := (a_gen s)\<lparr>g_vars := []\<rparr>\<rparr>"
  have s0: "new_variables s = (None, s0)" "run_setting s0 = run_setting s" by (simp_all add: new_variables_def upd_def s0_def run_setting_def)
  obtain e1 s1 where l: "load_text E (bx_text x) s0 = (e1, s1)" by force
  have s1: "run_setting s1 = run_setting s" using framesD [OF silent_load_text l] s0(2) by simp
  have bxs: "a_behaviours s1 = a_behaviours s"
    using l by (auto simp: load_text_def domToWs_def s0_def split: sum.splits prod.splits)
  have gen: "a_gen s1 = a_gen s0"
    using l by (auto simp: load_text_def domToWs_def split: sum.splits prod.splits)
  let ?r = "\<lambda>code. seqs [clear_ws, collect_codes E (Suc i) xs (codes @ [code]) k]"
  have run: "seqs [new_variables, load_text E (bx_text x), with_code E ?r] s = (e, t)"
    using Cons.prems(1,2) by (simp add: reads_def)
  show ?case
  proof (cases e1)
    case (Some y)
    then have "e = Some y" "t = s1" using run s0(1) l by simp_all
    then show ?thesis using s1 by simp
  next
    case None
    then have w: "with_code E ?r s1 = (e, t)" using run s0(1) l by (simp split: prod.splits option.splits)
    show ?thesis
    proof (cases "workspaceToCode (genv_of E s1) (map (\<lambda>(b, xy). map_block (silence E s1) b) (surface_order (e_view E) (a_ws s1))) (a_gen s1)")
      case (Inl m)
      then show ?thesis using w s1 by (auto simp: with_code_def)
    next
      case (Inr r)
      obtain code g where r: "r = (code, g)" by force
      define s2 where "s2 = put_ws [] (s1\<lparr>a_gen := g\<rparr>)"
      have s2: "run_setting s2 = run_setting s" "a_ws s2 = []" "a_behaviours s2 = a_behaviours s"
        using s1 bxs by (simp_all add: s2_def put_ws_def run_setting_def)
      have c: "collect_codes E (Suc i) xs (codes @ [code]) k s2 = (e, t)"
        using w Inr r by (simp add: with_code_def clear_ws_def upd_def s2_def split: prod.splits option.splits)
      have "a_ws s0 = []" "g_vars (a_gen s0) = []" "a_vel s0 = a_vel s" "a_debug s0 = a_debug s"
        using Cons.prems(3) by (simp_all add: s0_def)
      then have x: "generates E s x code" unfolding generates_def using l None Inr r by blast
      have "a_active s2 = None" "a_vel s2 = a_vel s" "a_debug s2 = a_debug s"
        using s2(1) Cons.prems(2) by (simp_all add: run_setting_def)
      then have same: "generates E s2 = generates E s" by (simp add: generates_def fun_eq_iff)
      consider (sent) cs s3 where "list_all2 (generates E s) xs cs" "k (codes @ code # cs) s3 = (e, t)"
          "run_setting s3 = run_setting s" "a_behaviours s3 = a_behaviours s"
        | (failed) "e \<noteq> None" "run_setting t = run_setting s"
        using Cons.IH [OF c \<open>a_active s2 = None\<close> s2(2)] same s2 by auto
      then show ?thesis
      proof cases
        case sent
        then show ?thesis using x by (intro disjI1 exI [of _ "code # cs"] exI [of _ s3]) simp
      qed simp
    qed
  qed
qed (auto intro!: disjI1)

subsection \<open>Sending\<close>

definition task_request :: "app \<Rightarrow> string \<Rightarrow> request \<times> (string \<times> string) list" where
  "task_request s code = (InitReq, [(''id'', ''init''), (''code'', encode_code code), (''userId'', js_str (getCookie ''idUser'' (a_jar s)))])"

lemma sendTasks_runs: "sendTasks code s = (None, s\<lparr>a_requests := a_requests s @ [task_request s code]\<rparr>)"
proof -
  obtain u where "getCookie ''idUser'' (a_jar s) = Some u" using getCookie_exists by blast
  then show ?thesis by (simp add: sendTasks_def with_user_def reads_def ajax_def upd_def task_request_def js_str_def)
qed

lemma sendTasks_all: "seqs (map sendTasks codes) s = (None, s\<lparr>a_requests := a_requests s @ map (task_request s) codes\<rparr>)"
proof (induction codes arbitrary: s)
  case (Cons c codes)
  have "task_request (s\<lparr>a_requests := rs\<rparr>) = task_request s" for rs by (simp add: task_request_def fun_eq_iff)
  then show ?case using Cons by (simp add: sendTasks_runs)
qed simp

text \<open>Before the codes are generated the workspace is emptied into the list.\<close>

lemma bxReady_empties:
  assumes "whens (\<lambda>s. block_count s > 0) (bxReady E) s = (None, t)" and "\<forall>(b, xy) \<in> set (a_ws s). is_behaviour b"
    and "\<not> a_butiaSel s" and "\<not> a_testMode s"
  shows "a_ws t = []"
proof (cases "a_ws s")
  case Nil
  then show ?thesis using assms(1) by (simp add: whens_def block_count_def all_blocks_def)
next
  case (Cons tp ws)
  obtain b xy where tp: "tp = (b, xy)" by (cases tp)
  then have b: "is_behaviour b" "b \<noteq> NoBlock" using assms(2) Cons by (auto simp: is_behaviour_def)
  then have "block_count s > 0" using Cons tp by (simp add: block_count_def all_blocks_def)
  then have "bxReady E s = (None, t)" using assms(1) by (simp add: whens_def)
  moreover have "kept_tops s' = a_ws s" if "a_ws s' = a_ws s" for s' :: app
    using assms(2) that by (auto simp: kept_tops_def intro!: filter_True)
  ultimately show ?thesis
    using assms(3,4) b Cons tp
    by (simp add: bxReady_def debounced_def disarm_def leaveOnlyBehavioursInWspace_def act_simps put_ws_def first_block_def
        list_behaviour_def new_variables_def push_behaviour_def show_el_def clear_ws_def setTimeout_def
        split: option.splits prod.splits) auto
qed


definition received :: "request \<times> (string \<times> string) list \<Rightarrow> string" where
  "received r = server_receive (form_field (js_str (map_of (snd r) ''code'')))"

lemma received_task [simp]: "received (task_request s code) = code"
  by (simp add: received_def task_request_def js_str_def task_codec.dec_enc)

lemma kept_are_behaviours:
  assumes "leaveOnlyBehavioursInWspace E s = (None, t)" and "\<not> a_butiaSel s" and "\<not> a_testMode s"
  shows "\<forall>(b, xy) \<in> set (a_ws t). is_behaviour b"
  using assms
  by (auto simp: leaveOnlyBehavioursInWspace_def act_simps put_ws_def kept_tops_def ShowMessage_def set_html_def show_el_def
      setTimeout_def split: if_splits)

text \<open>The body of \<open>runTasks\<close> while the robot is not being tested.\<close>

definition run_all :: "env \<Rightarrow> act" where
  "run_all E = seqs [
     set_max (MaxNumber 0),
     whens (\<lambda>s. block_count s > 0) (bxReady E),
     reads a_behaviours (\<lambda>bxs. collect_codes E 0 bxs [] (\<lambda>codes. seqs (map sendTasks codes))),
     call_pollResults]"

lemma run_all_sends:
  assumes run: "run_all E s = (e, t)" and ws: "\<forall>(b, xy) \<in> set (a_ws s). is_behaviour b"
    and s: "a_active s = None" "\<not> a_butiaSel s" "\<not> a_testMode s"
  shows "(e = None \<and> (\<exists>codes. list_all2 (generates E s) (a_behaviours t) codes \<and>
      a_requests t = a_requests s @ map (task_request s) codes)) \<or> (e \<noteq> None \<and> a_requests t = a_requests s)"
proof -
  define s0 where "s0 = s\<lparr>a_max := MaxNumber 0\<rparr>"
  have s0: "set_max (MaxNumber 0) s = (None, s0)" "run_setting s0 = run_setting s" "a_ws s0 = a_ws s"
    by (simp_all add: set_max_def upd_def s0_def run_setting_def)
  obtain e1 s1 where r: "whens (\<lambda>s. block_count s > 0) (bxReady E) s0 = (e1, s1)" by force
  have s1: "run_setting s1 = run_setting s" using framesD [OF frames_whens [OF silent_bxReady] r] s0(2) by simp
  note run' = run [unfolded run_all_def seqs.simps s0(1) r prod.case option.case reads_def [of a_behaviours]]
  show ?thesis
  proof (cases e1)
    case (Some y)
    then show ?thesis using run' s1 by (auto simp: run_setting_def)
  next
    case None
    have ws1: "a_ws s1 = []"
      by (rule bxReady_empties [OF r [unfolded None]]) (use s0(2,3) ws s in \<open>simp_all add: run_setting_def\<close>)
    have act1: "a_active s1 = None" and same: "generates E s1 = generates E s" "task_request s1 = task_request s"
      using s1 s by (simp_all add: run_setting_def generates_def task_request_def fun_eq_iff)
    let ?k = "\<lambda>codes. seqs (map sendTasks codes)"
    obtain e2 s2 where c: "collect_codes E 0 (a_behaviours s1) [] ?k s1 = (e2, s2)" by force
    consider (sent) cs s3 where "list_all2 (generates E s1) (a_behaviours s1) cs" "?k cs s3 = (e2, s2)"
        "run_setting s3 = run_setting s1" "a_behaviours s3 = a_behaviours s1"
      | (failed) "e2 \<noteq> None" "run_setting s2 = run_setting s1"
      using collect_codes_runs [OF c act1 ws1] by auto
    then show ?thesis
    proof cases
      case sent
      have "task_request s3 = task_request s" using sent(3) s1 by (simp add: task_request_def run_setting_def fun_eq_iff)
      moreover have "a_requests s3 = a_requests s" using sent(3) s1 by (simp add: run_setting_def)
      ultimately have "e2 = None" "a_requests s2 = a_requests s @ map (task_request s) cs" "a_behaviours s2 = a_behaviours s1"
        using sent(2,4) by (auto simp: sendTasks_all)
      then show ?thesis using run' None c sent(1) same by (auto simp: call_pollResults_def setTimeout_def upd_def)
    next
      case failed
      then show ?thesis using run' None c s1 by (auto simp: run_setting_def)
    qed
  qed
qed

subsection \<open>When every behaviour can be generated\<close>

definition runnable :: "loader \<Rightarrow> view \<Rightarrow> behaviour \<Rightarrow> bool" where
  "runnable L V x \<longleftrightarrow> (\<exists>b xy n. bx_text x = domToText (workspaceToDom V [(b, xy)]) \<and> top_ok L (b, xy) \<and> first_value L b = Some n \<and>
     supported b)"

lemma supported_renumber: "supported (fst (renumber k b)) = supported b"
    "list_all supported_input (fst (renumber_ins k ins)) = list_all supported_input ins"
  by (induction k b and k ins rule: renumber_renumber_ins.induct) (auto simp: getCommentText_def split: prod.split)

lemma map_block_id [simp]: "map_block (\<lambda>b. b) b = b" "map_input (\<lambda>b. b) i = i"
  by (induction b and i) (simp_all add: map_idI)

lemma silence_none: "a_recovered s = [] \<Longrightarrow> silence E s = (\<lambda>b. b)"
  by (simp add: silence_def fun_eq_iff)

lemma runnable_loads:
  assumes "runnable (loader_of E s) (e_view E) x" and "a_ws s = []" and "a_recovered s = []"
  shows "\<exists>s1 code g. load_text E (bx_text x) s = (None, s1) \<and> a_recovered s1 = [] \<and>
    with_code E k s1 = k code (s1\<lparr>a_gen := g\<rparr>)"
proof -
  obtain b xy n where b: "bx_text x = domToText (workspaceToDom (e_view E) [(b, xy)])" "top_ok (loader_of E s) (b, xy)"
      "first_value (loader_of E s) b = Some n" "supported b"
    using assms(1) by (auto simp: runnable_def)
  have nb: "b \<noteq> NoBlock" using b(2) by (auto simp: top_ok_def)
  define s1 where "s1 = s\<lparr>a_ws := [(fst (renumber (a_uid s) b), xy)], a_uid := snd (renumber (a_uid s) b)\<rparr>"
  have dom: "domToWs E (workspaceToDom (e_view E) [(b, xy)]) s = (None, s1)"
    using domToWs_written [of E s "[(b, xy)]"] b(2) assms(2) by (simp add: s1_def surface_order_def split: prod.split)
  have "textToDom (bx_text x) = Inr (workspaceToDom (e_view E) [(b, xy)])"
    unfolding b(1) by (rule workspace_text_parses) (simp add: nb)
  then have load: "load_text E (bx_text x) s = (None, s1)" using dom by (simp add: load_text_def)
  have l: "loader_of E s1 = loader_of E s" "a_recovered s1 = []" using assms(3) by (simp_all add: s1_def loader_of_def)
  have "first_name E s1 = Some n"
    using first_value_renumber [OF nb] b(3) nb by (simp add: first_name_def first_block_def l(1)) (simp add: s1_def)
  then have "g_first (genv_of E s1) = Some n" by (simp add: genv_of_def)
  moreover have "list_all supported (map (\<lambda>(b, xy). map_block (silence E s1) b) (surface_order (e_view E) (a_ws s1)))"
    unfolding silence_none [OF l(2)] using supported_renumber(1) b(4) by (simp add: s1_def surface_order_def)
  ultimately obtain code g where "workspaceToCode (genv_of E s1)
      (map (\<lambda>(b, xy). map_block (silence E s1) b) (surface_order (e_view E) (a_ws s1))) (a_gen s1) = Inr (code, g)"
    using generates_total by blast
  then have "with_code E k s1 = k code (s1\<lparr>a_gen := g\<rparr>)" by (simp add: with_code_def)
  then show ?thesis using load l(2) by blast
qed

lemma runnable_cong: "a_recovered s = a_recovered t \<Longrightarrow> runnable (loader_of E s) = runnable (loader_of E t)"
  by (simp add: loader_of_def)

lemma collect_succeeds:
  assumes "\<forall>x \<in> set xs. runnable (loader_of E s) (e_view E) x" and "a_ws s = []" and "a_recovered s = []" and "a_active s = None"
    and k: "\<And>codes s. fst (k codes s) = None"
  shows "fst (collect_codes E i xs codes k s) = None"
  using assms(1-4)
proof (induction xs arbitrary: i codes s)
  case Nil
  then show ?case using k by simp
next
  case (Cons x xs)
  define s0 where "s0 = s\<lparr>a_gen := (a_gen s)\<lparr>g_vars := []\<rparr>\<rparr>"
  have s0: "new_variables s = (None, s0)" "a_ws s0 = []" "a_recovered s0 = []" "a_active s0 = None"
    using Cons.prems by (simp_all add: new_variables_def upd_def s0_def)
  have x: "runnable (loader_of E s0) (e_view E) x"
    using Cons.prems(1,3) runnable_cong [of s0 s E] s0(3) by simp
  let ?k = "\<lambda>code. seqs [clear_ws, collect_codes E (Suc i) xs (codes @ [code]) k]"
  obtain s1 code g where s1: "load_text E (bx_text x) s0 = (None, s1)" "a_recovered s1 = []" "with_code E ?k s1 = ?k code (s1\<lparr>a_gen := g\<rparr>)"
    using runnable_loads [OF x s0(2,3), of ?k] by blast
  have "a_active s1 = None" using framesD [OF silent_load_text s1(1)] s0(4) by (simp add: run_setting_def)
  define s2 where "s2 = put_ws [] (s1\<lparr>a_gen := g\<rparr>)"
  have s2: "clear_ws (s1\<lparr>a_gen := g\<rparr>) = (None, s2)" "a_ws s2 = []" "a_recovered s2 = []" "a_active s2 = None"
    using s1(2) \<open>a_active s1 = None\<close> by (simp_all add: clear_ws_def upd_def s2_def put_ws_def)
  have "fst (collect_codes E (Suc i) xs (codes @ [code]) k s2) = None"
    using Cons.IH [OF _ s2(2,3,4)] Cons.prems(1,3) runnable_cong [of s2 s E] s2(3) by simp
  moreover have "collect_codes E i (x # xs) codes k s = collect_codes E (Suc i) xs (codes @ [code]) k s2"
    using Cons.prems(4) s0(1) s1(1,3) s2(1) by (simp add: reads_def split: prod.split option.split)
  ultimately show ?case by simp
qed

lemma run_sends:
  assumes run: "runTasks E s = (e, t)" and s: "a_shown s ''btn_back''" "\<not> a_testMode s" "\<not> a_butiaSel s" "a_active s = None"
  shows "if e = None then \<exists>new. a_requests t = a_requests s @ new \<and> list_all2 (generates E s) (a_behaviours t) (map received new)
    else a_requests t = a_requests s"
proof -
  obtain s0 where s0: "disarm ''btn_run'' s = (None, s0)" by (simp add: disarm_def upd_def)
  have set0: "run_setting s0 = run_setting s" by (rule framesD [OF silent_steps(1) s0])
  obtain e1 s1 where l: "leaveOnlyBehavioursInWspace E s0 = (e1, s1)" by force
  have set1: "run_setting s1 = run_setting s" using framesD [OF silent_leaveOnly l] set0 by simp
  show ?thesis
  proof (cases e1)
    case (Some y)
    then show ?thesis using run s0 l set1 by (auto simp: runTasks_def debounced_def run_setting_def)
  next
    case None
    have ws1: "\<forall>(b, xy) \<in> set (a_ws s1). is_behaviour b"
      by (rule kept_are_behaviours [OF l [unfolded None]]) (use set0 s in \<open>simp_all add: run_setting_def\<close>)
    have m: "a_shown s1 ''btn_back''" "\<not> a_testMode s1" "\<not> a_butiaSel s1" "a_active s1 = None" "a_requests s1 = a_requests s"
        "generates E s1 = generates E s"
      using set1 s by (simp_all add: run_setting_def generates_def fun_eq_iff)
    obtain e2 s2 where r: "run_all E s1 = (e2, s2)" by force
    have run': "seqs [run_all E, setTimeout 800 (Rearm ''btn_run'')] s1 = (e, t)"
      using run s0 l None m(1,2) by (simp add: runTasks_def debounced_def run_all_def ifs_def)
    consider (sent) codes where "e2 = None" "list_all2 (generates E s) (a_behaviours s2) codes" "a_requests s2 = a_requests s @ map (task_request s1) codes"
      | (failed) "e2 \<noteq> None" "a_requests s2 = a_requests s"
      using run_all_sends [OF r ws1 m(4,3,2)] m(5,6) by auto
    then show ?thesis
    proof cases
      case sent
      then have "e = None" "a_requests t = a_requests s @ map (task_request s1) codes" "a_behaviours t = a_behaviours s2"
        using run' r by (auto simp: setTimeout_def upd_def)
      then show ?thesis using sent(2) by (auto simp: o_def)
    next
      case failed
      then show ?thesis using run' r by auto
    qed
  qed
qed


lemma run_succeeds:
  assumes "a_shown s ''btn_back''" "\<not> a_testMode s" "\<not> a_butiaSel s" "a_active s = None"
    and "a_ws s = []" and "a_recovered s = []" and "\<forall>x \<in> set (a_behaviours s). runnable (loader_of E s) (e_view E) x"
  shows "fst (runTasks E s) = None"
proof -
  define s1 where "s1 = put_ws [] (s\<lparr>a_armed := (a_armed s)(''btn_run'' := False)\<rparr>)"
  define s2 where "s2 = s1\<lparr>a_max := MaxNumber 0\<rparr>"
  have s1: "leaveOnlyBehavioursInWspace E (s\<lparr>a_armed := (a_armed s)(''btn_run'' := False)\<rparr>) = (None, s1)"
    using leave_nothing [of "s\<lparr>a_armed := (a_armed s)(''btn_run'' := False)\<rparr>"] assms(2,3,5) by (simp add: s1_def)
  have s2: "a_ws s2 = []" "a_recovered s2 = []" "a_active s2 = None" "a_behaviours s2 = a_behaviours s" "loader_of E s2 = loader_of E s"
    "a_shown s1 ''btn_back''" "\<not> a_testMode s1"
    using assms by (simp_all add: s2_def s1_def put_ws_def loader_of_def)
  let ?k = "\<lambda>codes. seqs (map sendTasks codes)"
  obtain s3 where s3: "collect_codes E 0 (a_behaviours s2) [] ?k s2 = (None, s3)"
  proof -
    have "fst (collect_codes E 0 (a_behaviours s2) [] ?k s2) = None"
      by (rule collect_succeeds) (use s2 assms(7) in \<open>simp_all add: sendTasks_all\<close>)
    then show ?thesis using that by (cases "collect_codes E 0 (a_behaviours s2) [] ?k s2") simp
  qed
  have "set_max (MaxNumber 0) s1 = (None, s2)" by (simp add: set_max_def upd_def s2_def)
  moreover have "whens (\<lambda>s. block_count s > 0) (bxReady E) s2 = (None, s2)" by (rule whens_nothing [OF s2(1)])
  ultimately have "fst (run_all E s1) = None"
    unfolding run_all_def by (simp add: reads_def s3 call_pollResults_def setTimeout_def upd_def)
  then obtain s4 where "run_all E s1 = (None, s4)" by (metis prod.collapse)
  then have "seqs [run_all E, setTimeout 800 (Rearm ''btn_run'')] s1 = (None, s4\<lparr>a_timers := a_timers s4 @ [(800, Rearm ''btn_run'')]\<rparr>)"
    by (simp add: setTimeout_def upd_def)
  then show ?thesis
    using s1 s2(6,7) by (simp add: runTasks_def debounced_def disarm_def upd_def run_all_def ifs_def)
qed

text \<open>C4. Running is all or nothing: when Run is pressed the second time, either exactly one task per
  behaviour of the list is sent, in the order of the list, and what the robot's server decodes is
  the code the generator gives for the text of that behaviour, character for character; or the
  handler ends with an exception and not a single task has been sent, not even for the behaviours
  that come before the faulty one. The first is the case when the text of every behaviour can be
  loaded into the empty workspace and its blocks are supported by the generator.
\<close>

theorem run_all_or_nothing:
  assumes "runTasks E s = (e, t)" and "a_shown s ''btn_back''" "\<not> a_testMode s" "\<not> a_butiaSel s" "a_active s = None"
  shows "(if e = None then \<exists>new. a_requests t = a_requests s @ new \<and> list_all2 (generates E s) (a_behaviours t) (map received new)
      else a_requests t = a_requests s) \<and>
    (a_ws s = [] \<and> a_recovered s = [] \<and> (\<forall>x \<in> set (a_behaviours s). runnable (loader_of E s) (e_view E) x) \<longrightarrow> e = None)"
  using run_sends [OF assms] run_succeeds [OF assms(2-5), of E] assms(1) by auto

theorem run_all_or_nothing_witness:
  "\<exists>s t new. map bx_name (a_behaviours s) = [''a<b''] \<and> runTasks demo_E s = (None, t) \<and> a_requests t = a_requests s @ new \<and>
    list_all2 (generates demo_E s) (a_behaviours t) (map received new)"
proof -
  obtain s0 where same: "same_setting demo_edited s0" and s0: "a_ws s0 = []"
      "a_behaviours s0 = [entry_of demo_E demo_edited demo_behaviour ''a<b'']"
    using demo_listed by blast
  define s where "s = s0\<lparr>a_shown := (\<lambda>_. True), a_testMode := False, a_butiaSel := False, a_active := None\<rparr>"
  have s: "a_shown s ''btn_back''" "\<not> a_testMode s" "\<not> a_butiaSel s" "a_active s = None" "a_ws s = []" "a_recovered s = []"
      "a_behaviours s = [entry_of demo_E demo_edited demo_behaviour ''a<b'']"
    using same s0 by (simp_all add: s_def same_setting_def)
  have "supported demo_behaviour"
    by (simp add: demo_behaviour_def node_ok_def lua_generators_def failing_types_def getCommentText_def new_flags_def)
  moreover have "first_value (loader_of demo_E s) demo_behaviour = Some ''a<b''"
    using demo_first [of "s\<lparr>a_ws := [(demo_behaviour, 20, 30)]\<rparr>"] s(6)
    by (simp add: first_name_def first_block_def loader_of_def split: if_splits)
  ultimately have "runnable (loader_of demo_E s) (e_view demo_E) (entry_of demo_E demo_edited demo_behaviour ''a<b'')"
    unfolding runnable_def using demo_loads [OF s(6)]
    by (intro exI [of _ demo_behaviour] exI [of _ "(20, 30)"] exI [of _ "''a<b''"]) (simp add: entry_of_def ws_text_def)
  then have all: "\<forall>x \<in> set (a_behaviours s). runnable (loader_of demo_E s) (e_view demo_E) x" using s(7) by simp
  obtain e t where run: "runTasks demo_E s = (e, t)" by force
  note r = run_all_or_nothing [OF run s(1-4)]
  then have "e = None" using s(5,6) all by blast
  then obtain new where "a_requests t = a_requests s @ new" "list_all2 (generates demo_E s) (a_behaviours t) (map received new)"
    using r by auto
  moreover have "map bx_name (a_behaviours s) = [''a<b'']" by (simp add: s(7) entry_of_def)
  ultimately show ?thesis
    using run unfolding \<open>e = None\<close> by (intro exI [of _ s] exI [of _ t] exI [of _ new] conjI)
qed

end
