(* ===== verification/Modes.thy ===== *)
theory Modes
  imports RunProps
begin

text \<open>
  The modes of the page. Running and testing hide and show buttons with \<open>toggle\<close>, and \<open>goBack\<close>
  toggles them back; nowhere is it written down which buttons belong to which mode.
\<close>

definition mode_buttons :: "string list" where
  "mode_buttons = [''btn_robotest'', ''btn_load'', ''btn_save'', ''btn_trash'', ''btn_edit'', ''btn_bx_ready'', ''btn_lang'',
     ''btn_more'', ''btn_debug'', ''btn_speed'', ''btn_stop'', ''btn_back'']"

definition mode_of :: "app \<Rightarrow> bool list \<times> bool \<times> nat option" where
  "mode_of s = (map (a_shown s) mode_buttons, a_testMode s, a_active s)"

subsection \<open>What does not touch the mode\<close>

abbreviation modeless :: "act \<Rightarrow> bool" where
  "modeless \<equiv> frames mode_of"

lemma modeless_steps:
  "modeless (disarm i)" "modeless (setTimeout ms tm)" "modeless clear_ws" "modeless new_variables" "modeless (set_max c)"
  "modeless (set_html i h)" "modeless skip" "modeless (raise e)" "modeless (push_behaviour x)" "modeless (happens ef)" "modeless (ajax r ps)"
  "modeless (upd (\<lambda>s. put_ws (p s) s))" "modeless (upd (\<lambda>s. s\<lparr>a_items := f s\<rparr>))" "modeless (upd (\<lambda>s. s\<lparr>a_countBlocks := m s\<rparr>))"
  "modeless (upd (\<lambda>s. s\<lparr>a_butiaSel := b s\<rparr>))" "modeless (upd (\<lambda>s. s\<lparr>a_cats := k s\<rparr>))" "modeless (upd (\<lambda>s. s\<lparr>a_openToolbox := q s\<rparr>))"
  "modeless (upd (\<lambda>s. s\<lparr>a_debug := d s\<rparr>))" "modeless (upd (\<lambda>s. s\<lparr>a_debugOffset := l s\<rparr>))"
  "modeless (addClass cl)" "modeless (removeClass cl)" "modeless (each_block g)"
  unfolding disarm_def setTimeout_def clear_ws_def new_variables_def set_max_def set_html_def push_behaviour_def happens_def ajax_def
    addClass_def removeClass_def each_block_def
  by (rule frames_upd; simp add: mode_of_def put_ws_def | simp add: frames_def skip_def raise_def)+

lemma modeless_show: "i \<notin> set mode_buttons \<Longrightarrow> modeless (show_el E i)" "i \<notin> set mode_buttons \<Longrightarrow> modeless (hide_el E i)"
    "i \<notin> set mode_buttons \<Longrightarrow> modeless (toggle_el E i)"
  unfolding show_el_def hide_el_def toggle_el_def by (rule frames_upd; auto simp: mode_of_def)+

lemma modeless_leaveOnly: "modeless (leaveOnlyBehavioursInWspace E)"
  unfolding leaveOnlyBehavioursInWspace_def ShowMessage_def
  by (intro frames_rules) (auto intro!: modeless_steps frames_rules modeless_show simp: mode_buttons_def)

lemma modeless_list: "modeless (list_behaviour E b)"
proof -
  have "modeless (case name of None \<Rightarrow> raise type_error | Some n \<Rightarrow> seqs [
         push_behaviour \<lparr>bx_id = b_id b, bx_text = w, bx_name = n, bx_size = sz\<rparr>,
         show_el E (bx_popup E),
         upd (\<lambda>s. s\<lparr>a_items := a_items s @ [(b_id b, shortname n)]\<rparr>),
         clear_ws,
         upd (\<lambda>s. s\<lparr>a_countBlocks := Some 0\<rparr>)])" for name w sz
    by (cases name) (auto intro!: modeless_steps frames_seqs modeless_show simp: bx_popup_def mode_buttons_def)
  then show ?thesis
    unfolding list_behaviour_def by (intro frames_seqs) (auto intro!: modeless_steps frames_reads split: prod.split)
qed

lemma modeless_bxReady: "modeless (bxReady E)"
  unfolding bxReady_def debounced_def
  by (intro frames_seqs) (auto intro!: modeless_steps modeless_leaveOnly frames_reads frames_option frames_whens modeless_list)

lemma modeless_domToWs: "modeless (domToWs E x)"
  by (simp add: frames_def domToWs_def mode_of_def split: prod.split)

lemma modeless_test_selected: "modeless (test_selected E b)"
  unfolding test_selected_def
  by (intro frames_reads frames_seqs) (auto intro!: modeless_steps modeless_bxReady modeless_domToWs frames_attempt)

lemma modeless_dispose: "modeless (dispose_cats is)"
  unfolding dispose_cats_def by (intro frames_ifs modeless_steps)

lemma modeless_enter: "modeless (enterTestMode c)" "modeless leaveTestMode"
  unfolding enterTestMode_def leaveTestMode_def
  by (intro frames_seqs; auto intro!: modeless_steps modeless_dispose frames_whens)+

lemma modeless_slide: "modeless (slideToolbox a b)"
  unfolding slideToolbox_def
  by (intro frames_seqs) (auto intro!: modeless_steps frames_rules)

lemma modeless_killTasks: "modeless (killTasks E)"
  unfolding killTasks_def with_user_def
  by (intro frames_seqs) (auto intro!: modeless_steps frames_rules)

subsection \<open>Toggling\<close>

definition toggled :: "env \<Rightarrow> string list \<Rightarrow> app \<Rightarrow> app" where
  "toggled E l s = fold (\<lambda>i s. snd (toggle_el E i s)) l s"

lemma toggle_runs: "toggle_el E i s = (None, snd (toggle_el E i s))"
  by (simp add: toggle_el_def upd_def)

lemma toggle_all: "seqs (map (toggle_el E) l) s = (None, toggled E l s)"
proof (induction l arbitrary: s)
  case (Cons i l)
  have "seqs (map (toggle_el E) (i # l)) s = seqs (map (toggle_el E) l) (snd (toggle_el E i s))"
    by (subst list.map, subst seqs.simps, subst toggle_runs) simp
  then show ?case using Cons by (simp add: toggled_def)
qed (simp add: toggled_def)

lemma toggled_shown:
  "distinct l \<Longrightarrow> a_shown (toggled E l s) i = (if i \<in> set l \<and> present E i then \<not> a_shown s i else a_shown s i)"
  by (induction l arbitrary: s) (auto simp: toggled_def toggle_el_def upd_def)

lemma toggled_same: "a_testMode (toggled E l s) = a_testMode s" "a_active (toggled E l s) = a_active s" "a_debug (toggled E l s) = a_debug s"
  by (induction l arbitrary: s) (auto simp: toggled_def toggle_el_def upd_def)


text \<open>States in which the same mode buttons are shown.\<close>

definition displays :: "app \<Rightarrow> (string \<Rightarrow> bool) \<Rightarrow> bool" where
  "displays s f \<longleftrightarrow> (\<forall>i \<in> set mode_buttons. a_shown s i = f i)"

lemma displays_self: "displays s (a_shown s)"
  by (simp add: displays_def)

lemma displays_cong: "mode_of t = mode_of s \<Longrightarrow> displays t f = displays s f"
  by (simp add: displays_def mode_of_def map_eq_conv)

lemma mode_of_setting: "mode_of t = mode_of s \<Longrightarrow> a_testMode t = a_testMode s \<and> a_active t = a_active s"
  by (simp add: mode_of_def)

definition flip :: "env \<Rightarrow> string list \<Rightarrow> (string \<Rightarrow> bool) \<Rightarrow> string \<Rightarrow> bool" where
  "flip E l f i = (if i \<in> set l \<and> present E i then \<not> f i else f i)"

lemma displays_toggled: "distinct l \<Longrightarrow> displays s f \<Longrightarrow> displays (toggled E l s) (flip E l f)"
  by (auto simp: displays_def flip_def toggled_shown)

lemma toggle_one: "toggle_el E i s = (None, toggled E [i] s)"
  using toggle_all [of E "[i]" s] by (simp split: prod.splits option.splits)

definition page_buttons :: "env \<Rightarrow> string list" where
  "page_buttons E = (if e_tablet E then [''btn_robotest'', ''btn_edit'', ''btn_load'', ''btn_save'', ''btn_bx_ready'', ''btn_lang'']
     else [''btn_more''])"

lemma map_page_buttons: "map f (page_buttons E) =
    (if e_tablet E then map f [''btn_robotest'', ''btn_edit'', ''btn_load'', ''btn_save'', ''btn_bx_ready'', ''btn_lang''] else [f ''btn_more''])"
  by (simp add: page_buttons_def)

lemma killTasks_runs: "\<exists>t. killTasks E s = (None, t) \<and> mode_of t = mode_of s"
proof -
  obtain u where "getCookie ''idUser'' (a_jar s) = Some u" using getCookie_exists by blast
  then have "fst (killTasks E s) = None"
    by (simp add: killTasks_def with_user_def reads_def disarm_def upd_def ajax_def setTimeout_def)
  then show ?thesis using framesD [OF modeless_killTasks] by (metis prod.collapse)
qed

lemma show_runs: "\<exists>t. whens c (show_el E i) s = (None, t)" "\<exists>t. whens c (toggle_el E i) s = (None, t)"
  by (simp_all add: whens_def show_el_def toggle_el_def upd_def)

lemma slide_runs: "\<exists>t. slideToolbox a b s = (None, t) \<and> mode_of t = mode_of s"
proof -
  have "fst (slideToolbox a b s) = None"
    by (simp add: slideToolbox_def act_simps addClass_def removeClass_def happens_def split: prod.split)
  then show ?thesis using framesD [OF modeless_slide] by (metis prod.collapse)
qed

subsection \<open>The way back\<close>

definition back_test :: "env \<Rightarrow> act" where
  "back_test E = seqs [
         toggle_el E ''btn_speed'',
         whens (\<lambda>s. a_behaviours s \<noteq> []) (show_el E (bx_popup E)),
         upd (\<lambda>s. s\<lparr>a_testMode := False\<rparr>),
         killTasks E,
         attempt leaveTestMode,
         whens (\<lambda>_. \<not> e_tablet E) (slideToolbox False True)]"

definition back_run :: "env \<Rightarrow> act" where
  "back_run E = seqs [
         upd (\<lambda>s. s\<lparr>a_debugOffset := 0\<rparr>),
         killTasks E,
         whens (\<lambda>s. a_active s = None) (toggle_el E ''btn_debug'')]"

lemma back_test_shows:
  assumes "displays s f" and "a_active s = None"
  shows "\<exists>t. back_test E s = (None, t) \<and> \<not> a_testMode t \<and> a_active t = None \<and> displays t (flip E [''btn_speed''] f)"
proof -
  let ?s1 = "toggled E [''btn_speed''] s"
  obtain s2 where s2: "whens (\<lambda>s. a_behaviours s \<noteq> []) (show_el E (bx_popup E)) ?s1 = (None, s2)"
    using show_runs(1) by blast
  have m2: "mode_of s2 = mode_of ?s1"
    by (rule framesD [OF frames_whens [OF modeless_show(1)] s2]) (simp add: bx_popup_def mode_buttons_def)
  let ?s3 = "s2\<lparr>a_testMode := False\<rparr>"
  obtain s4 where s4: "killTasks E ?s3 = (None, s4)" "mode_of s4 = mode_of ?s3" using killTasks_runs by blast
  obtain s5 where s5: "attempt leaveTestMode s4 = (None, s5)" by (simp add: attempt_def)
  have m5: "mode_of s5 = mode_of s4" by (rule framesD [OF frames_attempt [OF modeless_enter(2)] s5])
  obtain s6 where s6: "whens (\<lambda>_. \<not> e_tablet E) (slideToolbox False True) s5 = (None, s6)" "mode_of s6 = mode_of s5"
    using slide_runs [of False True s5] by (cases "e_tablet E") (auto simp: whens_def)
  have run: "back_test E s = (None, s6)"
    unfolding back_test_def seqs.simps toggle_one prod.case option.case s2 upd_def s4(1) s5 s6(1) ..
  have m6: "mode_of s6 = mode_of ?s3" using s4(2) m5 s6(2) by simp
  have "displays s2 (flip E [''btn_speed''] f)"
    using displays_toggled [OF _ assms(1), of "[''btn_speed'']" E] displays_cong [OF m2] by simp
  then have "displays ?s3 (flip E [''btn_speed''] f)" by (simp add: displays_def)
  then have shown: "displays s6 (flip E [''btn_speed''] f)" using displays_cong [OF m6] by simp
  have "a_active ?s3 = None" using mode_of_setting [OF m2] assms(2) by (simp add: toggled_same)
  then have "\<not> a_testMode s6" "a_active s6 = None" using mode_of_setting [OF m6] by simp_all
  then show ?thesis using run shown by (intro exI [of _ s6] conjI)
qed

lemma back_run_shows:
  assumes "displays s f" and "a_active s = None" and "\<not> a_testMode s"
  shows "\<exists>t. back_run E s = (None, t) \<and> \<not> a_testMode t \<and> a_active t = None \<and> displays t (flip E [''btn_debug''] f)"
proof -
  let ?s1 = "s\<lparr>a_debugOffset := 0\<rparr>"
  obtain s2 where s2: "killTasks E ?s1 = (None, s2)" "mode_of s2 = mode_of ?s1" using killTasks_runs by blast
  have m: "mode_of s2 = mode_of s" using s2(2) by (simp add: mode_of_def)
  have "a_active s2 = None" using mode_of_setting [OF m] assms(2) by simp
  then have run: "back_run E s = (None, toggled E [''btn_debug''] s2)"
    unfolding back_run_def seqs.simps by (simp add: upd_def s2(1) whens_def toggle_one)
  have "displays (toggled E [''btn_debug''] s2) (flip E [''btn_debug''] f)"
    using displays_toggled [of "[''btn_debug'']" s2 f E] displays_cong [OF m] assms(1) by simp
  moreover have "\<not> a_testMode (toggled E [''btn_debug''] s2)" "a_active (toggled E [''btn_debug''] s2) = None"
    using mode_of_setting [OF m] assms(2,3) by (simp_all add: toggled_same)
  ultimately show ?thesis using run by (intro exI [of _ "toggled E [''btn_debug''] s2"] conjI)
qed

text \<open>Which buttons \<open>goBack\<close> displays: the trash, not the stop button, and the rest toggled.\<close>

definition after_back :: "env \<Rightarrow> bool \<Rightarrow> (string \<Rightarrow> bool) \<Rightarrow> string \<Rightarrow> bool" where
  "after_back E test f = (flip E ((if test then ''btn_speed'' else ''btn_debug'') # page_buttons E @ [''btn_back'']) f)
     (''btn_trash'' := True, ''btn_stop'' := False)"

lemma flip_flip: "set l \<inter> set m = {} \<Longrightarrow> flip E l (flip E m f) = flip E (l @ m) f"
  by (auto simp: flip_def fun_eq_iff)

lemma when_hidden:
  assumes "displays s f" and "present E i"
  shows "\<exists>t. whens (\<lambda>s. \<not> a_shown s i) (toggle_el E i) s = (None, t) \<and> a_testMode t = a_testMode s \<and> displays t (f(i := True))"
    and "\<exists>t. whens (\<lambda>s. a_shown s i) (toggle_el E i) s = (None, t) \<and> a_testMode t = a_testMode s \<and> displays t (f(i := False))"
  using assms by (auto simp: whens_def toggle_el_def upd_def displays_def)

lemma goBack_shows:
  assumes "displays s f" and "a_active s = None"
  shows "\<exists>t. goBack E s = (None, t) \<and> \<not> a_testMode t \<and> \<not> a_debug t \<and> displays t (after_back E (a_testMode s) f)"
proof -
  let ?b = "if a_testMode s then ''btn_speed'' else ''btn_debug''"
  define s1 where "s1 = s\<lparr>a_armed := (a_armed s)(''btn_back'' := False), a_butiaSel := False, a_max := MaxText ''Infinity''\<rparr>"
  have "displays s1 f" "a_active s1 = None" "a_testMode s1 = a_testMode s" using assms by (simp_all add: s1_def displays_def)
  then obtain s2 where s2: "ifs a_testMode (back_test E) (back_run E) s1 = (None, s2)" "\<not> a_testMode s2" "displays s2 (flip E [?b] f)"
    using back_test_shows [of s1 f E] back_run_shows [of s1 f E] by (cases "a_testMode s") (auto simp: ifs_def)
  have pages: "seqs (map (toggle_el E) (page_buttons E)) s2 = (None, toggled E (page_buttons E) s2)" by (rule toggle_all)
  have "distinct (page_buttons E)" by (simp add: page_buttons_def)
  then have "displays (toggled E (page_buttons E) s2) (flip E (page_buttons E) (flip E [?b] f))" by (rule displays_toggled [OF _ s2(3)])
  moreover have "present E ''btn_trash''" "present E ''btn_stop''" by (simp_all add: present_def)
  ultimately obtain s3 s4 where s3: "whens (\<lambda>s. \<not> a_shown s ''btn_trash'') (toggle_el E ''btn_trash'') (toggled E (page_buttons E) s2) = (None, s3)"
      "a_testMode s3 = a_testMode (toggled E (page_buttons E) s2)"
    and s4: "whens (\<lambda>s. a_shown s ''btn_stop'') (toggle_el E ''btn_stop'') s3 = (None, s4)" "a_testMode s4 = a_testMode s3"
      "displays s4 ((flip E (page_buttons E) (flip E [?b] f))(''btn_trash'' := True, ''btn_stop'' := False))"
    using when_hidden by meson
  define s5 where "s5 = toggled E [''btn_back''] s4"
  have s5: "displays s5 (flip E [''btn_back''] ((flip E (page_buttons E) (flip E [?b] f))(''btn_trash'' := True, ''btn_stop'' := False)))"
    unfolding s5_def by (rule displays_toggled [OF _ s4(3)]) simp
  let ?flags = "\<lambda>b. set_flags (\<lambda>fl. fl\<lparr>editable := True, movable := (if b_type b = ''controls_behaviourTrigger'' then movable fl else True)\<rparr>) b"
  obtain t where t: "seqs [upd (\<lambda>s. s\<lparr>a_debug := False\<rparr>), each_block ?flags, setTimeout 800 (Rearm ''btn_back'')] s5 = (None, t)"
      "a_shown t = a_shown s5" "a_testMode t = a_testMode s5" "\<not> a_debug t"
    by (simp add: upd_def each_block_def setTimeout_def)
  have run: "goBack E s = (None, t)"
  proof -
    have "goBack E s = seqs ([disarm ''btn_back'', upd (\<lambda>s. s\<lparr>a_butiaSel := False\<rparr>), set_max (MaxText ''Infinity''),
        whens (\<lambda>s. a_active s \<noteq> None) (show_el E ''code_modal''), ifs a_testMode (back_test E) (back_run E)] @
        (map (toggle_el E) (page_buttons E) @ [whens (\<lambda>s. \<not> a_shown s ''btn_trash'') (toggle_el E ''btn_trash''),
        whens (\<lambda>s. a_shown s ''btn_stop'') (toggle_el E ''btn_stop''), toggle_el E ''btn_back'',
        upd (\<lambda>s. s\<lparr>a_debug := False\<rparr>), each_block ?flags, setTimeout 800 (Rearm ''btn_back'')])) s"
      unfolding goBack_def debounced_def back_test_def back_run_def map_page_buttons append.simps append_assoc ..
    also have "\<dots> = seqs (map (toggle_el E) (page_buttons E) @ [whens (\<lambda>s. \<not> a_shown s ''btn_trash'') (toggle_el E ''btn_trash''),
        whens (\<lambda>s. a_shown s ''btn_stop'') (toggle_el E ''btn_stop''), toggle_el E ''btn_back'',
        upd (\<lambda>s. s\<lparr>a_debug := False\<rparr>), each_block ?flags, setTimeout 800 (Rearm ''btn_back'')]) s2"
      using s2(1) assms(2) by (simp add: disarm_def upd_def set_max_def whens_def s1_def)
    also have "\<dots> = (None, t)"
      unfolding seqs_append pages using t(1) by (simp add: s3(1) s4(1) toggle_one s5_def)
    finally show ?thesis .
  qed
  have same: "flip E [''btn_back''] ((flip E (page_buttons E) (flip E [?b] f))(''btn_trash'' := True, ''btn_stop'' := False)) = after_back E (a_testMode s) f"
    by (auto simp: after_back_def flip_def page_buttons_def fun_eq_iff)
  have "\<not> a_testMode t" using t(3) s2(2) s3(2) s4(2) by (simp add: s5_def toggled_same)
  moreover have "displays t (after_back E (a_testMode s) f)" using s5 t(2) same by (simp add: displays_def)
  ultimately show ?thesis using run t(4) by (intro exI [of _ t] conjI)
qed


subsection \<open>Into a mode\<close>

definition run_buttons :: "env \<Rightarrow> string list" where
  "run_buttons E = [''btn_debug'', ''btn_stop'', ''btn_back''] @
     (if e_tablet E then [''btn_robotest'', ''btn_load'', ''btn_save'', ''btn_trash'', ''btn_edit'', ''btn_bx_ready'', ''btn_lang'']
      else [''btn_more''])"

lemma map_run_buttons: "map f (run_buttons E) = [f ''btn_debug'', f ''btn_stop'', f ''btn_back''] @
    (if e_tablet E then map f [''btn_robotest'', ''btn_load'', ''btn_save'', ''btn_trash'', ''btn_edit'', ''btn_bx_ready'', ''btn_lang'']
     else [f ''btn_more''])"
  by (simp add: run_buttons_def)

lemma runTasks_shows:
  assumes "displays s f" and "\<not> a_shown s ''btn_back''" and "a_active s = None"
  shows "\<exists>t. runTasks E s = (None, t) \<and> a_testMode t = a_testMode s \<and> a_active t = None \<and> displays t (flip E (run_buttons E) f)"
proof -
  define s0 where "s0 = s\<lparr>a_armed := (a_armed s)(''btn_run'' := False)\<rparr>"
  have "mode_of s0 = mode_of s" by (simp add: s0_def mode_of_def)
  have "fst (leaveOnlyBehavioursInWspace E s0) = None"
    by (simp add: leaveOnlyBehavioursInWspace_def ShowMessage_def act_simps set_html_def show_el_def setTimeout_def)
  then obtain s1 where s1: "leaveOnlyBehavioursInWspace E s0 = (None, s1)" by (metis prod.collapse)
  have m: "mode_of s1 = mode_of s" using framesD [OF modeless_leaveOnly s1] \<open>mode_of s0 = mode_of s\<close> by simp
  then have d1: "displays s1 f" using displays_cong [OF m] assms(1) by simp
  have "displays s1 (a_shown s)" using displays_cong [OF m] displays_self by simp
  then have hidden: "\<not> a_shown s1 ''btn_back''" using assms(2) by (simp add: displays_def mode_buttons_def)
  have act: "a_active s1 = None" using mode_of_setting [OF m] assms(3) by simp
  have body: "seqs (map (toggle_el E) (run_buttons E)) s1 = (None, toggled E (run_buttons E) s1)" by (rule toggle_all)
  have first: "whens (\<lambda>s. a_active s = None) (toggle_el E ''btn_debug'') s1 = toggle_el E ''btn_debug'' s1" using act by (simp add: whens_def)
  have "seqs ([whens (\<lambda>s. a_active s = None) (toggle_el E ''btn_debug''), toggle_el E ''btn_stop'', toggle_el E ''btn_back''] @
        (if e_tablet E then map (toggle_el E) [''btn_robotest'', ''btn_load'', ''btn_save'', ''btn_trash'',
            ''btn_edit'', ''btn_bx_ready'', ''btn_lang''] else [toggle_el E ''btn_more''])) s1 =
      seqs (map (toggle_el E) (run_buttons E)) s1"
    unfolding map_run_buttons append.simps by (simp only: seqs.simps(2) first)
  then have run: "runTasks E s = (None, setTimeout_of (toggled E (run_buttons E) s1))"
    if "setTimeout_of = (\<lambda>t. t\<lparr>a_timers := a_timers t @ [(800, Rearm ''btn_run'')]\<rparr>)" for setTimeout_of
    using hidden that s1 body
    by (simp add: runTasks_def debounced_def disarm_def upd_def s0_def ifs_def setTimeout_def)
  have "distinct (run_buttons E)" by (simp add: run_buttons_def)
  then have "displays (toggled E (run_buttons E) s1) (flip E (run_buttons E) f)" by (rule displays_toggled [OF _ d1])
  then show ?thesis
    using run [OF refl] mode_of_setting [OF m] assms(3)
    by (intro exI conjI) (assumption | simp add: toggled_same displays_def)+
qed

definition test_buttons :: "env \<Rightarrow> string list" where
  "test_buttons E = (if e_tablet E then [''btn_robotest'', ''btn_load'', ''btn_save'', ''btn_bx_ready'', ''btn_edit'', ''btn_speed'', ''btn_lang'']
     else [''btn_more'']) @ [''btn_back'']"


text \<open>What \<open>robotest\<close> does before it toggles buttons, and the toggling.\<close>

definition test_start :: "env \<Rightarrow> block option \<Rightarrow> act" where
  "test_start E butia = seqs [
         (case butia of Some b \<Rightarrow> test_selected E b | None \<Rightarrow> attempt (bxReady E)),
         whens (\<lambda>_. e_tablet E) (hide_el E ''behaviours_popup''),
         enterTestMode (butia = None)]"

definition test_toggles :: "env \<Rightarrow> act list" where
  "test_toggles E = (if e_tablet E then map (toggle_el E) [''btn_robotest'', ''btn_load'', ''btn_save'', ''btn_bx_ready'',
            ''btn_edit'', ''btn_speed'', ''btn_lang'']
         else [toggle_el E ''btn_more'',
               whens (\<lambda>s. a_shown s ''btn_bxs_ready'') (toggle_el E ''btn_bxs_ready''),
               slideToolbox False True])"

lemma modeless_start: "modeless (test_start E butia)"
  unfolding test_start_def
  by (intro frames_seqs) (auto intro!: frames_option frames_attempt frames_whens modeless_test_selected modeless_bxReady modeless_show
      modeless_enter simp: mode_buttons_def)

lemma test_toggles_shows:
  assumes "displays s f"
  shows "\<exists>t. seqs (test_toggles E) s = (None, t) \<and> a_testMode t = a_testMode s \<and> a_active t = a_active s \<and>
    displays t (flip E (if e_tablet E then butlast (test_buttons E) else [''btn_more'']) f)"
proof (cases "e_tablet E")
  case True
  then have "seqs (test_toggles E) s = (None, toggled E (butlast (test_buttons E)) s)"
    using toggle_all [of E "butlast (test_buttons E)" s] by (simp only: test_toggles_def test_buttons_def if_True butlast_snoc)
  moreover have "distinct (butlast (test_buttons E))" by (simp add: test_buttons_def)
  then have "displays (toggled E (butlast (test_buttons E)) s) (flip E (butlast (test_buttons E)) f)" by (rule displays_toggled [OF _ assms])
  ultimately show ?thesis using True by (simp add: toggled_same)
next
  case False
  let ?s1 = "toggled E [''btn_more''] s"
  obtain s2 where s2: "whens (\<lambda>s. a_shown s ''btn_bxs_ready'') (toggle_el E ''btn_bxs_ready'') ?s1 = (None, s2)"
    using show_runs(2) by blast
  have m2: "mode_of s2 = mode_of ?s1"
    by (rule framesD [OF frames_whens [OF modeless_show(3)] s2]) (simp add: mode_buttons_def)
  obtain s3 where s3: "slideToolbox False True s2 = (None, s3)" "mode_of s3 = mode_of s2" using slide_runs by blast
  have run: "seqs (test_toggles E) s = (None, s3)" using False s2 s3(1) by (simp add: test_toggles_def toggle_one)
  have m3: "mode_of s3 = mode_of ?s1" using m2 s3(2) by simp
  have "displays ?s1 (flip E [''btn_more''] f)" by (rule displays_toggled [OF _ assms]) simp
  then have "displays s3 (flip E [''btn_more''] f)" using displays_cong [OF m3] by simp
  then show ?thesis using run False mode_of_setting [OF m3] by (simp add: toggled_same)
qed

definition test_end :: "env \<Rightarrow> block option \<Rightarrow> act" where
  "test_end E butia = seqs (upd (\<lambda>s. s\<lparr>a_testMode := True\<rparr>) # test_toggles E @ [toggle_el E ''btn_back'',
         whens (\<lambda>_. butia \<noteq> None) (setTimeout 100 ClickRun), setTimeout 800 (Rearm ''btn_robotest'')])"

definition butia_selected :: "env \<Rightarrow> app \<Rightarrow> block option" where
  "butia_selected E s = (case selected_block s of None \<Rightarrow> None | Some b \<Rightarrow> if b_type b \<in> set (e_butia E) then Some b else None)"

lemma robotest_phases:
  "robotest E s = (let s0 = s\<lparr>a_armed := (a_armed s)(''btn_robotest'' := False)\<rparr>; butia = butia_selected E s0
     in seqs [test_start E butia, test_end E butia] s0)"
proof -
  define s0 where "s0 = s\<lparr>a_armed := (a_armed s)(''btn_robotest'' := False)\<rparr>"
  define butia where "butia = butia_selected E s0"
  have "robotest E s = seqs ([(case butia of Some b \<Rightarrow> test_selected E b | None \<Rightarrow> attempt (bxReady E)),
         whens (\<lambda>_. e_tablet E) (hide_el E ''behaviours_popup''), enterTestMode (butia = None)] @
       upd (\<lambda>s. s\<lparr>a_testMode := True\<rparr>) # test_toggles E @ [toggle_el E ''btn_back'',
         whens (\<lambda>_. butia \<noteq> None) (setTimeout 100 ClickRun), setTimeout 800 (Rearm ''btn_robotest'')]) s0"
    unfolding robotest_def test_toggles_def
    by (simp only: seqs_reads seqs_nested) (simp only: seqs.simps(2) disarm_def upd_def prod.case option.case snd_conv s0_def [symmetric]
      butia_selected_def [symmetric] butia_def [symmetric] append.simps append_assoc)
  also have "\<dots> = seqs [test_start E butia, test_end E butia] s0"
    unfolding test_start_def test_end_def seqs_append by (auto split: prod.split option.split)
  finally show ?thesis by (simp add: Let_def s0_def butia_def)
qed

lemma robotest_shows:
  assumes d: "displays s f" and act: "a_active s = None" and run: "robotest E s = (None, t)"
  shows "a_testMode t \<and> a_active t = None \<and> displays t (flip E (test_buttons E) f)"
proof -
  define s0 where "s0 = s\<lparr>a_armed := (a_armed s)(''btn_robotest'' := False)\<rparr>"
  define butia where "butia = butia_selected E s0"
  have m0: "mode_of s0 = mode_of s" by (simp add: s0_def mode_of_def)
  have "seqs [test_start E butia, test_end E butia] s0 = (None, t)"
    using run by (simp only: robotest_phases Let_def s0_def butia_def)
  then obtain s1 where s1: "test_start E butia s0 = (None, s1)" and "test_end E butia s1 = (None, t)"
    by (auto split: prod.splits option.splits)
  then have rest: "seqs (upd (\<lambda>s. s\<lparr>a_testMode := True\<rparr>) # test_toggles E @ [toggle_el E ''btn_back'',
         whens (\<lambda>_. butia \<noteq> None) (setTimeout 100 ClickRun), setTimeout 800 (Rearm ''btn_robotest'')]) s1 = (None, t)"
    by (simp only: test_end_def)
  have m1: "mode_of s1 = mode_of s" using framesD [OF modeless_start s1] m0 by simp
  let ?s2 = "s1\<lparr>a_testMode := True\<rparr>"
  have "displays s1 f" using displays_cong [OF m1] d by simp
  then have "displays ?s2 f" by (simp add: displays_def)
  then obtain s3 where s3: "seqs (test_toggles E) ?s2 = (None, s3)" "a_testMode s3 = a_testMode ?s2" "a_active s3 = a_active ?s2"
      "displays s3 (flip E (if e_tablet E then butlast (test_buttons E) else [''btn_more'']) f)"
    using test_toggles_shows by blast
  define s4 where "s4 = toggled E [''btn_back''] s3"
  have d4: "displays s4 (flip E [''btn_back''] (flip E (if e_tablet E then butlast (test_buttons E) else [''btn_more'']) f))"
    unfolding s4_def by (rule displays_toggled [OF _ s3(4)]) simp
  have "seqs [whens (\<lambda>_. butia \<noteq> None) (setTimeout 100 ClickRun), setTimeout 800 (Rearm ''btn_robotest'')] s4 = (None, t)"
    using rest by (simp add: upd_def seqs_append s3(1) toggle_one s4_def)
  then have t: "a_shown t = a_shown s4" "a_testMode t = a_testMode s4" "a_active t = a_active s4"
    by (auto simp: whens_def setTimeout_def upd_def split: if_splits)
  have same: "flip E [''btn_back''] (flip E (if e_tablet E then butlast (test_buttons E) else [''btn_more'']) f) = flip E (test_buttons E) f"
    by (auto simp: flip_def test_buttons_def fun_eq_iff)
  have "displays t (flip E (test_buttons E) f)" using d4 same t(1) by (simp add: displays_def)
  then show ?thesis using t(2,3) s3(2,3) mode_of_setting [OF m1] act by (simp add: s4_def toggled_same)
qed


subsection \<open>There and back\<close>

lemma back_again:
  assumes "\<not> f ''btn_stop''" and "f ''btn_trash''"
  shows "i \<in> set mode_buttons \<Longrightarrow> after_back E False (flip E (run_buttons E) f) i = f i"
    and "i \<in> set mode_buttons \<Longrightarrow> after_back E True (flip E (test_buttons E) f) i = f i"
  using assms by (auto simp: after_back_def flip_def run_buttons_def test_buttons_def page_buttons_def present_def)



end
