(* ===== verification/DebugProps.thy ===== *)
theory DebugProps
  imports BehaviourProps
begin

text \<open>
  Following the execution. The robot reports the numbers that the blocks had when their code was
  generated; the page shows the blocks with new numbers. Both are consecutive in the order of the
  descendants, and so the difference of the first two is the difference of all.
\<close>

subsection \<open>Finding a block by its number\<close>

lemma find_unique:
  "distinct (map b_id l) \<Longrightarrow> y \<in> set l \<Longrightarrow> find (\<lambda>b. b_id b = b_id y) l = Some y"
  by (induction l) auto

lemma find_descendant:
  assumes "distinct (map b_id (getDescendants b))" and "d \<in> set (getDescendants b)" and "a_ws s = [(b, xy)]"
  shows "getBlockById s (Some (int (b_id d))) = Some d"
proof -
  have m: "mset (all_blocks s) = mset (getDescendants b)" using assms(3) by (simp add: all_blocks_def mset_getAllBlocks del: getAllBlocks.simps)
  then have "mset (map b_id (all_blocks s)) = mset (map b_id (getDescendants b))" by simp
  then have "distinct (map b_id (all_blocks s))" using assms(1) mset_eq_imp_distinct_iff by blast
  moreover have "d \<in> set (all_blocks s)" using m assms(2) by (metis set_mset_mset)
  ultimately show ?thesis by (simp add: getBlockById_def find_unique)
qed

subsection \<open>The same block with other numbers\<close>

lemma flags_kinds:
  "map (\<lambda>b. (b_id b, b_type b)) (getDescendants (map_block (\<lambda>b. set_flags (g b) b) b)) = map (\<lambda>b. (b_id b, b_type b)) (getDescendants b)"
  "map (\<lambda>b. (b_id b, b_type b)) (input_descendants (map_input (\<lambda>b. set_flags (g b) b) i)) = map (\<lambda>b. (b_id b, b_type b)) (input_descendants i)"
proof (induction b and i)
  case (Block i ty ti mu ins nx fl cm)
  have "map (\<lambda>b. (b_id b, b_type b)) (concat (map input_descendants (map (map_input (\<lambda>b. set_flags (g b) b)) ins))) =
      map (\<lambda>b. (b_id b, b_type b)) (concat (map input_descendants ins))"
    using Block.IH(1) by (induction ins) simp_all
  then show ?case using Block.IH(2) by (simp add: set_flags_def)
qed simp_all

lemma renumber_types:
  "map b_type (getDescendants (fst (renumber k b))) = map b_type (getDescendants b)"
  "map b_type (concat (map input_descendants (fst (renumber_ins k ins)))) = map b_type (concat (map input_descendants ins))"
  by (induction k b and k ins rule: renumber_renumber_ins.induct) (auto split: prod.split)

lemma ready_ids: "map b_id (getDescendants (map_block (ready_block s) b)) = map b_id (getDescendants b)"
    and ready_types: "map b_type (getDescendants (map_block (ready_block s) b)) = map b_type (getDescendants b)"
proof -
  define g :: "block \<Rightarrow> flags \<Rightarrow> flags" where "g = (\<lambda>b fl. (if a_debug s then fl\<lparr>editable := False, movable := False\<rparr>
      else fl\<lparr>editable := True, movable := (if b_type b = ''controls_behaviourTrigger'' then movable fl else True)\<rparr>)
     \<lparr>disabled := b_type b \<in> set (a_missing s) \<or> b_type b \<in> set (a_unavailable s)\<rparr>)"
  have k: "map (\<lambda>b. (b_id b, b_type b)) (getDescendants (map_block (ready_block s) b)) = map (\<lambda>b. (b_id b, b_type b)) (getDescendants b)"
    using flags_kinds(1) [of g b] by (simp add: g_def ready_block_def [abs_def])
  show "map b_id (getDescendants (map_block (ready_block s) b)) = map b_id (getDescendants b)"
    using arg_cong [OF k, of "map fst"] by (simp add: o_def)
  show "map b_type (getDescendants (map_block (ready_block s) b)) = map b_type (getDescendants b)"
    using arg_cong [OF k, of "map snd"] by (simp add: o_def)
qed

lemma renumbered_nth:
  assumes "j < length (getDescendants (fst (renumber k b)))"
  shows "b_id (getDescendants (fst (renumber k b)) ! j) = Suc k + j"
proof -
  have "map b_id (getDescendants (fst (renumber k b))) ! j = [Suc k ..< Suc (snd (renumber k b))] ! j"
    using renumber_ids(1) [of k b] by simp
  moreover have "length [Suc k ..< Suc (snd (renumber k b))] = length (getDescendants (fst (renumber k b)))"
    using renumber_ids(1) [of k b] by (metis length_map)
  ultimately show ?thesis using assms by (simp del: upt_Suc)
qed

lemma same_length: "length (getDescendants (fst (renumber k b))) = length (getDescendants b)"
  using renumber_types(1) [of k b] by (metis length_map)

subsection \<open>The report of a place\<close>

definition place_of :: "string \<Rightarrow> block \<Rightarrow> nat \<Rightarrow> string" where
  "place_of name b j = name @ '':'' @ nat_str (b_id b) @ '':'' @ nat_str (b_id (getDescendants b ! j))"

lemma nat_str_plain: "CHR '':'' \<notin> set (nat_str n)"
  using digits_nat_str [of "CHR '':''" n] by (auto simp: digit_val_def)

lemma split_place:
  assumes "CHR '':'' \<notin> set name"
  shows "js_split '':'' (place_of name b j) = [name, nat_str (b_id b), nat_str (b_id (getDescendants b ! j))]"
  using assms nat_str_plain by (simp add: place_of_def js_split_append js_split_clean)


text \<open>The second half of \<open>show_place\<close>, with the behaviour in the workspace.\<close>

definition aim :: "string list \<Rightarrow> act" where
  "aim fs = reads a_ws (\<lambda>ws. case ws of [] \<Rightarrow> raise type_error | (b, xy) # _ \<Rightarrow>
       (let blockId = (case (number_part fs 1, number_part fs 2) of
            (Some first, Some n) \<Rightarrow> Some (n + (int (b_id b) - first)) | _ \<Rightarrow> None) in seqs [
         upd (\<lambda>s. s\<lparr>a_debugLast := blockId\<rparr>),
         setTimeout 300 (SelectBlock (case blockId of None \<Rightarrow> -1 | Some n \<Rightarrow> n))]))"

lemma show_place_aims: "show_place E place = seqs [
     reads (\<lambda>s. find (\<lambda>x. bx_name x = hd (js_split '':'' place)) (a_behaviours s)) (\<lambda>r. case r of
       None \<Rightarrow> skip | Some x \<Rightarrow> bxToWorkspace E (bx_id x)), aim (js_split '':'' place)]"
  unfolding show_place_def aim_def Let_def ..

lemma aim_selects:
  assumes ws: "a_ws s = [(b2, xy)]" and name: "CHR '':'' \<notin> set name"
    and b2: "b2 = map_block (ready_block s0) (fst (renumber k2 b))" and b1: "b1 = fst (renumber k1 b)" and nb: "b \<noteq> NoBlock"
    and j: "j < length (getDescendants b)"
  shows "\<exists>t v n. aim (js_split '':'' (place_of name b1 j)) s = (None, t) \<and> a_ws t = [(b2, xy)] \<and>
    last (a_timers t) = (300, SelectBlock n) \<and> fire_SelectBlock n t = (None, v) \<and>
    a_selected v = Some (b_id (getDescendants b2 ! j))"
proof -
  have len: "length (getDescendants b2) = length (getDescendants b)" "length (getDescendants b1) = length (getDescendants b)"
    unfolding b2 b1 using ready_types [of s0 "fst (renumber k2 b)"] same_length by (metis length_map)+
  have id2: "b_id (getDescendants b2 ! i) = Suc k2 + i" if "i < length (getDescendants b)" for i
  proof -
    have "map b_id (getDescendants b2) ! i = map b_id (getDescendants (fst (renumber k2 b))) ! i" unfolding b2 ready_ids ..
    then show ?thesis using that len(1) renumbered_nth [of i k2 b] same_length [of k2 b] by simp
  qed
  have id1: "b_id (getDescendants b1 ! i) = Suc k1 + i" if "i < length (getDescendants b)" for i
    unfolding b1 using renumbered_nth [of i k1 b] same_length [of k1 b] that by simp
  have first: "b_id x = b_id (getDescendants x ! 0)" if "x \<noteq> NoBlock" for x using that by (cases x) simp_all
  have nz: "0 < length (getDescendants b)" using nb by (cases b) simp_all
  have n12: "b1 \<noteq> NoBlock" "b2 \<noteq> NoBlock" using len nz by auto
  have firsts: "b_id b1 = Suc k1" "b_id b2 = Suc k2" using first [OF n12(1)] first [OF n12(2)] id1 [OF nz] id2 [OF nz] by simp_all
  define m where "m = int (b_id (getDescendants b1 ! j)) + (int (b_id b2) - int (b_id b1))"
  have m: "m = int (b_id (getDescendants b2 ! j))" using id1 [OF j] id2 [OF j] firsts by (simp add: m_def)
  define t where "t = s\<lparr>a_debugLast := Some m, a_timers := a_timers s @ [(300, SelectBlock m)]\<rparr>"
  have run: "aim (js_split '':'' (place_of name b1 j)) s = (None, t)"
    using ws by (simp add: aim_def split_place [OF name] number_part_def Remote.part_def reads_def upd_def setTimeout_def t_def m_def Let_def)
  have ws_t: "a_ws t = [(b2, xy)]" using ws by (simp add: t_def)
  have "map b_id (getDescendants b2) = [Suc k2 ..< Suc (snd (renumber k2 b))]" unfolding b2 ready_ids using renumber_ids(1) [of k2 b] by simp
  then have "distinct (map b_id (getDescendants b2))" by simp
  moreover have "getDescendants b2 ! j \<in> set (getDescendants b2)" using j len(1) by simp
  ultimately have "getBlockById t (Some m) = Some (getDescendants b2 ! j)" unfolding m using ws_t by (rule find_descendant)
  then have "fire_SelectBlock m t = (None, t\<lparr>a_selected := Some (b_id (getDescendants b2 ! j))\<rparr>)"
    by (simp add: fire_SelectBlock_def reads_def upd_def)
  moreover have "last (a_timers t) = (300, SelectBlock m)" by (simp add: t_def)
  ultimately show ?thesis using run ws_t
    by (intro exI [of _ t] exI [of _ "t\<lparr>a_selected := Some (b_id (getDescendants b2 ! j))\<rparr>"] exI [of _ m]) simp
qed

text \<open>Pressing an entry when the workspace is empty or holds a behaviour.\<close>

definition presentable :: "env \<Rightarrow> app \<Rightarrow> bool" where
  "presentable E s \<longleftrightarrow> (case a_ws s of [] \<Rightarrow> True | [(c, xy)] \<Rightarrow> is_behaviour c \<and> first_name E s \<noteq> None | _ \<Rightarrow> False)"

lemma press_presentable:
  assumes reach: "reachable E s" and p: "presentable E s" and i: "i < length (a_behaviours s)"
    and written: "bx_text (a_behaviours s ! i) = domToText (workspaceToDom (e_view E) [(b, xy)])" and ok: "top_ok (loader_of E s) (b, xy)"
  shows "\<exists>u. bxToWorkspace E (bx_id (a_behaviours s ! i)) s = (None, u) \<and>
    a_ws u = [(map_block (ready_block s) (fst (renumber (a_uid s) b)), xy)]"
proof -
  let ?f = "freed (bx_id (a_behaviours s ! i)) i s"
  have "\<exists>t new. whens (\<lambda>s. block_count s > 0) (bxReady E) ?f = (None, t) \<and> same_setting s t \<and> a_ws t = [] \<and>
      a_behaviours t = splice1 i (a_behaviours s) @ new \<and> (\<forall>y \<in> set new. bx_id y \<in> set (all_ids (map fst (a_ws s))))"
  proof (cases "a_ws s")
    case Nil
    then have "block_count s = 0" by (simp add: block_count_def all_blocks_def)
    then have "whens (\<lambda>s. block_count s > 0) (bxReady E) ?f = (None, ?f)" by (simp add: whens_def)
    then show ?thesis using Nil by (intro exI [of _ ?f] exI [of _ "[]"]) simp
  next
    case (Cons a l)
    obtain c xy' where a: "a = (c, xy')" by (cases a)
    then obtain m where c: "a_ws s = [(c, xy')]" "is_behaviour c" "first_name E s = Some m"
      using p Cons by (auto simp: presentable_def split: list.splits)
    obtain t where t: "bxReady E ?f = (None, t)" "same_setting ?f t" "a_ws t = []" "a_behaviours t = a_behaviours ?f @ [entry_of E ?f c m]"
      using bxReady_single [of ?f c xy' E m] c by auto
    have "c \<noteq> NoBlock" using c(2) by (simp add: is_behaviour_def)
    then have "block_count s > 0" "b_id c \<in> set (ids c)" using c(1) by (cases c; simp add: block_count_def all_blocks_def)+
    then have "whens (\<lambda>s. block_count s > 0) (bxReady E) ?f = (None, t)" using t(1) by (simp add: whens_def)
    moreover have "same_setting s t" by (rule same_setting_trans [OF _ t(2)]) simp
    ultimately show ?thesis
      using t(3,4) c(1) \<open>b_id c \<in> set (ids c)\<close> by (intro exI [of _ t] exI [of _ "[entry_of E ?f c m]"]) (simp add: entry_of_def)
  qed
  then obtain t new where t: "whens (\<lambda>s. block_count s > 0) (bxReady E) ?f = (None, t)" "same_setting s t" "a_ws t = []"
      "a_behaviours t = splice1 i (a_behaviours s) @ new" "\<forall>y \<in> set new. bx_id y \<in> set (all_ids (map fst (a_ws s)))"
    by blast
  obtain u where u: "bxToWorkspace E (bx_id (a_behaviours s ! i)) s = (None, u)"
      "a_ws u = brought_back s (fst (renumber_tops (a_uid s) (surface_order (e_view E) [(b, xy)])))"
    using press_brings [OF reachable_unique [OF reach] i written _ t] ok by auto
  then show ?thesis by (intro exI [of _ u]) (simp add: brought_back_def surface_order_def split: prod.split)
qed

lemma find_first: "i < length l \<Longrightarrow> P (l ! i) \<Longrightarrow> \<forall>j < i. \<not> P (l ! j) \<Longrightarrow> find P l = Some (l ! i)"
proof (induction l arbitrary: i)
  case (Cons a l)
  show ?case
  proof (cases i)
    case 0
    then show ?thesis using Cons.prems by simp
  next
    case (Suc m)
    have "find P l = Some (l ! m)"
    proof (rule Cons.IH)
      show "\<forall>j < m. \<not> P (l ! j)"
      proof (intro allI impI)
        fix j
        assume "j < m"
        then show "\<not> P (l ! j)" using Cons.prems(3) [rule_format, of "Suc j"] Suc by simp
      qed
    qed (use Cons.prems Suc in auto)
    moreover have "\<not> P a" using Cons.prems(3) [rule_format, of 0] Suc by simp
    ultimately show ?thesis using Suc by simp
  qed
qed simp

text \<open>C5. Debugging points at the right block: when the robot reports that it is at a block of a listed
  behaviour - by the name of the behaviour and the numbers its first block and that block had when
  the code was generated - the page brings the behaviour into the workspace and, when the timer
  fires, selects the block that is at the same place among the behaviour's blocks, which is of the
  same type, though all its numbers are new. The name must not contain a colon.
\<close>

theorem debug_selects_same_block:
  assumes "reachable E s" and "presentable E s" and "i < length (a_behaviours s)"
    and "\<forall>j < i. bx_name (a_behaviours s ! j) \<noteq> bx_name (a_behaviours s ! i)" and "CHR '':'' \<notin> set (bx_name (a_behaviours s ! i))"
    and "bx_text (a_behaviours s ! i) = domToText (workspaceToDom (e_view E) [(b, xy)])" and "top_ok (loader_of E s) (b, xy)"
    and b1: "b1 = fst (renumber k b)" and j: "j < length (getDescendants b1)"
  shows "\<exists>t v n b2. show_place E (place_of (bx_name (a_behaviours s ! i)) b1 j) s = (None, t) \<and> a_ws t = [(b2, xy)] \<and>
    last (a_timers t) = (300, SelectBlock n) \<and> fire_SelectBlock n t = (None, v) \<and>
    a_selected v = Some (b_id (getDescendants b2 ! j)) \<and> b_type (getDescendants b2 ! j) = b_type (getDescendants b1 ! j)"
proof -
  let ?x = "a_behaviours s ! i"
  obtain u where u: "bxToWorkspace E (bx_id ?x) s = (None, u)" "a_ws u = [(map_block (ready_block s) (fst (renumber (a_uid s) b)), xy)]"
    using press_presentable [OF assms(1-3,6,7)] by blast
  have found: "find (\<lambda>x. bx_name x = bx_name ?x) (a_behaviours s) = Some ?x" by (rule find_first) (use assms(3,4) in auto)
  define b2 where "b2 = map_block (ready_block s) (fst (renumber (a_uid s) b))"
  have nb: "b \<noteq> NoBlock" using assms(7) by (auto simp: top_ok_def)
  have jb: "j < length (getDescendants b)" using j same_length by (simp add: b1)
  obtain t v n where t: "aim (js_split '':'' (place_of (bx_name ?x) b1 j)) u = (None, t)" "a_ws t = [(b2, xy)]"
      "last (a_timers t) = (300, SelectBlock n)" "fire_SelectBlock n t = (None, v)" "a_selected v = Some (b_id (getDescendants b2 ! j))"
    using aim_selects [OF u(2) [folded b2_def] assms(5) b2_def b1 nb jb] by blast
  have run: "show_place E (place_of (bx_name ?x) b1 j) s = (None, t)"
    unfolding show_place_aims using t(1) by (simp add: split_place [OF assms(5)] reads_def found u(1))
  have "map b_type (getDescendants b2) = map b_type (getDescendants b1)" unfolding b2_def b1 ready_types renumber_types(1) ..
  then have "map b_type (getDescendants b2) ! j = map b_type (getDescendants b1) ! j" "length (getDescendants b2) = length (getDescendants b1)"
    by (simp, metis length_map)
  then have "b_type (getDescendants b2 ! j) = b_type (getDescendants b1 ! j)" using j by simp
  then show ?thesis using run t(2-5)
    by (intro exI [of _ t] exI [of _ v] exI [of _ n] exI [of _ b2] conjI)
qed


theorem debug_selects_same_block_witness:
  "\<exists>s t v. reachable demo_E s \<and> show_place demo_E ''a<b:41:42'' s = (None, t) \<and> (\<exists>n. fire_SelectBlock n t = (None, v)) \<and>
    (\<exists>i b. a_selected v = Some i \<and> fst (hd (a_ws t)) = b \<and> b_id (getDescendants b ! 1) = i \<and> b_type (getDescendants b ! 1) = ''controls_if'')"
proof -
  obtain s where reach: "reachable demo_E s" and same: "same_setting demo_edited s" and s: "a_ws s = []"
      "a_behaviours s = [entry_of demo_E demo_edited demo_behaviour ''a<b'']"
    using demo_listed by blast
  let ?b1 = "fst (renumber 40 demo_behaviour)"
  have nth: "b_id (getDescendants ?b1 ! 1) = 42" "b_type (getDescendants ?b1 ! 1) = ''controls_if''" "1 < length (getDescendants ?b1)"
    by code_simp+
  have b1: "b_id ?b1 = 41" by code_simp
  have x: "bx_name (a_behaviours s ! 0) = ''a<b''" "bx_text (a_behaviours s ! 0) = domToText (workspaceToDom (e_view demo_E) [(demo_behaviour, 20, 30)])"
    by (simp_all add: s(2) entry_of_def ws_text_def)
  have place: "place_of ''a<b'' ?b1 1 = ''a<b:41:42''" unfolding place_of_def b1 nth(1) by code_simp
  have ok: "top_ok (loader_of demo_E s) (demo_behaviour, 20, 30)" using same by (intro demo_loads) (simp add: same_setting_def)
  have pres: "presentable demo_E s" by (simp add: presentable_def s(1))
  obtain t v n b2 where t: "show_place demo_E (place_of (bx_name (a_behaviours s ! 0)) ?b1 1) s = (None, t)" "a_ws t = [(b2, 20, 30)]"
      "fire_SelectBlock n t = (None, v)" "a_selected v = Some (b_id (getDescendants b2 ! 1))"
      "b_type (getDescendants b2 ! 1) = b_type (getDescendants ?b1 ! 1)"
    using debug_selects_same_block [OF reach pres _ _ _ x(2) ok refl nth(3)] s(2) x(1) by auto
  then show ?thesis
    using reach place x(1) nth(2) by (intro exI [of _ s] exI [of _ t] exI [of _ v]) auto
qed

end
