(* ===== verification/TextProps.thy ===== *)
theory TextProps
  imports Remote
begin

text \<open>
  The texts. A key without a message reads as \<open>undefined\<close> and is shown as that, so every key the
  page uses has to be in the table of either language.
\<close>

text \<open>The keys of dialogs, tour, messages, files and of the comments in the generated code.\<close>

definition page_keys :: "string list" where
  "page_keys =
     map (\<lambda>(i, k, r). k) dialog_texts @
     concat (map (\<lambda>(i, w, pl, title_key, content_key). [title_key, content_key]) (tour_tablet @ tour_mobile)) @
     [''TOUR_NEXT'', ''TOUR_PREV'', ''TOUR_QUIT'',
      ''CANNOT_PARSE_BLOCKS'', ''DIALOG_NONBXS_BLOCKS_WARN'', ''DIALOG_BUTIA_CHANGED'', ''DIALOG_LOADING'', ''DIALOG_NO_BEHAVIOURS'',
      ''DIALOG_NO_PROJS'', ''DIALOG_PROJECT'', ''DIALOG_BEHAVIOURS'', ''DIALOG_REMOTE_LOADER'', ''POPUP_RESULTS_CONSOLE'',
      ''POPUP_RESULTS_ROBOTINFO'', ''FILE_BLOCKS'', ''FILE_CODE'',
      ''CODE_INITIALIZEVARS'', ''CODE_COMPETE'', ''CODE_RUN'', ''CODE_DONE'', ''CODE_INIT'', ''CODE_RELEASE'', ''CODE_WHILE'']"

lemma keys_same: "message_keys Spanish = message_keys English"
  by code_simp

lemma keys_distinct: "distinct (message_keys English)"
  by code_simp

lemma keys_used: "list_all (\<lambda>k. k \<in> set (message_keys English)) page_keys"
  by code_simp



end
