(* ===== verification/VarScope.thy ===== *)
theory VarScope
  imports BehaviourProps "HOL-Library.Char_ord" "HOL-Library.List_Lexorder"
begin

text \<open>
  The menu of a variable field (\<open>Blockly.FieldVariable.dropdownCreate\<close> as \<open>js/yatay.js\<close> replaces
  it): a variable block offers the variables set above it, a sensor block the sensors set in the
  ready behaviours and in the workspace. Names are compared as JavaScript compares texts, by the
  codes of their characters.
\<close>

subsection \<open>The blocks above a block\<close>

text \<open>
  The chain of \<open>parentBlock_\<close>, nearest first: the block a block is plugged into or follows, and
  so on up to a top block; \<^const>\<open>None\<close> if the block is not below.
\<close>

fun parents :: "nat \<Rightarrow> block \<Rightarrow> block list option" and parents_in :: "nat \<Rightarrow> input list \<Rightarrow> block list option" where
  "parents i NoBlock = None"
| "parents i (Block j ty ti mu ins nx fl cm) =
     (if i = j then Some []
      else map_option (\<lambda>ps. ps @ [Block j ty ti mu ins nx fl cm])
        (case parents_in i ins of Some ps \<Rightarrow> Some ps | None \<Rightarrow> parents i nx))"
| "parents_in i [] = None"
| "parents_in i (Input n k t # ins) = (case parents i t of Some ps \<Rightarrow> Some ps | None \<Rightarrow> parents_in i ins)"

fun parents_of :: "nat \<Rightarrow> block list \<Rightarrow> block list" where
  "parents_of i [] = []"
| "parents_of i (b # bs) = (case parents i b of Some ps \<Rightarrow> ps | None \<Rightarrow> parents_of i bs)"

text \<open>\<open>inputList[0].titleRow[1].getValue()\<close>, the field after the label.\<close>

definition second_field :: "loader \<Rightarrow> block \<Rightarrow> (string option \<times> string) option" where
  "second_field L b = (case l_proto L (b_type b) of Inl _ \<Rightarrow> None
     | Inr p \<Rightarrow> (case p_inputs p of i # _ \<Rightarrow> (case pi_row i of _ # r # _ \<Rightarrow> Some r | _ \<Rightarrow> None) | [] \<Rightarrow> None))"

definition second_value :: "loader \<Rightarrow> block \<Rightarrow> string option" where
  "second_value L b = (case second_field L b of None \<Rightarrow> None
     | Some (None, t) \<Rightarrow> Some t | Some (Some n, t) \<Rightarrow> getTitleValue b n)"

text \<open>The loop over the blocks above.\<close>

fun walk_up :: "loader \<Rightarrow> string \<Rightarrow> block list \<Rightarrow> string list \<Rightarrow> exn + string list" where
  "walk_up L setType [] vs = Inr vs"
| "walk_up L setType (b # bs) vs =
     (if b_type b = setType
      then (case second_value L b of None \<Rightarrow> Inl type_error
        | Some v \<Rightarrow> walk_up L setType bs (if v \<in> set vs then vs else vs @ [v]))
      else walk_up L setType bs vs)"

subsection \<open>The sensors in a text\<close>

text \<open>
  The matches of the regular expression with the flag \<open>g\<close>: at each position the fixed part, then
  \<open>(.)*?\<close> up to the next end of a title, which no line break may precede.
\<close>

definition sensor_head :: string where
  "sensor_head = ''variables_sensor_set'' @ [CHR 34] @ '' inline='' @ [CHR 34] @ ''true'' @ [CHR 34] @ ''><title name='' @
     [CHR 34] @ ''VAR'' @ [CHR 34] @ ''>''"

definition title_end :: string where
  "title_end = ''</title>''"

definition match_here :: "string \<Rightarrow> (string \<times> string) option" where
  "match_here s =
     (if is_prefix sensor_head s then
        (case break_at title_end (drop (length sensor_head) s) of
           None \<Rightarrow> None
         | Some (m, r) \<Rightarrow> if CHR 0x0A \<in> set m \<or> CHR 0x0D \<in> set m then None else Some (sensor_head @ m @ title_end, r))
      else None)"

lemma match_here_shorter: "match_here s = Some (m, r) \<Longrightarrow> length r < length s"
proof -
  assume "match_here s = Some (m, r)"
  then obtain t m' where "s = sensor_head @ t" and "break_at title_end t = Some (m', r)"
    by (auto simp: match_here_def is_prefix_iff split: if_splits option.splits)
  then show ?thesis using break_at_Some [of title_end t m' r] by (simp add: sensor_head_def)
qed

function sensor_matches :: "string \<Rightarrow> string list" where
  "sensor_matches [] = []"
| "sensor_matches (c # s) = (case match_here (c # s) of None \<Rightarrow> sensor_matches s | Some (m, r) \<Rightarrow> m # sensor_matches r)"
  by pat_completeness auto
termination
  by (relation "measure length") (auto dest: match_here_shorter)

definition sensor_names :: "string \<Rightarrow> string list" where
  "sensor_names t = map (\<lambda>m. js_replace1 title_end [] (js_replace1 sensor_head [] m)) (sensor_matches t)"

subsection \<open>The names offered\<close>

text \<open>
  \<open>Yatay.getVariableOrSensorSurroundList\<close>. The loop over the behaviours reads the first one in
  every turn.
\<close>

definition getVariableOrSensorSurroundList :: "env \<Rightarrow> app \<Rightarrow> block \<Rightarrow> exn + string list" where
  "getVariableOrSensorSurroundList E s b =
     (let setType = js_replace1 ''_get'' ''_set'' (b_type b) in
      if js_indexOf ''sensor'' (b_type b) \<noteq> None
      then Inr (concat (map (\<lambda>x. sensor_names (bx_text (a_behaviours s ! 0))) [0..<length (a_behaviours s)]) @
             sensor_names (ws_text E s))
      else walk_up (loader_of E s) setType (parents_of (b_id b) (map fst (a_ws s))) [])"

text \<open>\<open>Blockly.Variables.allVariables\<close>: one name for each spelling that differs in case only, the last.\<close>

definition has_vars :: "string \<Rightarrow> bool" where
  "has_vars ty \<longleftrightarrow> ty \<in> {''variables_get'', ''variables_set'', ''variables_sensor_get'', ''variables_sensor_set''}"

fun note_variable :: "string \<Rightarrow> (string \<times> string) list \<Rightarrow> (string \<times> string) list" where
  "note_variable v [] = [(js_toLowerCase v, v)]"
| "note_variable v ((k, w) # h) = (if k = js_toLowerCase v then (k, v) # h else (k, w) # note_variable v h)"

definition allVariables :: "app \<Rightarrow> string list" where
  "allVariables s = map snd (fold (\<lambda>v h. case v of None \<Rightarrow> h | Some n \<Rightarrow> if n = [] then h else note_variable n h)
     (concat (map (\<lambda>b. if has_vars (b_type b) then getVars b else []) (all_blocks s))) [])"

text \<open>
  \<open>Blockly.FieldVariable.dropdownCreate\<close>; \<open>sort\<close> keeps the order of names that are equal but for
  case.
\<close>

definition dropdownCreate :: "env \<Rightarrow> app \<Rightarrow> block option \<Rightarrow> string \<Rightarrow> exn + (string option \<times> string option) list" where
  "dropdownCreate E s source name =
     (case (case source of None \<Rightarrow> Inr (allVariables s) | Some b \<Rightarrow> getVariableOrSensorSurroundList E s b) of
        Inl e \<Rightarrow> Inl e
      | Inr variableList \<Rightarrow>
          let vs = (if name \<noteq> [] \<and> name \<notin> set variableList then variableList @ [name] else variableList);
              all = map Some (sort_key js_toLowerCase vs) @
                [b_msg (e_msgs E) ''RENAME_VARIABLE'', b_msg (e_msgs E) ''NEW_VARIABLE'']
          in Inr (map (\<lambda>v. (v, v)) all))"

subsection \<open>Scope\<close>

text \<open>The numbers of the blocks below a block.\<close>

definition below :: "block \<Rightarrow> nat list" where
  "below b = all_ids (getChildren b)"

lemma below_NoBlock [simp]: "below NoBlock = []"
  by (simp add: below_def)

lemma below_Block [simp]: "below (Block i ty ti mu ins nx fl cm) = all_ids (map i_target ins) @ ids nx"
proof -
  have "all_ids (non_null bs) = all_ids bs" for bs
    by (induction bs) (auto simp: non_null_def)
  then show ?thesis by (simp add: below_def)
qed

declare descendants_input [simp]

lemma below_sub: "a \<in> set (getDescendants b) \<Longrightarrow> set (below a) \<subseteq> set (ids b)"
  and below_sub_in: "a \<in> set (getDescendants (i_target j)) \<Longrightarrow> set (below a) \<subseteq> set (ids (i_target j))"
proof (induction b and j)
  case (Block i ty ti mu ins nx fl cm)
  then show ?case by (auto simp: all_ids_def)
qed auto

lemma parents_None: "parents i b = None \<longleftrightarrow> i \<notin> set (ids b)"
  and parents_in_None: "parents_in i ins = None \<longleftrightarrow> i \<notin> set (all_ids (map i_target ins))"
  by (induction i b and i ins rule: parents_parents_in.induct) (auto split: option.splits)

lemma below_sub_inputs: "a \<in> set (concat (map input_descendants ins)) \<Longrightarrow> set (below a) \<subseteq> set (all_ids (map i_target ins))"
  using below_sub by (fastforce simp: all_ids_def)

lemma parents_set:
  "distinct (ids b) \<Longrightarrow> parents i b = Some ps \<Longrightarrow> set ps = {a \<in> set (getDescendants b). i \<in> set (below a)}"
  and parents_in_set:
  "distinct (all_ids (map i_target ins)) \<Longrightarrow> parents_in i ins = Some ps \<Longrightarrow>
     set ps = {a \<in> set (concat (map input_descendants ins)). i \<in> set (below a)}"
proof (induction i b and i ins arbitrary: ps and ps rule: parents_parents_in.induct)
  case (2 i j ty ti mu ins nx fl cm)
  let ?I = "all_ids (map i_target ins)" and ?R = "set (concat (map input_descendants ins))"
  have up: "set (below a) \<subseteq> set ?I" if "a \<in> ?R" for a using that by (rule below_sub_inputs)
  have down: "set (below a) \<subseteq> set (ids nx)" if "a \<in> set (getDescendants nx)" for a using that by (rule below_sub)
  have d: "distinct ?I" "distinct (ids nx)" "set ?I \<inter> set (ids nx) = {}" "j \<notin> set ?I" "j \<notin> set (ids nx)"
    using "2.prems"(1) by auto
  show ?case
  proof (cases "i = j")
    case True
    with d up down have "i \<notin> set (below a)" if "a \<in> ?R \<union> set (getDescendants nx)" for a using that by blast
    then show ?thesis using True d "2.prems"(2) by auto
  next
    case False
    show ?thesis
    proof (cases "parents_in i ins")
      case None
      then have "i \<notin> set ?I" by (simp add: parents_in_None)
      with up have "i \<notin> set (below a)" if "a \<in> ?R" for a using that by blast
      moreover from None False "2.prems"(2) obtain qs where "parents i nx = Some qs" "ps = qs @ [Block j ty ti mu ins nx fl cm]" by auto
      moreover from this parents_None [of i nx] have "i \<in> set (ids nx)" by auto
      ultimately show ?thesis using "2.IH"(2) [OF False None d(2)] by auto
    next
      case (Some qs)
      with parents_in_None [of i ins] have i: "i \<in> set ?I" by auto
      with d down have "i \<notin> set (below a)" if "a \<in> set (getDescendants nx)" for a using that by blast
      moreover from Some False "2.prems"(2) have "ps = qs @ [Block j ty ti mu ins nx fl cm]" by auto
      ultimately show ?thesis using "2.IH"(1) [OF False d(1) Some] i by auto
    qed
  qed
next
  case (4 i n k t ins)
  have up: "set (below a) \<subseteq> set (all_ids (map i_target ins))" if "a \<in> set (concat (map input_descendants ins))" for a
    using that by (rule below_sub_inputs)
  have down: "set (below a) \<subseteq> set (ids t)" if "a \<in> set (getDescendants t)" for a using that by (rule below_sub)
  have d: "distinct (ids t)" "distinct (all_ids (map i_target ins))" "set (ids t) \<inter> set (all_ids (map i_target ins)) = {}"
    using "4.prems"(1) by auto
  show ?case
  proof (cases "parents i t")
    case None
    with parents_None [of i t] have "i \<notin> set (ids t)" by simp
    with down have "i \<notin> set (below a)" if "a \<in> set (getDescendants t)" for a using that by blast
    then show ?thesis using "4.IH"(2) [OF None d(2)] None "4.prems"(2) by auto
  next
    case (Some qs)
    with parents_None [of i t] have "i \<in> set (ids t)" by auto
    with up d have "i \<notin> set (below a)" if "a \<in> set (concat (map input_descendants ins))" for a using that by blast
    then show ?thesis using "4.IH"(1) [OF d(1) Some] Some "4.prems"(2) by auto
  qed
qed auto

lemma parents_of_set:
  assumes "distinct (all_ids bs)"
  shows "set (parents_of i bs) = {a \<in> set (getAllBlocks bs). i \<in> set (below a)}"
proof -
  have "set (parents_of i bs) = {a \<in> set (concat (map getDescendants bs)). i \<in> set (below a)}"
    using assms
  proof (induction bs)
    case (Cons b bs)
    then have d: "distinct (ids b)" "distinct (all_ids bs)" "set (ids b) \<inter> set (all_ids bs) = {}" by auto
    have up: "set (below a) \<subseteq> set (all_ids bs)" if "a \<in> set (concat (map getDescendants bs))" for a
      using that below_sub by (fastforce simp: all_ids_def)
    show ?case
    proof (cases "parents i b")
      case None
      with parents_None [of i b] have "i \<notin> set (ids b)" by simp
      with below_sub have "i \<notin> set (below a)" if "a \<in> set (getDescendants b)" for a using that by blast
      then show ?thesis using Cons.IH [OF d(2)] None by auto
    next
      case (Some qs)
      with parents_None [of i b] have "i \<in> set (ids b)" by auto
      with up d have "i \<notin> set (below a)" if "a \<in> set (concat (map getDescendants bs))" for a using that by blast
      then show ?thesis using parents_set [OF d(1) Some] Some by auto
    qed
  qed simp
  then show ?thesis by (simp add: mset_getAllBlocks mset_eq_setD [OF mset_getAllBlocks [of bs]])
qed
lemma walk_up_ok:
  "walk_up L ty as vs = Inr ws \<Longrightarrow> distinct vs \<Longrightarrow>
     distinct ws \<and> set ws = set vs \<union> {v. \<exists>a \<in> set as. b_type a = ty \<and> second_value L a = Some v}"
  by (induction L ty as vs rule: walk_up.induct) (auto split: if_splits option.splits)

lemma walk_up_total:
  "\<forall>a \<in> set as. b_type a = ty \<longrightarrow> second_value L a \<noteq> None \<Longrightarrow> \<exists>ws. walk_up L ty as vs = Inr ws"
  by (induction L ty as vs rule: walk_up.induct) (auto split: option.splits)

text \<open>The menu made of a list of names.\<close>

lemma menu_of_names:
  assumes "getVariableOrSensorSurroundList E s b = Inr vs" and "distinct vs"
  shows "\<exists>ws. dropdownCreate E s (Some b) name = Inr (map (\<lambda>v. (v, v)) (map Some ws @
       [b_msg (e_msgs E) ''RENAME_VARIABLE'', b_msg (e_msgs E) ''NEW_VARIABLE''])) \<and>
     distinct ws \<and> sorted (map js_toLowerCase ws) \<and> set ws = set vs \<union> (if name = [] then {} else {name})"
  using assms
  by (intro exI [of _ "sort_key js_toLowerCase (if name \<noteq> [] \<and> name \<notin> set vs then vs @ [name] else vs)"])
    (auto simp: dropdownCreate_def Let_def)

text \<open>C11. The menu of a variable field shows what is in scope. On every page the front end can reach,
  for a block that is no sensor block and holds a variable, the menu offers that variable and exactly the names
  set by the blocks it is inside or comes after, each once, in the order of the alphabet without
  regard to case, and then the two entries to rename a variable and to make one.
\<close>

theorem menu_offers_scope:
  assumes "reachable E s" and "js_indexOf ''sensor'' (b_type b) = None"
    and "\<forall>a \<in> set (all_blocks s). b_type a = js_replace1 ''_get'' ''_set'' (b_type b) \<longrightarrow> second_value (loader_of E s) a \<noteq> None"
  shows "\<exists>vs. dropdownCreate E s (Some b) name = Inr (map (\<lambda>v. (v, v)) (map Some vs @
       [b_msg (e_msgs E) ''RENAME_VARIABLE'', b_msg (e_msgs E) ''NEW_VARIABLE''])) \<and>
     distinct vs \<and> sorted (map js_toLowerCase vs) \<and>
     set vs = {v. \<exists>a \<in> set (all_blocks s). b_id b \<in> set (below a) \<and> b_type a = js_replace1 ''_get'' ''_set'' (b_type b) \<and>
         second_value (loader_of E s) a = Some v} \<union> (if name = [] then {} else {name})"
proof -
  let ?ps = "parents_of (b_id b) (map fst (a_ws s))" and ?ty = "js_replace1 ''_get'' ''_set'' (b_type b)"
  have ps: "set ?ps = {a \<in> set (all_blocks s). b_id b \<in> set (below a)}"
    using parents_of_set [OF reachable_ids [OF assms(1)]] by (simp add: all_blocks_def)
  then have "\<forall>a \<in> set ?ps. b_type a = ?ty \<longrightarrow> second_value (loader_of E s) a \<noteq> None" using assms(3) by blast
  then obtain ws where w: "walk_up (loader_of E s) ?ty ?ps [] = Inr ws" using walk_up_total by blast
  then have "getVariableOrSensorSurroundList E s b = Inr ws"
    using assms(2) by (simp add: getVariableOrSensorSurroundList_def Let_def)
  moreover have "distinct ws \<and> set ws = {v. \<exists>a \<in> set (all_blocks s). b_id b \<in> set (below a) \<and> b_type a = ?ty \<and>
      second_value (loader_of E s) a = Some v}"
    using walk_up_ok [OF w] unfolding ps by auto
  ultimately show ?thesis using menu_of_names [of E s b ws name] by auto
qed

text \<open>A page with two assignments in a row and a block that reads a variable after both.\<close>

definition demo_set :: "nat \<Rightarrow> string \<Rightarrow> block \<Rightarrow> block \<Rightarrow> block" where
  "demo_set i v e nx = Block i ''variables_set'' [(''VAR'', v)] (0, 0) [Input ''VALUE'' ValueInput e] nx new_flags None"

definition demo_get :: block where
  "demo_get = Block 3 ''variables_get'' [(''VAR'', ''x'')] (0, 0) [Input [] DummyInput NoBlock] NoBlock (new_flags\<lparr>plugged := True\<rparr>) None"

definition demo_scope :: app where
  "demo_scope = demo_page\<lparr>a_ws := [(demo_set 5 ''b'' NoBlock (demo_set 2 ''A'' demo_get (demo_set 4 ''c'' NoBlock NoBlock)), 0, 0)],
     a_uid := 5, a_selected := None\<rparr>"

lemma demo_scope_reachable: "reachable demo_E demo_scope"
proof -
  have "edit_ok (a_ws demo_page) (a_uid demo_page) (a_ws demo_scope) 5"
    unfolding edit_ok_def demo_page_def new_page_def demo_scope_def
    by (auto simp: demo_set_def demo_get_def no_null_def ids_within_def intro!: exI [of _ "[5, 2, 3, 4]"])
  then show ?thesis
    unfolding demo_scope_def
    by (intro reachable.stepped [OF _ page_step.edited]) (simp_all add: demo_page_def reachable.opened)
qed

lemma lookup_set: "Blockly_Blocks rtl ''variables_set'' = Some block_variables_set"
  unfolding Blockly_Blocks_def block_scripts_def butia_values_def butia_statements_def rev.simps concat.simps append.simps
  by (rule lookup_hit | (rule lookup_miss, (simp; fail)))+

lemma demo_set_value [simp]: "second_value (loader_of demo_E demo_scope) (demo_set i v e nx) = Some v"
proof -
  have "l_proto (loader_of demo_E demo_scope) ''variables_set'' =
      (case run_init demo_env block_variables_set empty_proto of None \<Rightarrow> Inl ''Assertion failed'' | Some p \<Rightarrow> Inr p)"
    by (simp add: loader_of_def demo_E_def demo_scope_def demo_page_def new_page_def init_proto_def lookup_set demo_env_def)
  moreover have "(case run_init demo_env block_variables_set empty_proto of None \<Rightarrow> None | Some p \<Rightarrow>
      (case p_inputs p of i # _ \<Rightarrow> (case pi_row i of _ # r # _ \<Rightarrow> Some r | _ \<Rightarrow> None) | [] \<Rightarrow> None)) = Some (Some ''VAR'', ''VARIABLES_SET_ITEM'')"
    by code_simp
  ultimately show ?thesis
    by (simp add: second_value_def second_field_def demo_set_def getTitleValue_def split: option.splits)
qed

lemma demo_scope_blocks: "all_blocks demo_scope = [demo_set 5 ''b'' NoBlock (demo_set 2 ''A'' demo_get (demo_set 4 ''c'' NoBlock NoBlock)),
  demo_set 2 ''A'' demo_get (demo_set 4 ''c'' NoBlock NoBlock), demo_get, demo_set 4 ''c'' NoBlock NoBlock]"
  by (simp add: all_blocks_def demo_scope_def demo_set_def demo_get_def non_null_def)

lemma demo_below [simp]:
  "b_id demo_get = 3" "below (demo_set 5 ''b'' NoBlock (demo_set 2 ''A'' demo_get (demo_set 4 ''c'' NoBlock NoBlock))) = [2, 3, 4]"
  "below (demo_set 2 ''A'' demo_get (demo_set 4 ''c'' NoBlock NoBlock)) = [3, 4]" "below demo_get = []"
  "below (demo_set 4 ''c'' NoBlock NoBlock) = []" "b_type (demo_set i v e nx) = ''variables_set''"
  by (simp_all add: demo_set_def demo_get_def)

theorem menu_offers_scope_witness:
  "\<exists>vs. dropdownCreate demo_E demo_scope (Some demo_get) ''x'' =
       Inr (map (\<lambda>v. (v, v)) (map Some vs @ [Some ''RENAME_VARIABLE'', Some ''NEW_VARIABLE''])) \<and>
     distinct vs \<and> sorted (map js_toLowerCase vs) \<and> set vs = {''b'', ''A'', ''x''}"
proof -
  have "js_indexOf ''sensor'' (b_type demo_get) = None" "js_replace1 ''_get'' ''_set'' (b_type demo_get) = ''variables_set''"
    by (simp_all add: demo_get_def, code_simp+)
  moreover from this(2) have "\<forall>a \<in> set (all_blocks demo_scope). b_type a = js_replace1 ''_get'' ''_set'' (b_type demo_get) \<longrightarrow>
      second_value (loader_of demo_E demo_scope) a \<noteq> None"
    by (simp add: demo_scope_blocks) (simp add: demo_get_def)
  moreover have "b_msg (e_msgs demo_E) = Some" by (simp add: demo_E_def demo_env_def)
  moreover have "{v. \<exists>a \<in> set (all_blocks demo_scope). b_id demo_get \<in> set (below a) \<and> b_type a = ''variables_set'' \<and>
      second_value (loader_of demo_E demo_scope) a = Some v} = {''b'', ''A''}"
    by (simp add: demo_scope_blocks) blast
  ultimately show ?thesis
    using menu_offers_scope [OF demo_scope_reachable, of demo_get "''x''"] by (simp add: insert_commute)
qed

subsection \<open>Sensors\<close>

text \<open>
  A sensor block sees the sensors of the first ready behaviour, once for every ready behaviour,
  and those of the workspace; what the other behaviours set is not offered.
\<close>

lemma sensors_of_first_only:
  assumes "js_indexOf ''sensor'' (b_type b) \<noteq> None" and "a_behaviours s = x # xs"
  shows "getVariableOrSensorSurroundList E s b =
     Inr (concat (replicate (Suc (length xs)) (sensor_names (bx_text x))) @ sensor_names (ws_text E s))"
  using assms by (simp add: getVariableOrSensorSurroundList_def Let_def map_replicate_trivial flip: map_replicate_const [of "sensor_names (bx_text x)" "[0..<Suc (length xs)]", simplified])

end
