(* ===== verification/Editing.thy ===== *)
theory Editing
  imports BehaviourProps
begin

text \<open>
  Editing the workspace: taking a block from the palette, duplicating, copying, pasting and
  disposing of blocks (\<open>blockly_compressed.js\<close>) with what \<open>js/yatay.js\<close> puts in their place: the
  filter of the palette, the refusal to duplicate a behaviour, and the end of the tests when a
  block is disposed of in test mode. Moving blocks and changing fields appear as a
  step that keeps the blocks there are; dragging and connecting them is in \<open>Dragging\<close>.
\<close>

subsection \<open>Room for more blocks\<close>

text \<open>\<open>remainingCapacity\<close>: without a limit, a number, or what a text that is no number leaves.\<close>

datatype room = Unbounded | Room int | NotANumber

definition remainingCapacity :: "app \<Rightarrow> room" where
  "remainingCapacity s = (case a_max s of
     MaxInfinity \<Rightarrow> Unbounded
   | MaxNumber n \<Rightarrow> Room (int n - int (block_count s))
   | MaxText t \<Rightarrow> if t = ''Infinity'' then Unbounded else NotANumber)"

text \<open>\<open>n > r\<close> and \<open>n >= r\<close>.\<close>

fun exceeds :: "nat \<Rightarrow> room \<Rightarrow> bool" where
  "exceeds n (Room r) = (int n > r)"
| "exceeds n _ = False"

fun fills :: "nat \<Rightarrow> room \<Rightarrow> bool" where
  "fills n (Room r) = (int n \<ge> r)"
| "fills n _ = False"

lemma over_capacity_room: "over_capacity s = exceeds (length (a_ws s)) (remainingCapacity s)"
  by (simp add: over_capacity_def remainingCapacity_def split: capacity.split)

subsection \<open>New blocks\<close>

definition SNAP_RADIUS :: int where
  "SNAP_RADIUS = 15"

text \<open>\<open>domToBlock_\<close> into the workspace, at its origin, and what is done with the new block.\<close>

definition new_block :: "env \<Rightarrow> xml \<Rightarrow> (nat \<Rightarrow> act) \<Rightarrow> act" where
  "new_block E x k s = (case domToBlock (loader_of E s) (a_uid s) x of
     (Inl (e, bs), m) \<Rightarrow> (Some e, s\<lparr>a_ws := a_ws s @ map (\<lambda>b. (b, 0, 0)) bs, a_uid := m\<rparr>)
   | (Inr b, m) \<Rightarrow> k (b_id b) (s\<lparr>a_ws := a_ws s @ [(b, 0, 0)], a_uid := m\<rparr>))"

definition moveBy :: "nat \<Rightarrow> int \<times> int \<Rightarrow> act" where
  "moveBy i d = upd (\<lambda>s. s\<lparr>a_ws := map (\<lambda>(b, x, y). if b_id b = i then (b, x + fst d, y + snd d) else (b, x, y)) (a_ws s)\<rparr>)"

definition select :: "nat \<Rightarrow> act" where
  "select i = upd (\<lambda>s. s\<lparr>a_selected := Some i\<rparr>)"

text \<open>A block of the palette under the mouse (\<open>createBlockFunc_\<close>).\<close>

definition createBlock :: "env \<Rightarrow> block \<Rightarrow> int \<times> int \<Rightarrow> act" where
  "createBlock E flyoutBlock at =
     whens (\<lambda>s. \<not> filterForCapacity s (b_type flyoutBlock))
       (new_block E (blockToDom (e_view E) flyoutBlock) (\<lambda>i. seqs [moveBy i at, select i]))"

text \<open>\<open>deleteNext\<close> removes the first child that says what follows.\<close>

fun delete_first_next :: "xml list \<Rightarrow> xml list" where
  "delete_first_next [] = []"
| "delete_first_next (Txt t # ks) = Txt t # delete_first_next ks"
| "delete_first_next (Elem n at cs # ks) = (if js_toLowerCase n = ''next'' then ks else Elem n at cs # delete_first_next ks)"

fun deleteNext :: "xml \<Rightarrow> xml" where
  "deleteNext (Txt t) = Txt t"
| "deleteNext (Elem n at ks) = Elem n at (delete_first_next ks)"

text \<open>\<open>duplicate_\<close>, with the guard of \<open>js/yatay.js\<close>, and when its entry of the menu is enabled.\<close>

definition duplicate :: "env \<Rightarrow> block \<Rightarrow> act" where
  "duplicate E b = whens (\<lambda>s. duplicate_allowed s (b_type b))
     (reads (\<lambda>s. position_in E s (b_id b)) (\<lambda>(x, y).
        new_block E (deleteNext (blockToDom (e_view E) b)) (\<lambda>i.
          moveBy i ((if v_rtl (e_view E) then x - SNAP_RADIUS else x + SNAP_RADIUS), y + 2 * SNAP_RADIUS))))"

definition duplicate_enabled :: "app \<Rightarrow> block \<Rightarrow> bool" where
  "duplicate_enabled s b \<longleftrightarrow> deletable (b_flags b) \<and> \<not> exceeds (length (getDescendants b)) (remainingCapacity s)"

subsection \<open>The clipboard\<close>

definition copy_dom :: "env \<Rightarrow> app \<Rightarrow> block \<Rightarrow> xml" where
  "copy_dom E s b = (let (x, y) = position_in E s (b_id b) in
     add_attrs [(''x'', int_str (if v_rtl (e_view E) then - x else x)), (''y'', int_str y)]
       (deleteNext (blockToDom (e_view E) b)))"

text \<open>\<open>getElementsByTagName('block')\<close>: the elements of that name below an element.\<close>

fun block_elems :: "xml \<Rightarrow> nat" where
  "block_elems (Txt t) = 0"
| "block_elems (Elem n at ks) = (if js_toLowerCase n = ''block'' then 1 else 0) + sum_list (map block_elems ks)"

fun elems_below :: "xml \<Rightarrow> nat" where
  "elems_below (Txt t) = 0"
| "elems_below (Elem n at ks) = sum_list (map block_elems ks)"

text \<open>
  Where a copy goes: away from every block it would cover. One pass of the loop over the positions
  of all blocks moves the copy at each of them it meets; the passes end with one that meets none.
\<close>

fun bump_pass :: "bool \<Rightarrow> (int \<times> int) list \<Rightarrow> int \<times> int \<Rightarrow> bool \<times> (int \<times> int)" where
  "bump_pass rtl [] p = (False, p)"
| "bump_pass rtl (g # gs) (c, a) =
     (if \<bar>c - fst g\<bar> \<le> 1 \<and> \<bar>a - snd g\<bar> \<le> 1
      then (True, snd (bump_pass rtl gs (if rtl then c - SNAP_RADIUS else c + SNAP_RADIUS, a + 2 * SNAP_RADIUS)))
      else bump_pass rtl gs (c, a))"

text \<open>Every move goes down, past a block that was at the height of the copy.\<close>

definition blocks_ahead :: "(int \<times> int) list \<Rightarrow> int \<times> int \<Rightarrow> nat" where
  "blocks_ahead gs p = length (filter (\<lambda>g. snd p \<le> snd g + 1) gs)"

lemma bump_down: "snd p \<le> snd (snd (bump_pass rtl gs p))"
proof (induction rtl gs p rule: bump_pass.induct)
  case (2 rtl g gs c a)
  show ?case
  proof (cases "\<bar>c - fst g\<bar> \<le> 1 \<and> \<bar>a - snd g\<bar> \<le> 1")
    case True
    then show ?thesis using "2.IH"(1) [OF True] by (simp add: SNAP_RADIUS_def)
  next
    case False
    then show ?thesis using "2.IH"(2) [OF False] by (simp only: bump_pass.simps if_False)
  qed
qed simp

lemma bump_hit: "bump_pass rtl gs p = (True, q) \<Longrightarrow> \<exists>g \<in> set gs. snd p \<le> snd g + 1 \<and> \<not> snd q \<le> snd g + 1"
proof (induction rtl gs p arbitrary: q rule: bump_pass.induct)
  case (2 rtl g gs c a)
  let ?next = "(if rtl then c - SNAP_RADIUS else c + SNAP_RADIUS, a + 2 * SNAP_RADIUS)"
  show ?case
  proof (cases "\<bar>c - fst g\<bar> \<le> 1 \<and> \<bar>a - snd g\<bar> \<le> 1")
    case True
    then have "q = snd (bump_pass rtl gs ?next)" using "2.prems" by simp
    then have "a + 2 * SNAP_RADIUS \<le> snd q" using bump_down [of ?next rtl gs] by simp
    then show ?thesis using True by (intro bexI [of _ g]) (auto simp: SNAP_RADIUS_def)
  next
    case False
    then have "bump_pass rtl gs (c, a) = (True, q)" using "2.prems" by (simp only: bump_pass.simps if_False)
    then show ?thesis using "2.IH"(2) [OF False] by auto
  qed
qed simp

lemma length_filter_mono: "(\<And>x. Q x \<Longrightarrow> P x) \<Longrightarrow> length (filter Q xs) \<le> length (filter P xs)"
  by (induction xs) (auto simp: le_SucI)

lemma length_filter_strict:
  assumes "\<And>x. Q x \<Longrightarrow> P x" and "g \<in> set xs" and "P g" and "\<not> Q g"
  shows "length (filter Q xs) < length (filter P xs)"
  using assms(2)
proof (induction xs)
  case (Cons x xs)
  show ?case
  proof (cases "x = g")
    case True
    then show ?thesis using assms(3,4) length_filter_mono [of Q P xs] assms(1) by (simp add: less_Suc_eq_le)
  next
    case False
    then show ?thesis using Cons assms(1) [of x] by auto
  qed
qed simp

lemma blocks_ahead_less: "bump_pass rtl gs p = (True, q) \<Longrightarrow> blocks_ahead gs q < blocks_ahead gs p"
proof -
  assume hit: "bump_pass rtl gs p = (True, q)"
  obtain g where g: "g \<in> set gs" "snd p \<le> snd g + 1" "\<not> snd q \<le> snd g + 1" using bump_hit [OF hit] by blast
  have "snd p \<le> snd q" using bump_down [of p rtl gs] hit by simp
  then show ?thesis
    unfolding blocks_ahead_def by (intro length_filter_strict [where g = g and P = "\<lambda>g. snd p \<le> snd g + 1"] g) simp
qed

function free_spot :: "bool \<Rightarrow> (int \<times> int) list \<Rightarrow> int \<times> int \<Rightarrow> int \<times> int" where
  "free_spot rtl gs p = (if fst (bump_pass rtl gs p) then free_spot rtl gs (snd (bump_pass rtl gs p)) else snd (bump_pass rtl gs p))"
  by pat_completeness auto
termination
proof (relation "measure (\<lambda>(rtl, gs, p). blocks_ahead gs p)", goal_cases)
  case (2 rtl gs p)
  then show ?case using blocks_ahead_less [of rtl gs p] by (simp add: prod_eq_iff)
qed simp

declare free_spot.simps [simp del]

definition all_positions :: "env \<Rightarrow> app \<Rightarrow> (int \<times> int) list" where
  "all_positions E s = map (\<lambda>b. position_in E s (b_id b)) (all_blocks s)"

definition paste :: "env \<Rightarrow> xml \<Rightarrow> act" where
  "paste E x = whens (\<lambda>s. \<not> fills (elems_below x) (remainingCapacity s))
     (new_block E x (\<lambda>i. seqs [
        (case (Option.bind (getAttribute x ''x'') js_parseInt, Option.bind (getAttribute x ''y'') js_parseInt) of
           (Some c, Some a) \<Rightarrow> reads (all_positions E) (\<lambda>gs.
             moveBy i (free_spot (v_rtl (e_view E)) gs (if v_rtl (e_view E) then - c else c, a)))
         | _ \<Rightarrow> skip),
        select i]))"

subsection \<open>Disposing of blocks\<close>

text \<open>The block with a number, somewhere below a block, is replaced.\<close>

fun cut :: "(block \<Rightarrow> block) \<Rightarrow> nat \<Rightarrow> block \<Rightarrow> block" and cut_input :: "(block \<Rightarrow> block) \<Rightarrow> nat \<Rightarrow> input \<Rightarrow> input" where
  "cut f i NoBlock = NoBlock"
| "cut f i (Block j ty ti mu ins nx fl cm) =
     Block j ty ti mu (map (cut_input f i) ins) (if nx \<noteq> NoBlock \<and> b_id nx = i then f nx else cut f i nx) fl cm"
| "cut_input f i (Input n k t) = Input n k (if t \<noteq> NoBlock \<and> b_id t = i then f t else cut f i t)"

definition block_with :: "nat \<Rightarrow> app \<Rightarrow> block option" where
  "block_with i s = find (\<lambda>b. b_id b = i) (all_blocks s)"

definition on_surface :: "nat \<Rightarrow> top list \<Rightarrow> bool" where
  "on_surface i ws \<longleftrightarrow> list_ex (\<lambda>t. b_id (fst t) = i) ws"

text \<open>
  \<open>unplug(healStack)\<close>: the block comes to the surface. Where a statement is taken out and the
  stack is healed, the blocks after it take its place, or come to the surface if it was there.
\<close>

definition unplugged :: "bool \<Rightarrow> bool \<Rightarrow> (nat \<Rightarrow> int \<times> int) \<Rightarrow> block \<Rightarrow> top list \<Rightarrow> top list" where
  "unplugged out heal pos b ws =
     (let i = b_id b; tail = b_next b in
      if out then (if on_surface i ws then ws
        else map (\<lambda>(t, xy). (cut (\<lambda>_. NoBlock) i t, xy)) ws @ [(plug_block False b, pos i)])
      else if heal \<and> tail \<noteq> NoBlock then
        (if on_surface i ws then map (\<lambda>(t, xy). (if b_id t = i then set_next NoBlock t else t, xy)) ws @ [(tail, pos (b_id tail))]
         else map (\<lambda>(t, xy). (cut b_next i t, xy)) ws @ [(set_next NoBlock b, pos i)])
      else (if on_surface i ws then ws
        else map (\<lambda>(t, xy). (cut (\<lambda>_. NoBlock) i t, xy)) ws @ [(b, pos i)]))"

definition unplug :: "env \<Rightarrow> bool \<Rightarrow> nat \<Rightarrow> act" where
  "unplug E heal i s = (case block_with i s of None \<Rightarrow> (None, s)
     | Some b \<Rightarrow> (None, s\<lparr>a_ws := unplugged (has_out (loader_of E s) (b_type b)) heal (position_in E s) b (a_ws s)\<rparr>))"

text \<open>
  \<open>dispose(healStack, animate)\<close>: the effect of the animation, as \<open>js/yatay.js\<close> replaces it, kills
  the tests in test mode.
\<close>

definition remove_top :: "nat \<Rightarrow> act" where
  "remove_top i = upd (\<lambda>s. put_ws (filter (\<lambda>t. b_id (fst t) \<noteq> i) (a_ws s)) s)"

definition disposeUiEffect :: "env \<Rightarrow> act" where
  "disposeUiEffect E = whens a_testMode (killTasks E)"

definition dispose :: "env \<Rightarrow> bool \<Rightarrow> bool \<Rightarrow> nat \<Rightarrow> act" where
  "dispose E heal animate i = seqs [unplug E heal i, whens (\<lambda>_. animate) (disposeUiEffect E), remove_top i]"

subsection \<open>Keys\<close>

text \<open>
  \<open>onKeyDown_\<close> outside a text field: the keys to delete, and with a modifier those to copy, cut and
  paste. It returns the clipboard with the page.
\<close>

definition deletable_selected :: "app \<Rightarrow> block option" where
  "deletable_selected s = (case selected_block s of None \<Rightarrow> None | Some b \<Rightarrow> if deletable (b_flags b) then Some b else None)"

definition onKeyDown :: "env \<Rightarrow> nat \<Rightarrow> bool \<Rightarrow> xml option \<times> app \<Rightarrow> exn option \<times> xml option \<times> app" where
  "onKeyDown E key modified st =
     (let (clip, s) = st; sel = deletable_selected s in
      if key = 8 \<or> key = 46 then
        (case sel of None \<Rightarrow> (None, clip, s) | Some b \<Rightarrow> (case dispose E True True (b_id b) s of (e, t) \<Rightarrow> (e, clip, t)))
      else if \<not> modified then (None, clip, s)
      else if key = 67 then (None, (case sel of None \<Rightarrow> clip | Some b \<Rightarrow> Some (copy_dom E s b)), s)
      else if key = 88 then
        (case sel of None \<Rightarrow> (None, clip, s)
         | Some b \<Rightarrow> (case dispose E True True (b_id b) s of (e, t) \<Rightarrow> (e, Some (copy_dom E s b), t)))
      else if key = 86 then
        (case clip of None \<Rightarrow> (None, clip, s) | Some x \<Rightarrow> (case paste E x s of (e, t) \<Rightarrow> (e, clip, t)))
      else (None, clip, s))"

subsection \<open>Editing\<close>

text \<open>
  What the user does: a block from the palette, one of those it shows; the entries of a block's
  menu; the keys; the trash can; and everything that keeps the blocks of the workspace (moving,
  connecting, changing fields). That dragging is such a step is shown in \<open>Dragging\<close>.
\<close>

inductive edits :: "env \<Rightarrow> block set \<Rightarrow> xml option \<times> app \<Rightarrow> xml option \<times> app \<Rightarrow> bool" for E pal where
  taken: "fb \<in> pal \<Longrightarrow> fb \<noteq> NoBlock \<Longrightarrow> createBlock E fb at s = (e, t) \<Longrightarrow> edits E pal (clip, s) (clip, t)"
| duplicated: "b \<in> set (all_blocks s) \<Longrightarrow> duplicate_enabled s b \<Longrightarrow> duplicate E b s = (e, t) \<Longrightarrow> edits E pal (clip, s) (clip, t)"
| typed: "onKeyDown E key modified st = (e, st') \<Longrightarrow> edits E pal st st'"
| deleted: "b \<in> set (all_blocks s) \<Longrightarrow> deletable (b_flags b) \<Longrightarrow> dispose E True True (b_id b) s = (e, t) \<Longrightarrow> edits E pal (clip, s) (clip, t)"
| trashed: "b \<in> set (all_blocks s) \<Longrightarrow> dispose E False True (b_id b) s = (e, t) \<Longrightarrow> edits E pal (clip, s) (clip, t)"
| arranged: "mset (all_ids (map fst ws)) = mset (all_ids (map fst (a_ws s))) \<Longrightarrow> no_null ws \<Longrightarrow>
    edits E pal (clip, s) (clip, s\<lparr>a_ws := ws, a_selected := sel\<rparr>)"

subsection \<open>The numbers after an edit\<close>

definition swap :: "(block \<Rightarrow> block) \<Rightarrow> nat \<Rightarrow> block \<Rightarrow> block" where
  "swap f i t = (if t \<noteq> NoBlock \<and> b_id t = i then f t else cut f i t)"

lemma swap_simps [simp]:
  "swap f i NoBlock = NoBlock"
  "swap f i (Block j ty ti mu ins nx fl cm) =
     (if i = j then f (Block j ty ti mu ins nx fl cm) else Block j ty ti mu (map (cut_input f i) ins) (swap f i nx) fl cm)"
  by (auto simp: swap_def)

lemma target_cut [simp]: "i_target (cut_input f i x) = swap f i (i_target x)"
  by (cases x) (simp add: swap_def)

lemma own_id: "t \<noteq> NoBlock \<Longrightarrow> b_id t \<in> set (ids t)"
  by (cases t) simp_all

lemma id_of_descendant: "b \<in> set (getDescendants t) \<Longrightarrow> b_id b \<in> set (ids t)"
  by (simp add: ids_def)

lemma cut_out: "i \<notin> set (ids t) \<Longrightarrow> cut f i t = t"
  and "i \<notin> set (ids (i_target x)) \<Longrightarrow> cut_input f i x = x"
proof (induction t and x)
  case (Block j ty ti mu ins nx fl cm)
  then have "map (cut_input f i) ins = ins" by (intro map_idI) (auto simp: all_ids_def)
  moreover have "swap f i nx = nx" using Block own_id [of nx] by (auto simp: swap_def)
  ultimately show ?case by (simp add: swap_def)
next
  case (Input n k t)
  then show ?case using own_id [of t] by auto
qed simp

lemma swap_out: "i \<notin> set (ids t) \<Longrightarrow> swap f i t = t"
  using cut_out own_id by (auto simp: swap_def)

lemma swap_list:
  assumes "\<And>t. t \<in> set ts \<Longrightarrow> distinct (ids t) \<Longrightarrow> b \<in> set (getDescendants t) \<Longrightarrow>
      mset (ids (swap f (b_id b) t)) + mset (ids b) = mset (ids t) + mset (ids (f b))"
    and "distinct (all_ids ts)" and "\<exists>t \<in> set ts. b \<in> set (getDescendants t)"
  shows "mset (all_ids (map (swap f (b_id b)) ts)) + mset (ids b) = mset (all_ids ts) + mset (ids (f b))"
  using assms
proof (induction ts)
  case (Cons t ts)
  have rest: "all_ids (map (swap f (b_id b)) ts) = all_ids ts" if "b_id b \<notin> set (all_ids ts)"
  proof -
    have "map (swap f (b_id b)) ts = ts" using that by (intro map_idI swap_out) (auto simp: all_ids_def)
    then show ?thesis by simp
  qed
  show ?case
  proof (cases "b \<in> set (getDescendants t)")
    case True
    then have "b_id b \<notin> set (all_ids ts)" using id_of_descendant [OF True] Cons.prems(2) by auto
    then show ?thesis using rest Cons.prems(1) [of t] Cons.prems(2) True by (simp add: ac_simps)
  next
    case False
    then obtain u where u: "u \<in> set ts" "b \<in> set (getDescendants u)" using Cons.prems(3) by auto
    then have "b_id b \<in> set (all_ids ts)" using id_of_descendant by (auto simp: all_ids_def)
    then have "swap f (b_id b) t = t" using Cons.prems(2) by (intro swap_out) auto
    moreover have "mset (all_ids (map (swap f (b_id b)) ts)) + mset (ids b) = mset (all_ids ts) + mset (ids (f b))"
      using Cons.IH Cons.prems u by auto
    ultimately show ?thesis by (simp add: ac_simps del: swap_out)
  qed
qed simp

lemma ids_swap:
  "distinct (ids t) \<Longrightarrow> b \<in> set (getDescendants t) \<Longrightarrow>
     mset (ids (swap f (b_id b) t)) + mset (ids b) = mset (ids t) + mset (ids (f b))"
  and "distinct (ids (i_target x)) \<Longrightarrow> b \<in> set (getDescendants (i_target x)) \<Longrightarrow>
     mset (ids (swap f (b_id b) (i_target x))) + mset (ids b) = mset (ids (i_target x)) + mset (ids (f b))"
proof (induction t and x)
  case (Block j ty ti mu ins nx fl cm)
  let ?t = "Block j ty ti mu ins nx fl cm" and ?i = "b_id b"
  have d: "distinct (all_ids (map i_target ins))" "distinct (ids nx)"
      "set (all_ids (map i_target ins)) \<inter> set (ids nx) = {}" "j \<notin> set (all_ids (map i_target ins)) \<union> set (ids nx)"
    using Block.prems(1) by auto
  have inner: "ids (cut f ?i ?t) = j # all_ids (map (swap f ?i) (map i_target ins)) @ ids (swap f ?i nx)"
    by (simp add: o_def swap_def)
  consider "b = ?t" | "\<exists>t \<in> set (map i_target ins). b \<in> set (getDescendants t)" | "b \<in> set (getDescendants nx)"
    using Block.prems(2) by (auto simp: descendants_input)
  then show ?case
  proof cases
    case 1
    then show ?thesis by simp
  next
    case 2
    then have i: "?i \<in> set (all_ids (map i_target ins))" using id_of_descendant by (fastforce simp: all_ids_def)
    then have "swap f ?i nx = nx" using d by (intro swap_out) auto
    moreover have "mset (all_ids (map (swap f ?i) (map i_target ins))) + mset (ids b) =
        mset (all_ids (map i_target ins)) + mset (ids (f b))"
      using 2 d(1) Block.IH(1) by (intro swap_list) auto
    moreover have "j \<noteq> ?i" using i d by auto
    ultimately show ?thesis by (simp add: inner ac_simps o_def)
  next
    case 3
    then have i: "?i \<in> set (ids nx)" by (rule id_of_descendant)
    then have "map (swap f ?i) (map i_target ins) = map i_target ins" using d by (intro map_idI swap_out) (auto simp: all_ids_def)
    from arg_cong [OF this, of all_ids]
    have "all_ids (map (\<lambda>x. swap f ?i (i_target x)) ins) = all_ids (map i_target ins)" by (simp only: map_map o_def)
    moreover have "mset (ids (swap f ?i nx)) + mset (ids b) = mset (ids nx) + mset (ids (f b))"
      using Block.IH(2) 3 d by simp
    moreover have "j \<noteq> ?i" using i d by auto
    ultimately show ?thesis by (simp add: inner ac_simps o_def)
  qed
qed auto

subsection \<open>What an edit may do\<close>

lemma ids_apart:
  "distinct (all_ids ts) \<Longrightarrow> t \<in> set ts \<Longrightarrow> u \<in> set ts \<Longrightarrow> t \<noteq> u \<Longrightarrow> set (ids t) \<inter> set (ids u) = {}"
  by (induction ts) (auto simp: all_ids_def)

lemma all_blocks_below: "b \<in> set (getAllBlocks ts) \<Longrightarrow> \<exists>t \<in> set ts. b \<in> set (getDescendants t)"
  using mset_eq_setD [OF mset_getAllBlocks [of ts]] by auto

lemma real_descendant: "b \<in> set (getDescendants t) \<Longrightarrow> b \<noteq> NoBlock"
  and "b \<in> set (input_descendants x) \<Longrightarrow> b \<noteq> NoBlock"
  by (induction t and x) auto

lemma ids_set_next_tail: "b \<noteq> NoBlock \<Longrightarrow> mset (ids (set_next NoBlock b)) + mset (ids (b_next b)) = mset (ids b)"
  by (cases b) (simp_all add: set_next_def)

lemma cut_surface:
  "\<not> on_surface i ws \<Longrightarrow> map fst (map (\<lambda>(t, xy). (cut f i t, xy)) ws) = map (swap f i) (map fst ws)"
  by (induction ws) (auto simp: on_surface_def swap_def)

lemma ids_cut_surface:
  assumes "distinct (all_ids (map fst ws))" and "b \<in> set (getAllBlocks (map fst ws))"
  shows "mset (all_ids (map (swap f (b_id b)) (map fst ws))) + mset (ids b) = mset (all_ids (map fst ws)) + mset (ids (f b))"
  by (rule swap_list [OF ids_swap(1) assms(1) all_blocks_below [OF assms(2)]])

lemma surface_block:
  assumes "distinct (all_ids (map fst ws))" and "no_null ws" and "on_surface i ws"
  shows "map fst (map (\<lambda>(t, xy). (if b_id t = i then f t else t, xy)) ws) = map (swap f i) (map fst ws)"
proof -
  obtain u where u: "u \<in> set (map fst ws)" "b_id u = i" "u \<noteq> NoBlock"
    using assms(2,3) by (auto simp: on_surface_def no_null_def list_ex_iff list_all_iff)
  have "swap f i t = (if b_id t = i then f t else t)" if t: "t \<in> set (map fst ws)" for t
  proof (cases "b_id t = i")
    case True
    then show ?thesis using t assms(2) by (auto simp: swap_def no_null_def list_all_iff)
  next
    case False
    then have "i \<notin> set (ids t)" using ids_apart [OF assms(1) t u(1)] own_id [OF u(3)] u(2) by auto
    then show ?thesis using False swap_out by simp
  qed
  then show ?thesis by auto
qed

lemma ids_unplugged:
  assumes d: "distinct (all_ids (map fst ws))" and b: "b \<in> set (getAllBlocks (map fst ws))" and n: "no_null ws"
  shows "mset (all_ids (map fst (unplugged out heal pos b ws))) = mset (all_ids (map fst ws))"
proof -
  let ?i = "b_id b" and ?ts = "map fst ws"
  have nb: "b \<noteq> NoBlock" using all_blocks_below [OF b] real_descendant by blast
  have none: "mset (all_ids (map (swap (\<lambda>_. NoBlock) ?i) ?ts)) + mset (ids b) = mset (all_ids ?ts)"
    using ids_cut_surface [OF d b, of "\<lambda>_. NoBlock"] by simp
  have healed: "mset (all_ids (map (swap b_next ?i) ?ts)) + mset (ids (set_next NoBlock b)) = mset (all_ids ?ts)"
    using ids_cut_surface [OF d b, of b_next] ids_set_next_tail [OF nb, symmetric] by simp
  have top: "mset (all_ids (map (swap (set_next NoBlock) ?i) ?ts)) + mset (ids (b_next b)) = mset (all_ids ?ts)"
    using ids_cut_surface [OF d b, of "set_next NoBlock"] ids_set_next_tail [OF nb, symmetric] by simp
  show ?thesis
    using none healed top surface_block [OF d n, of ?i "set_next NoBlock"]
    by (simp add: unplugged_def Let_def cut_surface del: map_map)
qed
lemma no_null_append [simp]: "no_null (ws @ vs) \<longleftrightarrow> no_null ws \<and> no_null vs" "no_null []" "no_null (t # ws) \<longleftrightarrow> fst t \<noteq> NoBlock \<and> no_null ws"
  by (simp_all add: no_null_def)

lemma kept_real [simp]:
  "cut f i t = NoBlock \<longleftrightarrow> t = NoBlock" "set_next c t = NoBlock \<longleftrightarrow> t = NoBlock" "plug_block p t = NoBlock \<longleftrightarrow> t = NoBlock"
  by (cases t; simp add: set_next_def plug_block_def)+

lemma no_null_map [simp]: "(\<And>t. f t = NoBlock \<longleftrightarrow> t = NoBlock) \<Longrightarrow> no_null (map (\<lambda>(t, xy). (f t, xy)) ws) \<longleftrightarrow> no_null ws"
  by (simp add: no_null_def list_all_iff split_def)

lemma no_null_unplugged: "b \<noteq> NoBlock \<Longrightarrow> no_null ws \<Longrightarrow> no_null (unplugged out heal pos b ws)"
  by (simp add: unplugged_def Let_def)

text \<open>An edit changes nothing of the page but the blocks, the counter and the selection.\<close>

definition edited_as :: "app \<Rightarrow> app \<Rightarrow> bool" where
  "edited_as s t \<longleftrightarrow> (\<exists>ws k sel. t = s\<lparr>a_ws := ws, a_uid := k, a_selected := sel\<rparr> \<and> edit_ok (a_ws s) (a_uid s) ws k)"

lemma edited_asD: "edited_as s t \<Longrightarrow> page_step E s t"
  by (auto simp: edited_as_def intro: page_step.edited)

lemma edit_ok_kept: "mset (all_ids (map fst ws')) \<subseteq># mset (all_ids (map fst ws)) \<Longrightarrow> no_null ws' \<Longrightarrow> edit_ok ws k ws' k"
  unfolding edit_ok_def by (auto intro!: exI [of _ "[]"])

lemma edited_asI: "edit_ok (a_ws s) (a_uid s) ws k \<Longrightarrow> edited_as s (s\<lparr>a_ws := ws, a_uid := k, a_selected := sel\<rparr>)"
  by (auto simp: edited_as_def)

lemma edited_same: "mset (all_ids (map fst ws)) \<subseteq># mset (all_ids (map fst (a_ws s))) \<Longrightarrow> no_null ws \<Longrightarrow>
    edited_as s (s\<lparr>a_ws := ws, a_selected := sel\<rparr>)"
  using edited_asI [OF edit_ok_kept, where s = s and sel = sel] by simp

lemma edited_refl: "no_null (a_ws s) \<Longrightarrow> edited_as s s"
  using edited_same [of "a_ws s" s "a_selected s"] by simp

text \<open>What is done with a new block: it is moved and selected.\<close>

definition placed :: "app \<Rightarrow> app \<Rightarrow> bool" where
  "placed s t \<longleftrightarrow> t = s\<lparr>a_ws := a_ws t, a_selected := a_selected t\<rparr> \<and> map fst (a_ws t) = map fst (a_ws s)"

definition only_places :: "act \<Rightarrow> bool" where
  "only_places a \<longleftrightarrow> (\<forall>s. fst (a s) = None \<and> placed s (snd (a s)))"

lemma placed_trans: "placed s t \<Longrightarrow> placed t u \<Longrightarrow> placed s u"
proof -
  assume s: "placed s t" and u: "placed t u"
  obtain ws sel where t: "t = s\<lparr>a_ws := ws, a_selected := sel\<rparr>" using s unfolding placed_def by blast
  have "map fst (a_ws u) = map fst (a_ws s)" using s u by (simp add: placed_def)
  moreover have "u = t\<lparr>a_ws := a_ws u, a_selected := a_selected u\<rparr>" using u unfolding placed_def ..
  then have "u = s\<lparr>a_ws := a_ws u, a_selected := a_selected u\<rparr>" unfolding t by simp
  ultimately show ?thesis unfolding placed_def by blast
qed

lemma places_steps:
  "only_places (moveBy i xy)" "only_places (select i)" "only_places skip"
  by (auto simp: only_places_def placed_def moveBy_def select_def upd_def skip_def split_def)

lemma places_reads: "(\<And>x. only_places (g x)) \<Longrightarrow> only_places (reads f g)"
  by (simp add: only_places_def reads_def)

lemma places_seqs: "only_places a \<Longrightarrow> only_places b \<Longrightarrow> only_places (seqs [a, b])"
  unfolding only_places_def by (auto simp: case_prod_unfold intro: placed_trans)

lemma edit_ok_positions: "map fst ws' = map fst ws \<Longrightarrow> edit_ok vs k ws' k' = edit_ok vs k ws k'"
proof -
  assume eq: "map fst ws' = map fst ws"
  have "no_null ws = list_all (\<lambda>b. b \<noteq> NoBlock) (map fst ws)" for ws by (simp add: no_null_def list.pred_map o_def)
  then show ?thesis using eq by (simp add: edit_ok_def)
qed

text \<open>New blocks.\<close>

lemma edit_ok_loaded:
  assumes "elem x" and "no_null ws"
  shows "case domToBlock L k x of
      (Inl (e, bs), m) \<Rightarrow> edit_ok ws k (ws @ map (\<lambda>b. (b, 0, 0)) bs) m
    | (Inr b, m) \<Rightarrow> edit_ok ws k (ws @ [(b, 0, 0)]) m"
proof -
  obtain r m where d: "domToBlock L k x = (r, m)" by force
  have ok: "k \<le> m" "loaded_within k (r, m)" using domToBlock_ids(1) [of k L x] d by (simp_all add: block_ids_ok_def)
  have real: "real_load (r, m)" using domToBlock_real(1) [of x L k] assms(1) d by simp
  show ?thesis
  proof (cases r)
    case (Inl a)
    obtain e bs where a: "a = (e, bs)" by force
    have "no_null (map (\<lambda>b. (b, 0, 0)) bs)" using real Inl a by (auto simp: no_null_def list_all_iff)
    then show ?thesis using ok assms(2) d Inl a
      unfolding edit_ok_def by (auto simp: o_def intro!: exI [of _ "all_ids bs"])
  next
    case (Inr b)
    then show ?thesis using ok real assms(2) d
      unfolding edit_ok_def by (auto intro!: exI [of _ "ids b"])
  qed
qed

lemma edited_new_block:
  assumes "new_block E x k s = (e, t)" and "elem x" and "no_null (a_ws s)" and k: "\<And>i. only_places (k i)"
  shows "edited_as s t"
proof -
  obtain r m where d: "domToBlock (loader_of E s) (a_uid s) x = (r, m)" by force
  note ok = edit_ok_loaded [OF assms(2,3), where L = "loader_of E s" and k = "a_uid s"]
  show ?thesis
  proof (cases r)
    case (Inl a)
    then show ?thesis using assms(1) d ok edited_asI [of s _ m "a_selected s"] by (cases a) (auto simp: new_block_def)
  next
    case (Inr b)
    let ?u = "s\<lparr>a_ws := a_ws s @ [(b, 0, 0)], a_uid := m\<rparr>"
    have "k (b_id b) ?u = (e, t)" using assms(1) d Inr by (simp add: new_block_def)
    then have t: "placed ?u t" using k [of "b_id b"] unfolding only_places_def by (metis snd_conv)
    then have "edit_ok (a_ws s) (a_uid s) (a_ws t) m"
      using ok d Inr edit_ok_positions [of "a_ws t" "a_ws s @ [(b, 0, 0)]"] by (simp add: placed_def)
    then have ok: "edit_ok (a_ws s) (a_uid s) (a_ws t) m" .
    obtain ws sel where u: "t = ?u\<lparr>a_ws := ws, a_selected := sel\<rparr>" using t unfolding placed_def by blast
    then have "t = s\<lparr>a_ws := ws, a_uid := m, a_selected := sel\<rparr>" by simp
    moreover have "edit_ok (a_ws s) (a_uid s) ws m" using ok u by simp
    ultimately show ?thesis unfolding edited_as_def by blast
  qed
qed

lemma elem_written [simp]: "b \<noteq> NoBlock \<Longrightarrow> elem (blockToDom V b)" "elem (deleteNext x) = elem x" "elem (add_attrs at x) = elem x"
  by (cases b, simp_all add: elem_def, (cases x, simp_all add: elem_def)+)

lemma edited_taken:
  assumes "createBlock E fb at s = (e, t)" and "fb \<noteq> NoBlock" and "no_null (a_ws s)"
  shows "edited_as s t"
  using assms edited_new_block [of E _ _ s e t] edited_refl
  by (auto simp: createBlock_def whens_def places_seqs places_steps split: if_splits)

lemma edited_duplicated:
  assumes "duplicate E b s = (e, t)" and "b \<noteq> NoBlock" and "no_null (a_ws s)"
  shows "edited_as s t"
  using assms edited_new_block [of E _ _ s e t] edited_refl
  by (auto simp: duplicate_def whens_def reads_def places_steps split: if_splits prod.splits)

lemma paste_places:
  "only_places (seqs [
      (case (Option.bind (getAttribute x ''x'') js_parseInt, Option.bind (getAttribute x ''y'') js_parseInt) of
         (Some c, Some a) \<Rightarrow> reads (all_positions E) (\<lambda>gs.
           moveBy i (free_spot (v_rtl (e_view E)) gs (if v_rtl (e_view E) then - c else c, a)))
       | _ \<Rightarrow> skip),
      select i])"
  by (intro places_seqs) (auto simp: places_steps split: option.split intro!: places_reads)

lemma edited_pasted:
  assumes "paste E x s = (e, t)" and "elem x" and "no_null (a_ws s)"
  shows "edited_as s t"
  using assms edited_new_block [OF _ assms(2,3) paste_places, of E] edited_refl by (auto simp: paste_def whens_def split: if_splits)

lemma killTasks_frame: "killTasks E s = (e, t) \<Longrightarrow> a_ws t = a_ws s \<and> a_uid t = a_uid s \<and> a_max t = a_max s"
  by (auto simp: killTasks_def with_user_def disarm_def ajax_def setTimeout_def happens_def act_simps split: option.splits)

lemma block_with_in: "block_with i s = Some b \<Longrightarrow> b \<in> set (all_blocks s) \<and> b_id b = i"
  by (auto simp: block_with_def find_Some_iff)

lemma all_blocks_real: "b \<in> set (all_blocks s) \<Longrightarrow> b \<noteq> NoBlock"
  using all_blocks_below real_descendant by (auto simp: all_blocks_def)

lemma unplug_steps:
  assumes "distinct (all_ids (map fst (a_ws s)))" and "no_null (a_ws s)"
  obtains ws where "unplug E heal i s = (None, s\<lparr>a_ws := ws\<rparr>)" and "mset (all_ids (map fst ws)) = mset (all_ids (map fst (a_ws s)))"
    and "no_null ws"
proof (cases "block_with i s")
  case None
  then show ?thesis using that [of "a_ws s"] assms(2) by (simp add: unplug_def)
next
  case (Some b)
  then have "b \<in> set (getAllBlocks (map fst (a_ws s)))" "b \<noteq> NoBlock"
    using block_with_in [OF Some] all_blocks_real by (auto simp: all_blocks_def)
  then show ?thesis
    using that [OF _ ids_unplugged [OF assms(1) _ assms(2)] no_null_unplugged [OF _ assms(2)]] Some by (simp add: unplug_def)
qed

lemma remove_top_steps:
  obtains ws sel where "remove_top i s = (None, s\<lparr>a_ws := ws, a_selected := sel\<rparr>)"
    and "mset (all_ids (map fst ws)) \<subseteq># mset (all_ids (map fst (a_ws s)))" and "no_null (a_ws s) \<Longrightarrow> no_null ws"
proof (rule that)
  show "remove_top i s = (None, s\<lparr>a_ws := filter (\<lambda>t. b_id (fst t) \<noteq> i) (a_ws s), a_selected := a_selected (snd (remove_top i s))\<rparr>)"
    by (simp add: remove_top_def upd_def put_ws_def)
qed (simp_all add: all_ids_filter no_null_def list_all_iff)

text \<open>Disposing of a block: it comes out, the tests may end, and it goes.\<close>

lemma dispose_steps:
  assumes run: "dispose E heal animate i s = (e, t)" and d: "distinct (all_ids (map fst (a_ws s)))" and n: "no_null (a_ws s)"
  obtains ws u e' where "edited_as s (s\<lparr>a_ws := ws\<rparr>)" and "whens (\<lambda>_. animate) (disposeUiEffect E) (s\<lparr>a_ws := ws\<rparr>) = (e', u)"
    and "t = u \<or> edited_as u t" and "mset (all_ids (map fst (a_ws t))) \<subseteq># mset (all_ids (map fst (a_ws s)))"
    and "a_max t = a_max s"
proof -
  obtain ws where u: "unplug E heal i s = (None, s\<lparr>a_ws := ws\<rparr>)" "mset (all_ids (map fst ws)) = mset (all_ids (map fst (a_ws s)))"
      "no_null ws"
    using unplug_steps [OF d n] by blast
  have first: "edited_as s (s\<lparr>a_ws := ws\<rparr>)" using edited_same [of ws s "a_selected s"] u by simp
  obtain e' u' where w: "whens (\<lambda>_. animate) (disposeUiEffect E) (s\<lparr>a_ws := ws\<rparr>) = (e', u')" by force
  have same: "a_ws u' = ws" "a_max u' = a_max s"
    using w killTasks_frame [of E _ e' u'] by (auto simp: whens_def disposeUiEffect_def split: if_splits)
  show ?thesis
  proof (cases e')
    case (Some x)
    then have "t = u'" using run u(1) w by (simp add: dispose_def)
    then show ?thesis using that [OF first w] same u(2) by simp
  next
    case None
    then have r: "remove_top i u' = (e, t)" using run u(1) w by (auto simp: dispose_def split: prod.splits option.splits)
    obtain vs sel where v: "remove_top i u' = (None, u'\<lparr>a_ws := vs, a_selected := sel\<rparr>)"
        "mset (all_ids (map fst vs)) \<subseteq># mset (all_ids (map fst (a_ws u')))" "no_null (a_ws u') \<Longrightarrow> no_null vs"
      using remove_top_steps [of i u'] by metis
    then have "edited_as u' t" using r edited_same [OF v(2)] u(3) same by simp
    then show ?thesis using that [OF first w] same u(2) v(1,2) r by simp
  qed
qed

subsection \<open>Editing keeps the page reachable\<close>

text \<open>The clipboard holds an element.\<close>

definition clip_ok :: "xml option \<Rightarrow> bool" where
  "clip_ok c \<longleftrightarrow> (case c of None \<Rightarrow> True | Some x \<Rightarrow> elem x)"

lemma dispose_reachable:
  assumes "reachable E s" and "dispose E heal animate i s = (e, t)"
  shows "reachable E t"
proof -
  obtain ws u e' where d: "edited_as s (s\<lparr>a_ws := ws\<rparr>)" "whens (\<lambda>_. animate) (disposeUiEffect E) (s\<lparr>a_ws := ws\<rparr>) = (e', u)"
      "t = u \<or> edited_as u t"
    using dispose_steps [OF assms(2) reachable_ids [OF assms(1)] reachable_real [OF assms(1)]] by blast
  have r: "reachable E (s\<lparr>a_ws := ws\<rparr>)" by (rule reachable.stepped [OF assms(1) edited_asD [OF d(1)]])
  have "u = s\<lparr>a_ws := ws\<rparr> \<or> page_step E (s\<lparr>a_ws := ws\<rparr>) u"
    using d(2) page_step.disposing [of "s\<lparr>a_ws := ws\<rparr>" E e' u] by (auto simp: whens_def disposeUiEffect_def split: if_splits)
  then have "reachable E u" using r reachable.stepped by blast
  then show ?thesis using d(3) edited_asD reachable.stepped by blast
qed

lemma selected_in: "deletable_selected s = Some b \<Longrightarrow> b \<in> set (all_blocks s) \<and> deletable (b_flags b)"
  by (auto simp: deletable_selected_def selected_block_def find_Some_iff split: option.splits if_splits)

lemma copy_elem: "b \<noteq> NoBlock \<Longrightarrow> elem (copy_dom E s b)"
  by (simp add: copy_dom_def split: prod.split)

lemma selected_copy: "deletable_selected s = Some b \<Longrightarrow> elem (copy_dom E s b)"
  using selected_in all_blocks_real copy_elem by metis

lemma key_does:
  assumes "onKeyDown E key modified (clip, s) = (e, clip', t)"
  shows "t = s \<and> clip' = clip \<or>
    (\<exists>b. deletable_selected s = Some b \<and> t = s \<and> clip' = Some (copy_dom E s b)) \<or>
    (\<exists>b. deletable_selected s = Some b \<and> dispose E True True (b_id b) s = (e, t) \<and> (clip' = clip \<or> clip' = Some (copy_dom E s b))) \<or>
    (\<exists>x. clip = Some x \<and> paste E x s = (e, t) \<and> clip' = clip)"
proof (cases "key = 86 \<and> modified")
  case True
  then show ?thesis
    using assms by (cases clip; simp add: onKeyDown_def Let_def; cases "paste E (the clip) s"; simp)
next
  case False
  then show ?thesis
  proof (cases "deletable_selected s")
    case None
    then show ?thesis using False assms by (simp add: onKeyDown_def Let_def split: if_splits)
  next
    case (Some b)
    obtain e' t' where "dispose E True True (b_id b) s = (e', t')" by force
    then show ?thesis using False assms Some by (auto simp: onKeyDown_def Let_def split: if_splits)
  qed
qed

lemma edits_keep:
  assumes "edits E pal (clip, s) (clip', t)" and "reachable E s" and "clip_ok clip"
  shows "reachable E t \<and> clip_ok clip'"
proof -
  note n = reachable_real [OF assms(2)]
  have by_edit: "reachable E u" if "edited_as s u" for u using that assms(2) edited_asD reachable.stepped by blast
  from assms(1) show ?thesis
  proof cases
    case (taken fb at e)
    then show ?thesis using edited_taken [OF taken(4,3) n] by_edit assms(3) by simp
  next
    case (duplicated b e)
    then show ?thesis using edited_duplicated [OF duplicated(4) all_blocks_real n] by_edit assms(3) by simp
  next
    case (typed key modified e)
    consider "t = s" "clip' = clip" | b where "deletable_selected s = Some b" "t = s" "clip' = Some (copy_dom E s b)"
      | b where "deletable_selected s = Some b" "dispose E True True (b_id b) s = (e, t)" "clip' = clip \<or> clip' = Some (copy_dom E s b)"
      | x where "clip = Some x" "paste E x s = (e, t)" "clip' = clip"
      using key_does [OF typed] by metis
    then show ?thesis
    proof cases
      case 1
      then show ?thesis using assms by simp
    next
      case (2 b)
      then show ?thesis using assms(2) selected_copy [OF 2(1)] by (simp add: clip_ok_def)
    next
      case (3 b)
      then show ?thesis using assms(3) dispose_reachable [OF assms(2) 3(2)] selected_copy [OF 3(1)] by (auto simp: clip_ok_def)
    next
      case (4 x)
      then show ?thesis using edited_pasted [OF 4(2) _ n] by_edit assms(3) by (simp add: clip_ok_def)
    qed
  next
    case (deleted b e)
    then show ?thesis using dispose_reachable [OF assms(2)] assms(3) by blast
  next
    case (trashed b e)
    then show ?thesis using dispose_reachable [OF assms(2)] assms(3) by blast
  next
    case (arranged ws sel)
    then show ?thesis using by_edit edited_same [of ws s sel] assms(3) by simp
  qed
qed

lemma editing_keeps:
  assumes "(edits E pal)\<^sup>*\<^sup>* (clip, s) (clip', t)" and "reachable E s" and "clip_ok clip"
  shows "reachable E t \<and> clip_ok clip'"
  using assms by (induction "(clip', t)" arbitrary: clip' t rule: rtranclp_induct) (auto dest: edits_keep)

text \<open>C8. The steps of editing in the model of the page cover what Blockly and the front end do: from
  a page that can be reached, and with nothing in the clipboard, taking blocks from the palette, duplicating, copying,
  cutting, pasting and disposing of blocks, with or without healing the stack and in test mode with the end
  of the tests, leads to pages that can be reached, so that what holds on these (numbers are unique, texts parse, buttons come back)
  holds after any editing.
\<close>

theorem editing_refines_page:
  assumes "reachable E s" and "(edits E pal)\<^sup>*\<^sup>* (None, s) (clip, t)"
  shows "reachable E t"
  using editing_keeps [OF assms(2,1)] by (simp add: clip_ok_def)
theorem editing_refines_page_witness:
  "\<exists>e t. dispose demo_E True True 7 demo_edited = (e, t) \<and> reachable demo_E t \<and> a_ws t = []"
proof -
  obtain e t where d: "dispose demo_E True True 7 demo_edited = (e, t)" by force
  have b: "demo_behaviour \<in> set (all_blocks demo_edited)" "deletable (b_flags demo_behaviour)" "b_id demo_behaviour = 7"
    by (simp_all add: all_blocks_def) (simp_all add: demo_behaviour_def new_flags_def)
  have "edits demo_E {} (None, demo_edited) (None, t)"
    using edits.deleted [OF b(1,2), of demo_E e t "{}" None] d b(3) by simp
  then have "reachable demo_E t" using editing_refines_page [OF demo_reachable r_into_rtranclp] by blast
  moreover have "a_ws t = []"
  proof -
    have "demo_behaviour \<noteq> NoBlock" by (simp add: demo_behaviour_def)
    then have "block_with 7 demo_edited = Some demo_behaviour"
      using b(3) by (simp add: block_with_def all_blocks_def)
    moreover have "unplugged out heal pos demo_behaviour (a_ws demo_edited) = a_ws demo_edited" for out heal pos
      by (simp add: unplugged_def on_surface_def) (simp add: demo_behaviour_def on_surface_def)
    moreover have "a_testMode demo_edited = False" by (simp add: demo_edited_def demo_page_def new_page_def)
    ultimately show ?thesis
      using d b(3) by (auto simp: dispose_def unplug_def disposeUiEffect_def remove_top_def put_ws_def act_simps)
  qed
  ultimately show ?thesis using d by blast
qed

subsection \<open>The limit on blocks\<close>

lemma block_child_count: "block_child ks = Some x \<Longrightarrow> Suc (elems_below x) \<le> sum_list (map block_elems ks)"
proof -
  assume c: "block_child ks = Some x"
  then obtain n at cs where x: "x = Elem n at cs" "js_toLowerCase n = ''block''"
    by (auto simp: block_child_def split: list.splits xml.splits if_splits)
  have "block_elems x \<le> sum_list (map block_elems ks)" using block_child_in [OF c] by (intro member_le_sum_list) auto
  then show ?thesis using x by simp
qed

text \<open>A number is used for every element read, and every element is counted.\<close>

definition uses :: "nat \<Rightarrow> nat \<Rightarrow> block loading \<Rightarrow> bool" where
  "uses n k r \<longleftrightarrow> snd r \<le> k + n"

lemma domToBlock_count:
  "uses (Suc (elems_below x)) k (domToBlock L k x)"
  "uses (sum_list (map block_elems ks)) k (load_kids L p k ks b)"
proof (induction L k x and L p k ks b rule: load_rule [where P = "\<lambda>L k x r. uses (Suc (elems_below x)) k r"
      and Q = "\<lambda>L p k ks b r. uses (sum_list (map block_elems ks)) k r"])
  case (ChildFails L p k n at cs ks b e x rest k')
  then show ?case using block_child_count [OF ChildFails(1)] by (simp add: uses_def)
next
  case (Misfit L p k n at cs ks b e c x k')
  then show ?case using block_child_count [OF Misfit(1)] by (simp add: uses_def)
next
  case (Child L p k n at cs ks b e c b' k' r)
  then show ?case using block_child_count [OF Child(1)] by (simp add: uses_def)
qed (auto simp: uses_def)

lemma elems_kids [simp]:
  "sum_list (map block_elems (mutation_kids b)) = 0"
  "sum_list (map (block_elems \<circ> title_dom) ti) = 0"
  "sum_list (map block_elems (comment_dom V i cm)) = 0"
proof -
  have words: "sum_list (map block_elems (text_kids t)) = 0" for t by (simp add: text_kids_def)
  show "sum_list (map block_elems (mutation_kids b)) = 0" by (auto simp: mutation_kids_def split: option.split)
  show "sum_list (map (block_elems \<circ> title_dom) ti) = 0"
    by (induction ti) (auto simp: title_dom_def words)
  show "sum_list (map block_elems (comment_dom V i cm)) = 0"
    using words by (auto simp: comment_dom_def split: option.split prod.split)
qed

lemma elems_written:
  "block_elems (blockToDom V b) \<le> length (getDescendants b)"
  "sum_list (map block_elems (input_dom V x)) \<le> length (getDescendants (i_target x))"
proof (induction b and x)
  case (Block i ty ti mu ins nx fl cm)
  have "sum_list (map block_elems (concat (map (input_dom V) ins))) \<le> length (concat (map input_descendants ins))"
    using Block(1) by (induction ins) (auto simp: descendants_input intro: add_mono)
  then show ?case using Block(2) by auto
next
  case (Input n k t)
  then show ?case by auto
qed simp


lemma elems_below_copy: "elems_below (deleteNext x) \<le> elems_below x" "elems_below (add_attrs at x) = elems_below x"
proof -
  have "sum_list (map block_elems (delete_first_next ks)) \<le> sum_list (map block_elems ks)" for ks
    by (induction ks rule: delete_first_next.induct) auto
  then show "elems_below (deleteNext x) \<le> elems_below x" by (cases x) simp_all
  show "elems_below (add_attrs at x) = elems_below x" by (cases x) simp_all
qed

lemma elems_below_written: "b \<noteq> NoBlock \<Longrightarrow> Suc (elems_below (blockToDom V b)) \<le> length (getDescendants b)"
  using elems_written(1) [of V b] by (cases b) simp_all

lemma block_count_ids: "block_count s = length (all_ids (map fst (a_ws s)))"
proof -
  have "length (concat (map getDescendants bs)) = length (all_ids bs)" for bs
    by (induction bs) (simp_all add: ids_def)
  then show ?thesis
    using mset_eq_length [OF mset_getAllBlocks [of "map fst (a_ws s)"]] by (simp add: block_count_def all_blocks_def del: map_map)
qed

lemma fewer_blocks: "mset (all_ids (map fst (a_ws t))) \<subseteq># mset (all_ids (map fst (a_ws s))) \<Longrightarrow> block_count t \<le> block_count s"
  using size_mset_mono by (fastforce simp: block_count_ids)

lemma ids_within_length: "ids_within k k' l \<Longrightarrow> length l \<le> k' - k"
  unfolding ids_within_def using card_mono [of "{k<..k'}" "set l"] by (simp add: distinct_card)

lemma new_block_count:
  assumes "new_block E x k s = (e, t)" and k: "\<And>i. only_places (k i)"
  shows "block_count t \<le> block_count s + Suc (elems_below x) \<and> a_max t = a_max s"
proof -
  obtain r m where d: "domToBlock (loader_of E s) (a_uid s) x = (r, m)" by force
  have m: "m \<le> a_uid s + Suc (elems_below x)" using domToBlock_count(1) [of x "a_uid s" "loader_of E s"] d by (simp add: uses_def)
  have ids: "loaded_within (a_uid s) (r, m)" using domToBlock_ids(1) [of "a_uid s" "loader_of E s" x] d by (simp add: block_ids_ok_def)
  show ?thesis
  proof (cases r)
    case (Inl a)
    then show ?thesis
      using assms(1) d m ids ids_within_length [of "a_uid s" m "all_ids (snd a)"]
      by (cases a) (auto simp: new_block_def block_count_ids o_def)
  next
    case (Inr b)
    let ?u = "s\<lparr>a_ws := a_ws s @ [(b, 0, 0)], a_uid := m\<rparr>"
    have "k (b_id b) ?u = (e, t)" using assms(1) d Inr by (simp add: new_block_def)
    then have t: "placed ?u t" using k [of "b_id b"] unfolding only_places_def by (metis snd_conv)
    then obtain ws sel where "t = ?u\<lparr>a_ws := ws, a_selected := sel\<rparr>" unfolding placed_def by blast
    then have "a_max t = a_max s" by simp
    moreover have "block_count t = block_count s + length (ids b)" using t by (simp add: placed_def block_count_ids)
    moreover have "length (ids b) \<le> m - a_uid s" using ids Inr by (intro ids_within_length) simp
    ultimately show ?thesis using m by simp
  qed
qed

text \<open>The limit and the number of blocks within it.\<close>

definition within :: "nat \<Rightarrow> app \<Rightarrow> bool" where
  "within n s \<longleftrightarrow> a_max s = MaxNumber n \<and> block_count s \<le> n"

lemma dispose_within:
  assumes "reachable E s" and "dispose E heal animate i s = (e, t)" and "within n s"
  shows "within n t"
  using dispose_steps [OF assms(2) reachable_ids [OF assms(1)] reachable_real [OF assms(1)]] fewer_blocks [of t s] assms(3)
  unfolding within_def by (metis le_trans)

lemma edits_within:
  assumes "edits E pal (clip, s) (clip', t)" and "reachable E s" and "within n s" and n: "0 < n"
    and single: "\<forall>fb \<in> pal. getDescendants fb = [fb]"
  shows "within n t"
proof -
  have room: "remainingCapacity s = Room (int n - int (block_count s))" "block_count s \<le> n"
    using assms(3) by (simp_all add: within_def remainingCapacity_def)
  have more: "within n t" if "new_block E x k s = (e, t)" "\<And>i. only_places (k i)" "block_count s + Suc (elems_below x) \<le> n" for x k e
    using new_block_count [OF that(1,2)] that(3) assms(3) by (simp add: within_def)
  from assms(1) show ?thesis
  proof cases
    case (taken fb at e)
    have "block_count s + Suc (elems_below (blockToDom (e_view E) fb)) \<le> n" if "\<not> filterForCapacity s (b_type fb)"
    proof -
      have "\<not> over_capacity s" using that by (auto simp: filterForCapacity_def Let_def split: if_splits)
      then have "length (a_ws s) + block_count s \<le> n" using room by (simp add: over_capacity_room)
      moreover have "getDescendants fb = [fb]" using single taken(2) by blast
      then have "elems_below (blockToDom (e_view E) fb) = 0" using elems_below_written [OF taken(3), of "e_view E"] by simp
      moreover have "a_ws s = [] \<Longrightarrow> block_count s = 0" by (simp add: block_count_ids)
      ultimately show ?thesis using n by (cases "a_ws s") auto
    qed
    then show ?thesis
      using taken more assms(3) by (auto simp: createBlock_def whens_def places_seqs places_steps split: if_splits)
  next
    case (duplicated b e)
    have "length (getDescendants b) + block_count s \<le> n" using duplicated(3) room by (simp add: duplicate_enabled_def)
    then have "block_count s + Suc (elems_below (deleteNext (blockToDom (e_view E) b))) \<le> n"
      using elems_below_written [OF all_blocks_real [OF duplicated(2)], of "e_view E"] elems_below_copy(1) [of "blockToDom (e_view E) b"]
      by simp
    then show ?thesis
      using duplicated(4) more assms(3) by (auto simp: duplicate_def whens_def reads_def places_steps split: if_splits prod.splits)
  next
    case (typed key modified e)
    consider "t = s" | b where "dispose E True True (b_id b) s = (e, t)" | x where "paste E x s = (e, t)"
      using key_does [OF typed] by metis
    then show ?thesis
    proof cases
      case 1
      then show ?thesis using assms(3) by simp
    next
      case (2 b)
      then show ?thesis using dispose_within [OF assms(2) _ assms(3)] by blast
    next
      case (3 x)
      show ?thesis
      proof (cases "fills (elems_below x) (remainingCapacity s)")
        case True
        then show ?thesis using 3 assms(3) by (simp add: paste_def whens_def)
      next
        case False
        then have "block_count s + Suc (elems_below x) \<le> n" using room by simp
        then show ?thesis using more paste_places False 3 by (auto simp: paste_def whens_def)
      qed
    qed
  next
    case (deleted b e)
    then show ?thesis using dispose_within [OF assms(2) _ assms(3)] by blast
  next
    case (trashed b e)
    then show ?thesis using dispose_within [OF assms(2) _ assms(3)] by blast
  next
    case (arranged ws sel)
    then show ?thesis using assms(3) fewer_blocks [of t s] by (simp add: within_def)
  qed
qed
subsection \<open>Duplicates\<close>

lemma moveBy_new:
  assumes "\<forall>t \<in> set ws. b_id (fst t) \<noteq> b_id b" and "a_ws u = ws @ [(b, 0, 0)]"
  shows "moveBy (b_id b) d u = (None, u\<lparr>a_ws := ws @ [(b, d)]\<rparr>)"
proof -
  have "map (\<lambda>(c, x, y). if b_id c = b_id b then (c, x + fst d, y + snd d) else (c, x, y)) ws = ws"
    using assms(1) by (intro map_idI) auto
  then show ?thesis using assms(2) by (simp add: moveBy_def upd_def)
qed

lemma fresh_number:
  assumes "reachable E s" and "a_uid s < i" and "t \<in> set (a_ws s)"
  shows "b_id (fst t) \<noteq> i"
proof -
  have "fst t \<noteq> NoBlock" using reachable_real [OF assms(1)] assms(3) by (auto simp: no_null_def list_all_iff)
  then have "b_id (fst t) \<in> set (all_ids (map fst (a_ws s)))" using own_id assms(3) by (auto simp: all_ids_def)
  then show ?thesis using reachable_unique [OF assms(1)] assms(2) by (auto simp: unique_ids_def ids_within_def)
qed

lemma delete_first_next_append:
  "list_all (\<lambda>k. case k of Txt _ \<Rightarrow> True | Elem n _ _ \<Rightarrow> js_toLowerCase n \<noteq> ''next'') ks \<Longrightarrow>
    delete_first_next (ks @ ls) = ks @ delete_first_next ls"
  by (induction ks rule: delete_first_next.induct) auto

lemma deleteNext_written: "b \<noteq> NoBlock \<Longrightarrow> deleteNext (blockToDom V b) = blockToDom V (set_next NoBlock b)"
proof (cases b)
  case (Block i ty ti mu ins nx fl cm)
  let ?kids = "mutation_kids (Block i ty ti mu ins nx fl cm) @ map title_dom ti @ comment_dom V i cm @ concat (map (input_dom V) ins)"
  have "list_all (\<lambda>k. case k of Txt _ \<Rightarrow> True | Elem n _ _ \<Rightarrow> js_toLowerCase n \<noteq> ''next'') (input_dom V x)" for x
    by (cases x) simp
  then have "list_all (\<lambda>k. case k of Txt _ \<Rightarrow> True | Elem n _ _ \<Rightarrow> js_toLowerCase n \<noteq> ''next'') ?kids"
    by (auto simp: list_all_iff mutation_kids_def title_dom_def comment_dom_def split: option.splits prod.splits)
  note keep = delete_first_next_append [OF this]
  have same: "mutation_kids (Block i ty ti mu ins NoBlock fl cm) = mutation_kids (Block i ty ti mu ins nx fl cm)"
    by (simp add: mutation_kids_def mutationToDom_def)
  have dom: "blockToDom V (Block i ty ti mu ins nx' fl cm) =
      Elem ''block'' (block_attrs ty ins fl) (?kids @ (if nx' = NoBlock then [] else [Elem ''next'' [] [blockToDom V nx']]))"
    if "mutation_kids (Block i ty ti mu ins nx' fl cm) = mutation_kids (Block i ty ti mu ins nx fl cm)" for nx'
    using that by simp
  have "delete_first_next (?kids @ (if nx = NoBlock then [] else [Elem ''next'' [] [blockToDom V nx]])) = ?kids @ []"
    unfolding keep by simp
  then have "deleteNext (blockToDom V (Block i ty ti mu ins nx fl cm)) = blockToDom V (Block i ty ti mu ins NoBlock fl cm)"
    unfolding dom [OF refl] dom [OF same] deleteNext.simps by (simp only: if_True simp_thms)
  then show ?thesis using Block by (simp only: set_next_def block.case)
qed simp

lemma loadable_alone: "loadable L b \<Longrightarrow> loadable L (set_next NoBlock b)"
  by (cases b) (auto simp: set_next_def follows_def split: sum.splits)

lemma domToBlock_written:
  "loadable L b \<Longrightarrow> b \<noteq> NoBlock \<Longrightarrow> domToBlock L k (blockToDom V b) = (Inr (plug_block False (fst (renumber k b))), snd (renumber k b))"
proof -
  assume "loadable L b" "b \<noteq> NoBlock"
  moreover have "add_attrs [] (blockToDom V b) = blockToDom V b" by (cases b) simp_all
  ultimately show ?thesis using load_written(1) [of L b "[]" k V] by simp
qed

lemma copy_number: "b \<noteq> NoBlock \<Longrightarrow> b_id (plug_block p (fst (renumber k b))) = Suc k"
  by (cases b) (auto simp: plug_block_def split: prod.split)

text \<open>C37. Duplicating copies a block with all that is in it. On every page the front end can reach, for a
  block that its type can have made, the entry of the menu adds one block to the surface: the same types, titles, inputs and
  children with new numbers, without the blocks that follow, beside and below the original; all other blocks stay as they are.
  Behaviours and triggers are not copied: nothing changes.
\<close>

theorem duplicate_copies:
  assumes "reachable E s" and "b \<noteq> NoBlock" and "loadable (loader_of E s) b"
  shows "if duplicate_allowed s (b_type b)
    then \<exists>t. duplicate E b s = (None, t) \<and>
      a_ws t = a_ws s @ [(plug_block False (fst (renumber (a_uid s) (set_next NoBlock b))),
        fst (position_in E s (b_id b)) + (if v_rtl (e_view E) then - 15 else 15), snd (position_in E s (b_id b)) + 30)]
    else duplicate E b s = (None, s)"
proof (cases "duplicate_allowed s (b_type b)")
  case True
  let ?c = "plug_block False (fst (renumber (a_uid s) (set_next NoBlock b)))" and ?m = "snd (renumber (a_uid s) (set_next NoBlock b))"
  obtain x y where xy: "position_in E s (b_id b) = (x, y)" by force
  let ?u = "s\<lparr>a_ws := a_ws s @ [(?c, 0, 0)], a_uid := ?m\<rparr>" and ?dx = "if v_rtl (e_view E) then - 15 else 15 :: int"
  have id: "b_id ?c = Suc (a_uid s)" using assms(2) by (intro copy_number) simp
  then have "\<forall>t \<in> set (a_ws s). b_id (fst t) \<noteq> b_id ?c" using fresh_number [OF assms(1)] by simp
  then have move: "moveBy (b_id ?c) (x + ?dx, y + 30) ?u = (None, ?u\<lparr>a_ws := a_ws s @ [(?c, x + ?dx, y + 30)]\<rparr>)"
    by (rule moveBy_new) simp
  have "domToBlock (loader_of E s) (a_uid s) (deleteNext (blockToDom (e_view E) b)) = (Inr ?c, ?m)"
    using domToBlock_written [OF loadable_alone [OF assms(3)]] assms(2) by (simp add: deleteNext_written)
  then have "duplicate E b s = moveBy (b_id ?c) (x + ?dx, y + 30) ?u"
    using True xy by (simp add: duplicate_def whens_def reads_def new_block_def SNAP_RADIUS_def)
  then have "duplicate E b s = (None, ?u\<lparr>a_ws := a_ws s @ [(?c, x + ?dx, y + 30)]\<rparr>)" using move by simp
  then show ?thesis unfolding if_P [OF True] xy fst_conv snd_conv by (intro exI conjI) (assumption, simp)
next
  case False
  then show ?thesis by (simp add: duplicate_def whens_def)
qed

theorem duplicate_copies_witness:
  "\<exists>b t. b \<in> set (all_blocks demo_edited) \<and> duplicate demo_E b demo_edited = (None, t) \<and> map (b_id \<circ> fst) (a_ws t) = [7, 13]"
proof -
  let ?b = "Block 12 ''logic_boolean'' [(''BOOL'', ''TRUE'')] (0, 0) [Input [] DummyInput NoBlock] NoBlock (new_flags\<lparr>plugged := True\<rparr>) None"
  have "top_ok (loader_of demo_E demo_edited) (demo_behaviour, 20, 30)" by (rule demo_loads) simp
  then have l: "loadable (loader_of demo_E demo_edited) ?b" by (simp add: top_ok_def demo_behaviour_def)
  have b: "?b \<in> set (all_blocks demo_edited)" by (simp add: all_blocks_def demo_behaviour_def non_null_def)
  have "duplicate_allowed demo_edited (b_type ?b)" by (simp add: duplicate_allowed_def)
  then obtain t where t: "duplicate demo_E ?b demo_edited = (None, t)"
      "a_ws t = a_ws demo_edited @ [(plug_block False (fst (renumber (a_uid demo_edited) (set_next NoBlock ?b))),
        fst (position_in demo_E demo_edited (b_id ?b)) + (if v_rtl (e_view demo_E) then - 15 else 15),
        snd (position_in demo_E demo_edited (b_id ?b)) + 30)]"
    using duplicate_copies [OF demo_reachable _ l] by auto
  have "map (b_id \<circ> fst) (a_ws t) = [7, 13]"
    unfolding t(2) by (simp add: set_next_def plug_block_def) (simp add: demo_behaviour_def)
  then show ?thesis using b t(1) by (intro exI [of _ ?b] exI [of _ t] conjI)
qed

subsection \<open>Where a pasted block goes\<close>

lemma bump_miss: "fst (bump_pass rtl gs p) = False \<Longrightarrow>
    snd (bump_pass rtl gs p) = p \<and> (\<forall>g \<in> set gs. \<not> (\<bar>fst p - fst g\<bar> \<le> 1 \<and> \<bar>snd p - snd g\<bar> \<le> 1))"
  by (induction rtl gs p rule: bump_pass.induct) (auto split: if_splits)

lemma free_spot_free: "g \<in> set gs \<Longrightarrow> \<not> (\<bar>fst (free_spot rtl gs p) - fst g\<bar> \<le> 1 \<and> \<bar>snd (free_spot rtl gs p) - snd g\<bar> \<le> 1)"
proof (induction rtl gs p rule: free_spot.induct)
  case (1 rtl gs p)
  show ?case
  proof (cases "fst (bump_pass rtl gs p)")
    case True
    then show ?thesis using "1.IH" [OF True "1.prems"] by (subst (1 2) free_spot.simps) simp
  next
    case False
    then have "free_spot rtl gs p = p" using bump_miss [of rtl gs p] by (subst free_spot.simps) simp
    then show ?thesis using bump_miss [of rtl gs p] False "1.prems" by simp
  qed
qed

lemma free_spot_below: "snd p \<le> snd (free_spot rtl gs p)"
proof (induction rtl gs p rule: free_spot.induct)
  case (1 rtl gs p)
  then show ?case using bump_down [of p rtl gs] by (subst free_spot.simps) (auto intro: order_trans)
qed

lemma top_numbers: "distinct (all_ids (map fst ws)) \<Longrightarrow> no_null ws \<Longrightarrow> distinct (map (b_id \<circ> fst) ws)"
proof (induction ws)
  case (Cons t ws)
  have "set (map (b_id \<circ> fst) vs) \<subseteq> set (all_ids (map fst vs))" if "no_null vs" for vs
    using that own_id by (fastforce simp: all_ids_def no_null_def list_all_iff)
  then show ?case using Cons own_id [of "fst t"] by auto
qed simp

lemma find_top: "distinct (map (b_id \<circ> fst) ws) \<Longrightarrow> (b, q) \<in> set ws \<Longrightarrow> find (\<lambda>t. b_id (fst t) = b_id b) (ws @ vs) = Some (b, q)"
  by (induction ws) (auto simp: image_iff)

lemma position_of_top:
  assumes "reachable E s" and "(b, q) \<in> set (a_ws s)" and "a_ws u = a_ws s @ vs"
  shows "q \<in> set (all_positions E u)"
proof -
  have "position_in E u (b_id b) = q"
    using find_top [OF top_numbers [OF reachable_ids [OF assms(1)] reachable_real [OF assms(1)]] assms(2)] assms(3)
    by (simp add: position_in_def)
  moreover have "b \<noteq> NoBlock" using reachable_real [OF assms(1)] assms(2) by (auto simp: no_null_def list_all_iff)
  then have "b \<in> set (getDescendants b)" by (cases b) simp_all
  then have "b \<in> set (all_blocks u)"
    using mset_eq_setD [OF mset_getAllBlocks [of "map fst (a_ws u)"]] assms(2,3) by (force simp: all_blocks_def)
  ultimately show ?thesis by (auto simp: all_positions_def)
qed

text \<open>C38. Pasting ends, and the copy covers no block. On every page the front end can reach, if the text on the
  clipboard says where the block was and the limit allows it, pasting it without an exception adds one block to
  the surface, selects it, and leaves it at a place that is more than one pixel from
  every other block of the surface and not above where the original was; a full workspace stays as it is.
\<close>

theorem paste_beside:
  assumes "reachable E s" and "elem x" and "Option.bind (getAttribute x ''x'') js_parseInt = Some c"
    and "Option.bind (getAttribute x ''y'') js_parseInt = Some a" and "paste E x s = (None, t)"
  shows "if fills (elems_below x) (remainingCapacity s) then t = s
    else \<exists>b p. a_ws t = a_ws s @ [(b, p)] \<and> a_selected t = Some (b_id b) \<and> a \<le> snd p \<and>
      (\<forall>(b', q) \<in> set (a_ws s). \<not> (\<bar>fst p - fst q\<bar> \<le> 1 \<and> \<bar>snd p - snd q\<bar> \<le> 1))"
proof (cases "fills (elems_below x) (remainingCapacity s)")
  case True
  then show ?thesis using assms(5) by (simp add: paste_def whens_def)
next
  case False
  let ?rtl = "v_rtl (e_view E)"
  let ?k = "\<lambda>i. seqs [reads (all_positions E) (\<lambda>gs. moveBy i (free_spot ?rtl gs (if ?rtl then - c else c, a))), select i]"
  have run: "new_block E x ?k s = (None, t)" using False assms(3-5) by (simp add: paste_def whens_def)
  obtain r m where d: "domToBlock (loader_of E s) (a_uid s) x = (r, m)" by force
  then obtain b where b: "r = Inr b" using run by (cases r) (auto simp: new_block_def)
  let ?u = "s\<lparr>a_ws := a_ws s @ [(b, 0, 0)], a_uid := m\<rparr>"
  have real: "b \<noteq> NoBlock" using domToBlock_real(1) [of x "loader_of E s" "a_uid s"] assms(2) d b by simp
  have "loaded_within (a_uid s) (Inr b, m)" using domToBlock_ids(1) [of "a_uid s" "loader_of E s" x] d b by (simp add: block_ids_ok_def)
  then have new: "a_uid s < b_id b" using own_id [OF real] by (auto simp: ids_within_def)
  then have fresh: "\<forall>t \<in> set (a_ws s). b_id (fst t) \<noteq> b_id b" using fresh_number [OF assms(1)] by blast
  define p where "p = free_spot ?rtl (all_positions E ?u) (if ?rtl then - c else c, a)"
  have "?k (b_id b) ?u = (None, ?u\<lparr>a_ws := a_ws s @ [(b, p)], a_selected := Some (b_id b)\<rparr>)"
    using moveBy_new [OF fresh, of ?u p] by (simp add: reads_def select_def upd_def p_def)
  then have t: "t = ?u\<lparr>a_ws := a_ws s @ [(b, p)], a_selected := Some (b_id b)\<rparr>" using run d b by (simp add: new_block_def)
  have "q \<in> set (all_positions E ?u)" if "(b', q) \<in> set (a_ws s)" for b' q
    by (rule position_of_top [OF assms(1) that]) simp
  then have "\<forall>(b', q) \<in> set (a_ws s). \<not> (\<bar>fst p - fst q\<bar> \<le> 1 \<and> \<bar>snd p - snd q\<bar> \<le> 1)"
    unfolding p_def using free_spot_free by blast
  moreover have "a \<le> snd p" using free_spot_below [of "(if ?rtl then - c else c, a)" ?rtl "all_positions E ?u"] by (simp add: p_def)
  ultimately show ?thesis unfolding if_not_P [OF False] t by (intro exI [of _ b] exI [of _ p] conjI) simp_all
qed
text \<open>
  The copy of a behaviour can be pasted: the page then holds two behaviours, which the palette and
  the menu of a block prevent.
\<close>

lemma copy_loads:
  assumes "loadable L b" and "b \<noteq> NoBlock"
  shows "domToBlock L k (copy_dom E s b) =
    (Inr (plug_block False (fst (renumber k (set_next NoBlock b)))), snd (renumber k (set_next NoBlock b)))"
  using load_written(1) [OF loadable_alone [OF assms(1)], of _ k "e_view E"] assms(2)
  by (simp add: copy_dom_def deleteNext_written split: prod.split)

lemma demo_copy_at:
  "Option.bind (getAttribute (copy_dom demo_E demo_edited demo_behaviour) ''x'') js_parseInt = Some 20"
  "Option.bind (getAttribute (copy_dom demo_E demo_edited demo_behaviour) ''y'') js_parseInt = Some 30"
proof -
  have "position_in demo_E demo_edited (b_id demo_behaviour) = (20, 30)" by (simp add: position_in_def)
  then show "Option.bind (getAttribute (copy_dom demo_E demo_edited demo_behaviour) ''x'') js_parseInt = Some 20"
      "Option.bind (getAttribute (copy_dom demo_E demo_edited demo_behaviour) ''y'') js_parseInt = Some 30"
    by (simp_all add: copy_dom_def demo_view_def) (simp_all add: demo_behaviour_def getAttribute_def block_attrs_def bool_str_def)
qed

lemma demo_pasted:
  "\<exists>t q. paste demo_E (copy_dom demo_E demo_edited demo_behaviour) demo_edited = (None, t) \<and>
     a_ws t = [(demo_behaviour, 20, 30), (fst (renumber 12 demo_behaviour), q)]"
proof -
  let ?x = "copy_dom demo_E demo_edited demo_behaviour" and ?c = "fst (renumber 12 demo_behaviour)"
  have nb: "demo_behaviour \<noteq> NoBlock" "set_next NoBlock demo_behaviour = demo_behaviour" "plug_block False ?c = ?c"
    by (simp_all add: demo_behaviour_def set_next_def plug_block_def new_flags_def split: prod.split)
  have "loadable (loader_of demo_E demo_edited) demo_behaviour" using demo_loads [of demo_edited] by (simp add: top_ok_def)
  from copy_loads [OF this nb(1)] have d: "domToBlock (loader_of demo_E demo_edited) 12 ?x = (Inr ?c, snd (renumber 12 demo_behaviour))"
    using nb by simp
  have "\<forall>t \<in> set [(demo_behaviour, 20, 30)]. b_id (fst t) \<noteq> b_id ?c" by (simp add: demo_behaviour_def split: prod.split)
  then have fresh: "\<forall>t \<in> set (a_ws demo_edited). b_id (fst t) \<noteq> b_id ?c" by simp
  let ?u = "demo_edited\<lparr>a_ws := a_ws demo_edited @ [(?c, 0, 0)], a_uid := snd (renumber 12 demo_behaviour)\<rparr>"
  define q where "q = free_spot (v_rtl demo_view) (all_positions demo_E ?u) (if v_rtl demo_view then - 20 else 20, 30)"
  have "\<not> fills n (remainingCapacity demo_edited)" for n
    by (simp add: remainingCapacity_def demo_edited_def demo_page_def new_page_def)
  then have "paste demo_E ?x demo_edited = seqs [moveBy (b_id ?c) q, select (b_id ?c)] ?u"
    using d demo_copy_at unfolding q_def paste_def by (simp add: whens_def new_block_def reads_def)
  also have "\<dots> = (None, ?u\<lparr>a_ws := a_ws demo_edited @ [(?c, q)], a_selected := Some (b_id ?c)\<rparr>)"
    using moveBy_new [OF fresh, of ?u q] by (simp add: select_def upd_def)
  finally show ?thesis by simp
qed

theorem paste_beside_witness:
  "\<exists>t b p. paste demo_E (copy_dom demo_E demo_edited demo_behaviour) demo_edited = (None, t) \<and>
    a_ws t = [(demo_behaviour, 20, 30), (b, p)] \<and> \<not> (\<bar>fst p - 20\<bar> \<le> 1 \<and> \<bar>snd p - 30\<bar> \<le> 1)"
proof -
  let ?x = "copy_dom demo_E demo_edited demo_behaviour"
  obtain t where t: "paste demo_E ?x demo_edited = (None, t)" using demo_pasted by blast
  have "elem ?x" by (rule copy_elem) (simp add: demo_behaviour_def)
  moreover have "\<not> fills n (remainingCapacity demo_edited)" for n
    by (simp add: remainingCapacity_def demo_edited_def demo_page_def new_page_def)
  ultimately obtain b p where "a_ws t = a_ws demo_edited @ [(b, p)]"
      "\<forall>(b', q) \<in> set (a_ws demo_edited). \<not> (\<bar>fst p - fst q\<bar> \<le> 1 \<and> \<bar>snd p - snd q\<bar> \<le> 1)"
    using paste_beside [OF demo_reachable _ demo_copy_at t] by auto
  then show ?thesis using t by (intro exI [of _ t] exI [of _ b] exI [of _ p] conjI) simp_all
qed

lemma pasted_behaviour_doubles:
  "\<exists>t. onKeyDown demo_E 86 True (Some (copy_dom demo_E demo_edited demo_behaviour), demo_edited) =
       (None, Some (copy_dom demo_E demo_edited demo_behaviour), t) \<and>
     list_all (is_behaviour \<circ> fst) (a_ws t) \<and> length (a_ws t) = 2"
proof -
  obtain t q where t: "paste demo_E (copy_dom demo_E demo_edited demo_behaviour) demo_edited = (None, t)"
     "a_ws t = [(demo_behaviour, 20, 30), (fst (renumber 12 demo_behaviour), q)]"
    using demo_pasted by blast
  have "is_behaviour (fst (renumber 12 demo_behaviour))"
    by (simp add: is_behaviour_def demo_behaviour_def split: prod.split)
  then show ?thesis using t by (simp add: onKeyDown_def Let_def)
qed
end
