(* ===== verification/TestMode.thy ===== *)
theory TestMode
  imports Editing Modes
begin

text \<open>
  The limit on blocks in test mode: \<open>enterTestMode\<close> empties the workspace and sets its capacity to
  one block, and the palette, the menu of a block and the clipboard respect it.
\<close>

definition shape :: "app \<Rightarrow> top list \<times> capacity" where
  "shape s = (a_ws s, a_max s)"

lemma shape_steps:
  "frames shape (show_el E i)" "frames shape (hide_el E i)" "frames shape (toggle_el E i)" "frames shape (setTimeout ms tm)"
  "frames shape (happens ef)" "frames shape (addClass cl)" "frames shape (removeClass cl)"
  "frames shape (upd (\<lambda>s. s\<lparr>a_testMode := m\<rparr>))" "frames shape (upd (\<lambda>s. s\<lparr>a_openToolbox := q\<rparr>))"
  unfolding show_el_def hide_el_def toggle_el_def setTimeout_def happens_def addClass_def removeClass_def
  by (rule frames_upd; simp add: shape_def)+

lemma shape_test_end: "frames shape (test_end E butia)"
proof -
  have "frames shape a" if "a \<in> set (test_toggles E)" for a
    using that unfolding test_toggles_def slideToolbox_def
    by (auto split: if_splits intro!: shape_steps frames_rules)
  then show ?thesis unfolding test_end_def by (intro frames_seqs) (auto intro!: shape_steps frames_rules)
qed

lemma enterTestMode_shape: "enterTestMode True s = (None, t) \<Longrightarrow> shape t = ([], MaxNumber 1)"
  by (auto simp: enterTestMode_def dispose_cats_def set_max_def clear_ws_def put_ws_def shape_def act_simps split: if_splits)

lemma robotest_shape:
  assumes "robotest E s = (None, t)" and "butia_selected E s = None"
  shows "shape t = ([], MaxNumber 1)"
proof -
  define s0 where "s0 = s\<lparr>a_armed := (a_armed s)(''btn_robotest'' := False)\<rparr>"
  have "all_blocks s0 = all_blocks s" "a_selected s0 = a_selected s" by (simp_all add: s0_def all_blocks_def)
  then have "butia_selected E s0 = None" using assms(2) by (simp only: butia_selected_def selected_block_def)
  then have run: "seqs [test_start E None, test_end E None] s0 = (None, t)"
    using assms(1) by (simp only: robotest_phases Let_def flip: s0_def)
  then obtain s1 where s1: "test_start E None s0 = (None, s1)" "test_end E None s1 = (None, t)"
    by (auto split: prod.splits option.splits)
  then obtain u where "enterTestMode True u = (None, s1)"
    by (auto simp: test_start_def split: prod.splits option.splits)
  then have "shape s1 = ([], MaxNumber 1)" by (rule enterTestMode_shape)
  then show ?thesis using framesD [OF shape_test_end s1(2)] by simp
qed

lemma editing_within:
  assumes "(edits E pal)\<^sup>*\<^sup>* (clip, s) (clip', t)" and "reachable E s" and "clip_ok clip" and "within n s" and "0 < n"
    and "\<forall>fb \<in> pal. getDescendants fb = [fb]"
  shows "within n t"
proof -
  have "reachable E t \<and> clip_ok clip' \<and> within n t"
    using assms
  proof (induction "(clip', t)" arbitrary: clip' t rule: rtranclp_induct)
    case (step st)
    obtain c u where "st = (c, u)" by force
    then show ?case using step edits_keep [of E pal c u clip' t] edits_within [of E pal c u clip' t n] by blast
  qed simp
  then show ?thesis by blast
qed


lemma bxReady_empty: "a_ws s = [] \<Longrightarrow> a_ws (snd (bxReady E s)) = [] \<and> a_cats (snd (bxReady E s)) = a_cats s"
  by (simp add: bxReady_def debounced_def leaveOnlyBehavioursInWspace_def kept_tops_def put_ws_def disarm_def first_block_def
      setTimeout_def act_simps)

lemma test_start_empty:
  assumes "a_ws s = []" and "length (a_cats s) = 6"
  shows "\<exists>t. test_start E None s = (None, t)"
proof -
  obtain e u where u: "bxReady E s = (e, u)" by force
  then have "a_cats u = a_cats s" using bxReady_empty [OF assms(1), of E] by simp
  then show ?thesis
    using u assms(2)
    by (auto simp: test_start_def enterTestMode_def hide_el_def dispose_cats_def set_max_def clear_ws_def put_ws_def act_simps)
qed

lemma demo_robotest: "\<exists>t. robotest demo_E demo_page = (None, t)"
proof -
  define s0 where "s0 = demo_page\<lparr>a_armed := (a_armed demo_page)(''btn_robotest'' := False)\<rparr>"
  have b: "butia_selected demo_E s0 = None" "a_ws s0 = []" "length (a_cats s0) = 6"
    by (simp_all add: s0_def demo_page_def new_page_def butia_selected_def selected_block_def)
  obtain s1 where s1: "test_start demo_E None s0 = (None, s1)" using test_start_empty [OF b(2,3)] by blast
  let ?s2 = "s1\<lparr>a_testMode := True\<rparr>"
  obtain s3 where s3: "seqs (test_toggles demo_E) ?s2 = (None, s3)" using test_toggles_shows [OF displays_self] by blast
  have "\<exists>t. test_end demo_E None s1 = (None, t)"
    using s3 by (simp add: test_end_def upd_def seqs_append toggle_one whens_def setTimeout_def)
  then show ?thesis
    using s1 b(1) by (simp only: robotest_phases Let_def flip: s0_def) auto
qed


end
