(* ===== verification/Connections.thy ===== *)
theory Connections
  imports Editing
begin

text \<open>
  Connections (\<open>Blockly.Connection\<close>): what a block that is dragged may be connected to (the filter of
  \<open>closest\<close>, with the check of types) and what connecting does (\<open>connect\<close>), where the block that was in
  the place is reattached below the new one if there is one way to do it. The lemmas say that
  connecting keeps every tree such as its types can make it, with every value of a type its socket takes.
\<close>

subsection \<open>Connections and their checks\<close>

text \<open>The connections of the block with a number; a socket is given by its index in \<open>inputList\<close>.\<close>

datatype conn = Output nat | Previous nat | Next nat | Socket nat nat

primrec conn_block :: "conn \<Rightarrow> nat" where
  "conn_block (Output i) = i"
| "conn_block (Previous i) = i"
| "conn_block (Next i) = i"
| "conn_block (Socket i j) = i"

datatype ckind = INPUT_VALUE | OUTPUT_VALUE | NEXT_STATEMENT | PREVIOUS_STATEMENT

primrec OPPOSITE_TYPE :: "ckind \<Rightarrow> ckind" where
  "OPPOSITE_TYPE INPUT_VALUE = OUTPUT_VALUE"
| "OPPOSITE_TYPE OUTPUT_VALUE = INPUT_VALUE"
| "OPPOSITE_TYPE NEXT_STATEMENT = PREVIOUS_STATEMENT"
| "OPPOSITE_TYPE PREVIOUS_STATEMENT = NEXT_STATEMENT"

definition isSuperior :: "ckind \<Rightarrow> bool" where
  "isSuperior k \<longleftrightarrow> k = INPUT_VALUE \<or> k = NEXT_STATEMENT"

text \<open>
  The connections a block has (\<open>getConnections_\<close>). A block has an output or a previous connection,
  never both: \<open>setOutput\<close> and \<open>setPreviousStatement\<close> assert it.
\<close>

definition has_next :: "loader \<Rightarrow> string \<Rightarrow> bool" where
  "has_next L ty = (case l_proto L ty of Inl _ \<Rightarrow> False | Inr p \<Rightarrow> p_next p)"

definition conn_type :: "loader \<Rightarrow> block \<Rightarrow> conn \<Rightarrow> ckind option" where
  "conn_type L b c = (case c of
     Output i \<Rightarrow> if has_out L (b_type b) then Some OUTPUT_VALUE else None
   | Previous i \<Rightarrow> if has_prev L (b_type b) \<and> \<not> has_out L (b_type b) then Some PREVIOUS_STATEMENT else None
   | Next i \<Rightarrow> if has_next L (b_type b) then Some NEXT_STATEMENT else None
   | Socket i j \<Rightarrow> if j < length (b_inputs b) then
         (case i_kind (b_inputs b ! j) of ValueInput \<Rightarrow> Some INPUT_VALUE | StatementInput \<Rightarrow> Some NEXT_STATEMENT | DummyInput \<Rightarrow> None)
       else None)"

text \<open>\<open>check_\<close>: what an output gives and what a socket takes. The sockets of the if mutation take \<open>'Boolean'\<close>.\<close>

definition out_check :: "loader \<Rightarrow> string \<Rightarrow> string option" where
  "out_check L ty = (case l_proto L ty of Inl _ \<Rightarrow> None | Inr p \<Rightarrow> p_outcheck p)"

definition socket_check :: "loader \<Rightarrow> string \<Rightarrow> input list \<Rightarrow> nat \<Rightarrow> string option" where
  "socket_check L ty ins j = (case l_proto L ty of Inl _ \<Rightarrow> None
     | Inr p \<Rightarrow> if j < length (p_inputs p) then pi_check (p_inputs p ! j)
                else if i_kind (ins ! j) = ValueInput then Some ''Boolean'' else None)"

definition conn_check :: "loader \<Rightarrow> block \<Rightarrow> conn \<Rightarrow> string option" where
  "conn_check L b c = (case c of Output i \<Rightarrow> out_check L (b_type b)
     | Socket i j \<Rightarrow> socket_check L (b_type b) (b_inputs b) j | _ \<Rightarrow> None)"

fun checkType :: "string option \<Rightarrow> string option \<Rightarrow> bool" where
  "checkType (Some x) (Some y) = (x = y)"
| "checkType _ _ = True"

lemma checkType_sym: "checkType x y = checkType y x"
  by (cases x; cases y) auto

subsection \<open>What may be connected\<close>

definition block_at :: "nat \<Rightarrow> top list \<Rightarrow> block option" where
  "block_at i ws = find (\<lambda>b. b_id b = i) (getAllBlocks (map fst ws))"

text \<open>\<open>targetBlock()\<close> of a connection downwards.\<close>

definition conn_target :: "block \<Rightarrow> conn \<Rightarrow> block" where
  "conn_target b c = (case c of Next i \<Rightarrow> b_next b | Socket i j \<Rightarrow> i_target (b_inputs b ! j) | _ \<Rightarrow> NoBlock)"

definition connected :: "top list \<Rightarrow> block \<Rightarrow> conn \<Rightarrow> bool" where
  "connected ws b c = (case c of Output i \<Rightarrow> \<not> on_surface i ws | Previous i \<Rightarrow> \<not> on_surface i ws | _ \<Rightarrow> conn_target b c \<noteq> NoBlock)"

text \<open>
  What \<open>closest\<close> does not pass over, whatever the distance: a connection of the opposite type that takes the type,
  not below the block, and not in use if it is an output or a previous connection. A connection of the
  block that is in use finds nothing. (Which of them is near, and shown, is up to the drawing.)
\<close>

definition closest_offers :: "loader \<Rightarrow> top list \<Rightarrow> conn \<Rightarrow> conn \<Rightarrow> bool" where
  "closest_offers L ws l h = (case (block_at (conn_block l) ws, block_at (conn_block h) ws) of
     (Some lb, Some hb) \<Rightarrow> (case (conn_type L lb l, conn_type L hb h) of
        (Some x, Some y) \<Rightarrow> \<not> connected ws lb l \<and> y = OPPOSITE_TYPE x \<and> (isSuperior y \<or> \<not> connected ws hb h) \<and>
          checkType (conn_check L lb l) (conn_check L hb h) \<and> conn_block h \<notin> set (map b_id (getDescendants lb))
      | _ \<Rightarrow> False)
   | _ \<Rightarrow> False)"

text \<open>What \<open>connect\<close> throws; the cases that \<open>closest\<close> excludes.\<close>

definition connect_error :: "loader \<Rightarrow> top list \<Rightarrow> conn \<Rightarrow> conn \<Rightarrow> exn option" where
  "connect_error L ws l h = (case (block_at (conn_block l) ws, block_at (conn_block h) ws) of
     (Some lb, Some hb) \<Rightarrow>
       if conn_block l = conn_block h then Some (Thrown ''Attempted to connect a block to itself.'')
       else if map_option OPPOSITE_TYPE (conn_type L lb l) \<noteq> conn_type L hb h then Some (Thrown ''Attempt to connect incompatible types.'')
       else if conn_type L lb l \<in> {Some INPUT_VALUE, Some OUTPUT_VALUE} then
         (if connected ws lb l then Some (Thrown ''Source connection already connected (value).'') else None)
       else if connected ws lb l then Some (Thrown ''Source connection already connected (block).'')
       else if connected ws hb h \<and> conn_type L lb l \<noteq> Some PREVIOUS_STATEMENT then
         Some (Thrown ''Can only do a mid-stack connection with the top of a block.'')
       else None
   | _ \<Rightarrow> None)"

subsection \<open>Connecting\<close>

definition plug_in :: "conn \<Rightarrow> block \<Rightarrow> block \<Rightarrow> block" where
  "plug_in c x b = (case b of NoBlock \<Rightarrow> NoBlock
     | Block i ty ti mu ins nx fl cm \<Rightarrow> (case c of
         Next _ \<Rightarrow> Block i ty ti mu ins x fl cm
       | Socket _ j \<Rightarrow> Block i ty ti mu (ins[j := Input (i_name (ins ! j)) (i_kind (ins ! j)) x]) nx fl cm
       | _ \<Rightarrow> b))"

text \<open>\<open>singleConnection_\<close>: the one socket that takes the type, if there is exactly one.\<close>

definition singleConnection :: "loader \<Rightarrow> string \<Rightarrow> input list \<Rightarrow> block \<Rightarrow> nat option" where
  "singleConnection L ty ins b =
     (case filter (\<lambda>j. i_kind (ins ! j) = ValueInput \<and> checkType (out_check L (b_type b)) (socket_check L ty ins j)) [0..<length ins] of
        [j] \<Rightarrow> Some j | _ \<Rightarrow> None)"

lemma singleConnection_Some: "singleConnection L ty ins b = Some j \<Longrightarrow>
    j < length ins \<and> i_kind (ins ! j) = ValueInput \<and> checkType (out_check L (b_type b)) (socket_check L ty ins j)"
proof -
  assume "singleConnection L ty ins b = Some j"
  then have "filter (\<lambda>j. i_kind (ins ! j) = ValueInput \<and> checkType (out_check L (b_type b)) (socket_check L ty ins j)) [0..<length ins] = [j]"
    by (auto simp: singleConnection_def split: list.splits)
  then have "j \<in> set (filter (\<lambda>j. i_kind (ins ! j) = ValueInput \<and> checkType (out_check L (b_type b)) (socket_check L ty ins j)) [0..<length ins])"
    by simp
  then show ?thesis by simp
qed

lemma size_nth_input: "j < length ins \<Longrightarrow> size (i_target (ins ! j)) < Suc (size_list size ins + k)"
proof -
  assume "j < length ins"
  then have "size (ins ! j) \<le> size_list size ins" by (intro size_list_estimation' [of "ins ! j"]) simp_all
  moreover have "size (i_target x) \<le> size x" for x by (cases x) simp
  ultimately show ?thesis by (meson le_imp_less_Suc le_trans trans_le_add1)
qed

text \<open>The block that was in the socket goes down the chain of single sockets; \<open>None\<close> if that ends without a free one.\<close>

function heal_value :: "loader \<Rightarrow> block \<Rightarrow> block \<Rightarrow> block option" where
  "heal_value L o1 NoBlock = None"
| "heal_value L o1 (Block i ty ti mu ins nx fl cm) =
     (case singleConnection L ty ins o1 of None \<Rightarrow> None
      | Some j \<Rightarrow>
          if i_target (ins ! j) = NoBlock then Some (plug_in (Socket i j) (plug_block True o1) (Block i ty ti mu ins nx fl cm))
          else map_option (\<lambda>t. plug_in (Socket i j) t (Block i ty ti mu ins nx fl cm)) (heal_value L o1 (i_target (ins ! j))))"
  by pat_completeness auto
termination
proof (relation "measure (\<lambda>(L, o1, b). size b)", goal_cases)
  case (2 L o1 i ty ti mu ins nx fl cm j)
  then have "j < length ins" using singleConnection_Some by blast
  then show ?case using size_nth_input by simp
qed simp

text \<open>The blocks after the place go to the end of the stack, if it has one.\<close>

fun heal_stack :: "loader \<Rightarrow> block \<Rightarrow> block \<Rightarrow> block option" where
  "heal_stack L o1 NoBlock = None"
| "heal_stack L o1 (Block i ty ti mu ins nx fl cm) =
     (if \<not> has_next L ty then None
      else if nx = NoBlock then Some (Block i ty ti mu ins o1 fl cm)
      else map_option (\<lambda>n. Block i ty ti mu ins n fl cm) (heal_stack L o1 nx))"

definition is_value :: "block \<Rightarrow> conn \<Rightarrow> bool" where
  "is_value b c = (case c of Output i \<Rightarrow> True | Socket i j \<Rightarrow> i_kind (b_inputs b ! j) = ValueInput | _ \<Rightarrow> False)"

text \<open>
  A block on the surface takes its place below another: in the tree of the other it is plugged
  in, and from the surface it is gone.
\<close>

definition place :: "block \<Rightarrow> conn \<Rightarrow> nat \<Rightarrow> block \<Rightarrow> top list \<Rightarrow> top list" where
  "place par c i x ws =
     map (\<lambda>(u, xy). (swap (plug_in c (plug_block (is_value par c) x)) (conn_block c) u, xy)) (filter (\<lambda>t. b_id (fst t) \<noteq> i) ws)"

definition healed :: "loader \<Rightarrow> bool \<Rightarrow> block \<Rightarrow> block \<Rightarrow> block option" where
  "healed L val old b = (if old = NoBlock then Some b else if val then heal_value L old b else heal_stack L old b)"

definition connect :: "loader \<Rightarrow> (nat \<Rightarrow> int \<times> int) \<Rightarrow> top list \<Rightarrow> conn \<Rightarrow> conn \<Rightarrow> top list" where
  "connect L pos ws l h = (case (block_at (conn_block l) ws, block_at (conn_block h) ws) of
     (Some lb, Some hb) \<Rightarrow>
       if map_option isSuperior (conn_type L lb l) = Some True then place lb l (conn_block h) hb ws
       else (let old = conn_target hb h in
         (case healed L (is_value hb h) old lb of
            Some d \<Rightarrow> place hb h (conn_block l) d ws
          | None \<Rightarrow> place hb h (conn_block l) lb ws @ [(plug_block False old, pos (b_id old))]))
   | _ \<Rightarrow> ws)"

subsection \<open>Well-typed blocks\<close>

text \<open>Every value is of a type its socket takes.\<close>

definition node_typed :: "loader \<Rightarrow> string \<Rightarrow> input list \<Rightarrow> bool" where
  "node_typed L ty ins \<longleftrightarrow> list_all (\<lambda>j. i_kind (ins ! j) = ValueInput \<and> i_target (ins ! j) \<noteq> NoBlock \<longrightarrow>
     checkType (out_check L (b_type (i_target (ins ! j)))) (socket_check L ty ins j)) [0..<length ins]"

fun typed :: "loader \<Rightarrow> block \<Rightarrow> bool" and typed_ins :: "loader \<Rightarrow> input list \<Rightarrow> bool" where
  "typed L NoBlock = True"
| "typed L (Block i ty ti mu ins nx fl cm) \<longleftrightarrow> node_typed L ty ins \<and> typed_ins L ins \<and> typed L nx"
| "typed_ins L [] = True"
| "typed_ins L (Input n k t # ins) \<longleftrightarrow> typed L t \<and> typed_ins L ins"

definition sound :: "loader \<Rightarrow> block \<Rightarrow> bool" where
  "sound L b \<longleftrightarrow> loadable L b \<and> typed L b"

definition node_sound :: "loader \<Rightarrow> string \<Rightarrow> (string \<times> string) list \<Rightarrow> nat \<times> nat \<Rightarrow> input list \<Rightarrow> block \<Rightarrow> flags \<Rightarrow> bool" where
  "node_sound L ty ti mu ins nx fl \<longleftrightarrow> ty \<noteq> [] \<and> node_typed L ty ins \<and>
     (\<exists>p. l_proto L ty = Inr p \<and> node_loadable L p ty ti mu ins fl \<and> follows L p nx)"

lemma loadable_ins_all: "loadable_ins L ins \<longleftrightarrow> (\<forall>x \<in> set ins. fits L (i_kind x) (i_target x) \<and> loadable L (i_target x))"
proof (induction ins)
  case (Cons x ins)
  then show ?case by (cases x) auto
qed simp

lemma typed_ins_all: "typed_ins L ins \<longleftrightarrow> (\<forall>x \<in> set ins. typed L (i_target x))"
proof (induction ins)
  case (Cons x ins)
  then show ?case by (cases x) auto
qed simp

lemma sound_simps [simp]:
  "sound L NoBlock"
  "sound L (Block i ty ti mu ins nx fl cm) \<longleftrightarrow> node_sound L ty ti mu ins nx fl \<and>
     (\<forall>x \<in> set ins. fits L (i_kind x) (i_target x) \<and> sound L (i_target x)) \<and> sound L nx"
  by (auto simp: sound_def node_sound_def loadable_ins_all typed_ins_all split: sum.splits)

text \<open>A block with the same face as another, or none, fits wherever that fits.\<close>

definition alike :: "block \<Rightarrow> block \<Rightarrow> bool" where
  "alike b b' \<longleftrightarrow> b' = NoBlock \<or> (b \<noteq> NoBlock \<and> b_type b' = b_type b \<and> plugged (b_flags b') = plugged (b_flags b))"

lemma alike_same [simp]: "alike b b" "alike b NoBlock"
  by (simp_all add: alike_def)

lemma alike_fits: "alike b b' \<Longrightarrow> fits L k b \<Longrightarrow> fits L k b'"
  by (cases b; cases b') (auto simp: alike_def fits_def)

lemma alike_follows: "alike b b' \<Longrightarrow> follows L p b \<Longrightarrow> follows L p b'"
  by (cases b; cases b') (auto simp: alike_def follows_def)

definition inputs_alike :: "input list \<Rightarrow> input list \<Rightarrow> bool" where
  "inputs_alike ins ins' \<longleftrightarrow> list_all2 (\<lambda>x y. input_shape y = input_shape x) ins ins'"

lemma inputs_alike_facts:
  assumes "inputs_alike ins ins'"
  shows "map input_shape ins' = map input_shape ins" "map i_kind ins' = map i_kind ins" "map i_name ins' = map i_name ins"
    "real_names ins' = real_names ins" "length ins' = length ins"
proof -
  show shape: "map input_shape ins' = map input_shape ins" and len: "length ins' = length ins"
    using assms by (auto simp: inputs_alike_def list_eq_iff_nth_eq list_all2_conv_all_nth)
  from arg_cong [OF shape, of "map snd"] show "map i_kind ins' = map i_kind ins" by (simp add: o_def input_shape_def)
  from arg_cong [OF shape, of "map fst"] show "map i_name ins' = map i_name ins" by (simp add: o_def input_shape_def)
  have "real_names ins = map fst (filter (\<lambda>s. snd s \<noteq> DummyInput) (map input_shape ins))" for ins
    by (simp add: real_names_def filter_map o_def input_shape_def)
  then show "real_names ins' = real_names ins" using shape by simp
qed

lemma all_shapes: "map input_shape ins' = map input_shape ins \<Longrightarrow>
    list_all (\<lambda>i. P (i_name i) (i_kind i)) ins' = list_all (\<lambda>i. P (i_name i) (i_kind i)) ins"
proof -
  assume "map input_shape ins' = map input_shape ins"
  moreover have "list_all (\<lambda>i. P (i_name i) (i_kind i)) ins = list_all (\<lambda>s. P (fst s) (snd s)) (map input_shape ins)" for ins
    by (simp add: list.pred_map o_def input_shape_def)
  ultimately show ?thesis by simp
qed

lemma node_loadable_alike:
  assumes "inputs_alike ins ins'"
  shows "node_loadable L p ty ti mu ins' fl = node_loadable L p ty ti mu ins fl"
proof -
  note same = inputs_alike_facts [OF assms]
  have "list_all (\<lambda>i. i_kind i = DummyInput \<longrightarrow> i_name i = []) ins' = list_all (\<lambda>i. i_kind i = DummyInput \<longrightarrow> i_name i = []) ins"
    "list_ex (\<lambda>i. i_kind i = ValueInput) ins' = list_ex (\<lambda>i. i_kind i = ValueInput) ins"
    using all_shapes [OF same(1), of "\<lambda>n k. k = DummyInput \<longrightarrow> n = []"] all_shapes [OF same(1), of "\<lambda>n k. k \<noteq> ValueInput"]
    by (simp, unfold list_ex_iff list_all_iff, blast)
  then show ?thesis using same by (simp add: node_loadable_def)
qed

lemma socket_check_alike: "inputs_alike ins ins' \<Longrightarrow> j < length ins \<Longrightarrow> socket_check L ty ins' j = socket_check L ty ins j"
  using inputs_alike_facts(2) by (auto simp: socket_check_def list_eq_iff_nth_eq split: sum.split)

lemma node_sound_alike:
  assumes s: "node_sound L ty ti mu ins nx fl" and i: "inputs_alike ins ins'"
    and t: "\<And>j. j < length ins \<Longrightarrow> alike (i_target (ins ! j)) (i_target (ins' ! j))" and n: "alike nx nx'"
  shows "node_sound L ty ti mu ins' nx' fl"
proof -
  have "node_typed L ty ins'"
    unfolding node_typed_def list_all_length
  proof (clarsimp simp: inputs_alike_facts(5) [OF i])
    fix j
    assume j: "j < length ins" and k: "i_kind (ins' ! j) = ValueInput" and real: "i_target (ins' ! j) \<noteq> NoBlock"
    have "i_kind (ins ! j) = ValueInput" using inputs_alike_facts(2) [OF i] j k by (metis inputs_alike_facts(5) [OF i] nth_map)
    moreover have "i_target (ins ! j) \<noteq> NoBlock" "b_type (i_target (ins' ! j)) = b_type (i_target (ins ! j))"
      using t [OF j] real by (auto simp: alike_def)
    ultimately show "checkType (out_check L (b_type (i_target (ins' ! j)))) (socket_check L ty ins' j)"
      using s j socket_check_alike [OF i j] by (simp add: node_sound_def node_typed_def list_all_length)
  qed
  then show ?thesis using s n alike_follows node_loadable_alike [OF i] by (auto simp: node_sound_def)
qed

text \<open>Replacing a block by one alike, or taking it out, somewhere below.\<close>

lemma sound_swap:
  "sound L t \<Longrightarrow> (\<And>b. b \<in> set (getDescendants t) \<Longrightarrow> b_id b = i \<Longrightarrow> sound L b \<Longrightarrow> sound L (f b) \<and> alike b (f b)) \<Longrightarrow>
     sound L (swap f i t) \<and> alike t (swap f i t)"
  and "sound L (i_target x) \<Longrightarrow> (\<And>b. b \<in> set (getDescendants (i_target x)) \<Longrightarrow> b_id b = i \<Longrightarrow> sound L b \<Longrightarrow> sound L (f b) \<and> alike b (f b)) \<Longrightarrow>
     sound L (swap f i (i_target x)) \<and> alike (i_target x) (swap f i (i_target x))"
proof (induction t and x)
  case (Block j ty ti mu ins nx fl cm)
  show ?case
  proof (cases "i = j")
    case True
    then show ?thesis using Block.prems(2) [of "Block j ty ti mu ins nx fl cm"] Block.prems(1) by simp
  next
    case False
    have kid: "sound L (swap f i (i_target x)) \<and> alike (i_target x) (swap f i (i_target x))" if "x \<in> set ins" for x
      using Block.IH(1) [OF that] Block.prems that by (auto simp: descendants_input)
    have nx: "sound L (swap f i nx) \<and> alike nx (swap f i nx)" using Block.IH(2) Block.prems by auto
    have shape: "i_name (cut_input f i x) = i_name x" "i_kind (cut_input f i x) = i_kind x" for x by (cases x; simp)+
    have "inputs_alike ins (map (cut_input f i) ins)" by (auto simp: inputs_alike_def list_all2_conv_all_nth input_shape_def shape)
    then have "node_sound L ty ti mu (map (cut_input f i) ins) (swap f i nx) fl"
      using node_sound_alike [of L ty ti mu ins nx fl "map (cut_input f i) ins" "swap f i nx"] Block.prems(1) kid nx by simp
    moreover have "fits L (i_kind x) (swap f i (i_target x))" if "x \<in> set ins" for x
      by (rule alike_fits [of "i_target x"]) (use Block.prems(1) kid [OF that] that in auto)
    ultimately show ?thesis using False kid nx by (simp add: shape alike_def)
  qed
qed simp_all

lemma sound_below: "sound L t \<Longrightarrow> b \<in> set (getDescendants t) \<Longrightarrow> sound L b"
  and "sound L (i_target x) \<Longrightarrow> b \<in> set (getDescendants (i_target x)) \<Longrightarrow> sound L b"
  by (induction t and x) (auto simp: descendants_input)

subsection \<open>Plugging in\<close>

text \<open>What a connection downwards takes.\<close>

definition takes :: "loader \<Rightarrow> block \<Rightarrow> conn \<Rightarrow> block \<Rightarrow> bool" where
  "takes L b c x \<longleftrightarrow> x \<noteq> NoBlock \<and> sound L x \<and> (case conn_type L b c of
      Some INPUT_VALUE \<Rightarrow> has_out L (b_type x) \<and> plugged (b_flags x) \<and> checkType (out_check L (b_type x)) (conn_check L b c)
    | Some NEXT_STATEMENT \<Rightarrow> has_prev L (b_type x) \<and> \<not> has_out L (b_type x) \<and> \<not> plugged (b_flags x)
    | _ \<Rightarrow> False)"

lemma plug_in_alike: "alike b (plug_in c x b)"
  by (cases b) (auto simp: plug_in_def alike_def split: conn.split)

lemma fits_statement: "has_prev L (b_type x) \<Longrightarrow> \<not> has_out L (b_type x) \<Longrightarrow> \<not> plugged (b_flags x) \<Longrightarrow> x \<noteq> NoBlock \<Longrightarrow> fits L StatementInput x"
  by (cases x) (simp_all add: fits_def)

lemma fits_value: "has_out L (b_type x) \<Longrightarrow> plugged (b_flags x) \<Longrightarrow> x \<noteq> NoBlock \<Longrightarrow> fits L ValueInput x"
  by (cases x) (simp_all add: fits_def)

lemma sound_plug_next:
  assumes "sound L (Block i ty ti mu ins nx fl cm)" and "takes L (Block i ty ti mu ins nx fl cm) (Next k) x"
  shows "sound L (Block i ty ti mu ins x fl cm)"
proof -
  have x: "has_next L ty" "has_prev L (b_type x)" "\<not> plugged (b_flags x)" "x \<noteq> NoBlock" "sound L x"
    using assms(2) by (auto simp: takes_def conn_type_def split: if_splits)
  obtain p where p: "l_proto L ty = Inr p" "node_loadable L p ty ti mu ins fl"
    using assms(1) by (auto simp: node_sound_def)
  have "follows L p x" using x p(1) by (cases x) (auto simp: follows_def has_next_def)
  then show ?thesis using assms(1) p x(5) by (auto simp: node_sound_def)
qed

lemma sound_plug_socket:
  assumes s: "sound L (Block i ty ti mu ins nx fl cm)" and t: "takes L (Block i ty ti mu ins nx fl cm) (Socket k j) x"
  shows "sound L (Block i ty ti mu (ins[j := Input (i_name (ins ! j)) (i_kind (ins ! j)) x]) nx fl cm)"
proof -
  let ?ins = "ins[j := Input (i_name (ins ! j)) (i_kind (ins ! j)) x]"
  have j: "j < length ins" and x: "x \<noteq> NoBlock" "sound L x" using t by (auto simp: takes_def conn_type_def split: if_splits)
  have kind: "i_kind (ins ! j) = ValueInput \<and> has_out L (b_type x) \<and> plugged (b_flags x) \<and> checkType (out_check L (b_type x)) (socket_check L ty ins j)
      \<or> i_kind (ins ! j) = StatementInput \<and> has_prev L (b_type x) \<and> \<not> has_out L (b_type x) \<and> \<not> plugged (b_flags x)"
    using t j by (auto simp: takes_def conn_type_def conn_check_def split: ikind.splits)
  have alike: "inputs_alike ins ?ins" using j by (auto simp: inputs_alike_def list_all2_conv_all_nth input_shape_def nth_list_update)
  have "node_typed L ty ?ins"
    unfolding node_typed_def list_all_length
  proof (clarsimp)
    fix m
    assume m: "m < length ins" "i_kind (?ins ! m) = ValueInput" "i_target (?ins ! m) \<noteq> NoBlock"
    then show "checkType (out_check L (b_type (i_target (?ins ! m)))) (socket_check L ty ?ins m)"
      using s kind j socket_check_alike [OF alike m(1)] by (cases "m = j") (auto simp: node_sound_def node_typed_def list_all_length)
  qed
  then have "node_sound L ty ti mu ?ins nx fl" using s node_loadable_alike [OF alike] by (auto simp: node_sound_def)
  moreover have "fits L (i_kind (ins ! j)) x" using kind fits_value fits_statement x(1) by metis
  then have "\<forall>y \<in> set ?ins. fits L (i_kind y) (i_target y) \<and> sound L (i_target y)"
    using s x(2) by (auto dest!: set_update_subset_insert [THEN subsetD])
  ultimately show ?thesis using s by simp
qed

lemma sound_plug_in: "sound L b \<Longrightarrow> takes L b c x \<Longrightarrow> sound L (plug_in c x b)"
proof (cases b)
  case (Block i ty ti mu ins nx fl cm)
  assume s: "sound L b" and t: "takes L b c x"
  show ?thesis
  proof (cases c)
    case (Next k)
    then show ?thesis using sound_plug_next s t unfolding Block plug_in_def by (simp only: block.case conn.case)
  next
    case (Socket k j)
    then show ?thesis using sound_plug_socket s t unfolding Block plug_in_def by (simp only: block.case conn.case)
  qed (use s Block in \<open>simp_all add: plug_in_def\<close>)
qed (simp add: plug_in_def)

subsection \<open>What was in the place\<close>

lemma plug_block_facts [simp]:
  "sound L (plug_block p b) = sound L b" "b \<noteq> NoBlock \<Longrightarrow> plugged (b_flags (plug_block p b)) = p"
  "ids (plug_block p b) = ids b"
  by (cases b; simp add: plug_block_def node_sound_def node_loadable_def)+

lemma sound_node: "sound L b \<Longrightarrow> b \<noteq> NoBlock \<Longrightarrow> j < length (b_inputs b) \<Longrightarrow>
    fits L (i_kind (b_inputs b ! j)) (i_target (b_inputs b ! j)) \<and> sound L (i_target (b_inputs b ! j)) \<and>
    (i_kind (b_inputs b ! j) = ValueInput \<longrightarrow> i_target (b_inputs b ! j) \<noteq> NoBlock \<longrightarrow>
       checkType (out_check L (b_type (i_target (b_inputs b ! j)))) (socket_check L (b_type b) (b_inputs b) j))"
  by (cases b) (auto simp: node_sound_def node_typed_def list_all_length)

lemma fits_cases: "fits L k t \<Longrightarrow> t \<noteq> NoBlock \<Longrightarrow>
    k = ValueInput \<and> has_out L (b_type t) \<and> plugged (b_flags t) \<or>
    k = StatementInput \<and> \<not> has_out L (b_type t) \<and> has_prev L (b_type t) \<and> \<not> plugged (b_flags t)"
  by (cases t) (simp_all add: fits_def)

text \<open>A socket takes what is like the block that is in it.\<close>

lemma takes_alike:
  assumes "sound L b" "b \<noteq> NoBlock" "j < length (b_inputs b)" "i_kind (b_inputs b ! j) = ValueInput"
    and "i_target (b_inputs b ! j) \<noteq> NoBlock" "alike (i_target (b_inputs b ! j)) t" "t \<noteq> NoBlock" "sound L t"
  shows "takes L b (Socket i j) t"
  using sound_node [OF assms(1-3)] fits_cases [of L ValueInput "i_target (b_inputs b ! j)"] assms
  by (auto simp: takes_def conn_type_def conn_check_def alike_def)

lemma heal_value_sound:
  assumes "heal_value L o1 b = Some b'" "sound L b" "o1 \<noteq> NoBlock" "sound L o1" "has_out L (b_type o1)"
  shows "sound L b' \<and> alike b b' \<and> b' \<noteq> NoBlock"
  using assms
proof (induction L o1 b arbitrary: b' rule: heal_value.induct)
  case (2 L o1 i ty ti mu ins nx fl cm)
  let ?b = "Block i ty ti mu ins nx fl cm"
  obtain j where j: "singleConnection L ty ins o1 = Some j" using "2.prems"(1) by (auto split: option.splits)
  note js = singleConnection_Some [OF j]
  have real: "plug_in (Socket i j) t ?b \<noteq> NoBlock" for t by (simp add: plug_in_def)
  show ?case
  proof (cases "i_target (ins ! j) = NoBlock")
    case True
    then have b': "b' = plug_in (Socket i j) (plug_block True o1) ?b" using "2.prems"(1) j by simp
    have "takes L ?b (Socket i j) (plug_block True o1)"
      using js "2.prems" by (simp add: takes_def conn_type_def conn_check_def)
    then show ?thesis unfolding b' using sound_plug_in [OF "2.prems"(2)] plug_in_alike real by simp
  next
    case False
    then obtain t where t: "heal_value L o1 (i_target (ins ! j)) = Some t" "b' = plug_in (Socket i j) t ?b"
      using "2.prems"(1) j by auto
    have "sound L (i_target (ins ! j))" using sound_node [OF "2.prems"(2), of j] js by simp
    then have "sound L t \<and> alike (i_target (ins ! j)) t \<and> t \<noteq> NoBlock" using "2.IH" [OF j False t(1)] "2.prems" by simp
    then have "takes L ?b (Socket i j) t" using js False by (intro takes_alike "2.prems"(2)) simp_all
    then show ?thesis unfolding t(2) using sound_plug_in [OF "2.prems"(2)] plug_in_alike real by simp
  qed
qed simp

lemma heal_stack_sound:
  assumes "heal_stack L o1 b = Some b'" "sound L b" "o1 \<noteq> NoBlock" "sound L o1" "has_prev L (b_type o1)" "\<not> plugged (b_flags o1)"
  shows "sound L b' \<and> alike b b' \<and> b' \<noteq> NoBlock"
  using assms
proof (induction L o1 b arbitrary: b' rule: heal_stack.induct)
  case (2 L o1 i ty ti mu ins nx fl cm)
  have n: "node_sound L ty ti mu ins nx fl" "has_next L ty" using "2.prems"(1,2) by (auto split: if_splits)
  have put: "sound L (Block i ty ti mu ins n fl cm) \<and> alike (Block i ty ti mu ins nx fl cm) (Block i ty ti mu ins n fl cm)"
    if "sound L n" "\<And>p. l_proto L ty = Inr p \<Longrightarrow> follows L p n" for n
    using that "2.prems"(2) n(1) by (auto simp: node_sound_def alike_def)
  show ?case
  proof (cases "nx = NoBlock")
    case True
    have "follows L p o1" if "l_proto L ty = Inr p" for p
      using that n(2) "2.prems"(3,5,6) by (cases o1) (auto simp: follows_def has_next_def)
    then show ?thesis using put [of o1] True n(2) "2.prems"(1,4) by auto
  next
    case False
    then obtain t where t: "heal_stack L o1 nx = Some t" "b' = Block i ty ti mu ins t fl cm" using "2.prems"(1) n(2) by auto
    have ih: "sound L t \<and> alike nx t \<and> t \<noteq> NoBlock" using "2.IH" [OF _ False t(1)] n(2) "2.prems" by simp
    have "follows L p t" if "l_proto L ty = Inr p" for p
      using that n(1) ih alike_follows [of nx t L p] by (auto simp: node_sound_def)
    then show ?thesis using put [of t] ih t(2) by auto
  qed
qed simp

text \<open>The blocks are still there, once each.\<close>

lemma ids_list_update:
  "j < length ts \<Longrightarrow> mset (all_ids (ts[j := x])) + mset (ids (ts ! j)) = mset (all_ids ts) + mset (ids x)"
proof (induction ts arbitrary: j)
  case (Cons t ts)
  then show ?case by (cases j) (auto simp: ac_simps)
qed simp

lemma ids_plug_in:
  assumes "conn_type L b c = Some k" "isSuperior k" "b \<noteq> NoBlock"
  shows "mset (ids (plug_in c x b)) + mset (ids (conn_target b c)) = mset (ids b) + mset (ids x)"
proof (cases b)
  case (Block i ty ti mu ins nx fl cm)
  show ?thesis
  proof (cases c)
    case (Socket m j)
    then have j: "j < length ins" using assms(1) Block by (auto simp: conn_type_def split: if_splits)
    have "map i_target (ins[j := Input (i_name (ins ! j)) (i_kind (ins ! j)) x]) = (map i_target ins)[j := x]"
      by (simp add: map_update)
    then show ?thesis
      using Block Socket ids_list_update [of j "map i_target ins" x] j by (simp add: plug_in_def conn_target_def ac_simps)
  qed (use assms Block in \<open>auto simp: plug_in_def conn_target_def conn_type_def isSuperior_def split: if_splits\<close>)
qed (use assms in simp)

lemma heal_value_ids: "heal_value L o1 b = Some b' \<Longrightarrow> mset (ids b') = mset (ids b) + mset (ids o1)"
proof (induction L o1 b arbitrary: b' rule: heal_value.induct)
  case (2 L o1 i ty ti mu ins nx fl cm)
  let ?b = "Block i ty ti mu ins nx fl cm"
  obtain j where j: "singleConnection L ty ins o1 = Some j" using "2.prems"(1) by (auto split: option.splits)
  have "conn_type L ?b (Socket i j) = Some INPUT_VALUE" using singleConnection_Some [OF j] by (simp add: conn_type_def)
  note plug = ids_plug_in [OF this]
  show ?case
  proof (cases "i_target (ins ! j) = NoBlock")
    case True
    then have "b' = plug_in (Socket i j) (plug_block True o1) ?b" using "2.prems"(1) j by simp
    then show ?thesis using plug [of "plug_block True o1"] True by (simp add: isSuperior_def conn_target_def)
  next
    case False
    then obtain t where t: "heal_value L o1 (i_target (ins ! j)) = Some t" "b' = plug_in (Socket i j) t ?b" using "2.prems"(1) j by auto
    then have "mset (ids t) = mset (ids (i_target (ins ! j))) + mset (ids o1)" using "2.IH" [OF j False] by simp
    then show ?thesis unfolding t(2) using plug [of t] by (simp add: isSuperior_def conn_target_def)
  qed
qed simp

lemma heal_stack_ids: "heal_stack L o1 b = Some b' \<Longrightarrow> mset (ids b') = mset (ids b) + mset (ids o1)"
  by (induction L o1 b arbitrary: b' rule: heal_stack.induct) (auto split: if_splits)

lemma healed_ids: "healed L v old b = Some d \<Longrightarrow> mset (ids d) = mset (ids b) + mset (ids old)"
  using heal_value_ids heal_stack_ids by (auto simp: healed_def split: if_splits)

lemma healed_real: "healed L v old b = Some d \<Longrightarrow> b \<noteq> NoBlock \<Longrightarrow> d \<noteq> NoBlock"
  by (cases b) (auto simp: healed_def plug_in_def split: if_splits option.splits)

lemma healed_sound:
  assumes "healed L v old b = Some d" "sound L b" "b \<noteq> NoBlock" "sound L old"
    and "old \<noteq> NoBlock \<Longrightarrow> (if v then has_out L (b_type old) else has_prev L (b_type old) \<and> \<not> plugged (b_flags old))"
  shows "sound L d \<and> alike b d \<and> d \<noteq> NoBlock"
  using assms heal_value_sound [of L old b d] heal_stack_sound [of L old b d] by (auto simp: healed_def split: if_splits)

subsection \<open>Whole workspaces\<close>

definition ws_sound :: "loader \<Rightarrow> top list \<Rightarrow> bool" where
  "ws_sound L ws \<longleftrightarrow> list_all (\<lambda>t. top_ok L t \<and> typed L (fst t)) ws"

lemma ws_sound_iff: "ws_sound L ws \<longleftrightarrow> (\<forall>t \<in> set ws. fst t \<noteq> NoBlock \<and> sound L (fst t) \<and> \<not> plugged (b_flags (fst t)))"
  by (auto simp: ws_sound_def list_all_iff top_ok_def sound_def)

lemma ws_sound_no_null: "ws_sound L ws \<Longrightarrow> no_null ws"
  by (auto simp: ws_sound_iff no_null_def list_all_iff)

definition distinct_ids :: "top list \<Rightarrow> bool" where
  "distinct_ids ws \<longleftrightarrow> distinct (all_ids (map fst ws))"

lemma block_at_in: "block_at i ws = Some b \<Longrightarrow> b_id b = i \<and> b \<noteq> NoBlock \<and> (\<exists>t \<in> set ws. b \<in> set (getDescendants (fst t)))"
proof -
  assume "block_at i ws = Some b"
  then have b: "b \<in> set (getAllBlocks (map fst ws))" "b_id b = i" by (auto simp: block_at_def find_Some_iff)
  then show ?thesis using all_blocks_below [OF b(1)] real_descendant(1) by auto
qed

lemma distinct_below: "distinct_ids ws \<Longrightarrow> t \<in> set ws \<Longrightarrow> distinct (ids (fst t))"
  by (induction ws) (auto simp: distinct_ids_def all_ids_def)

lemma same_tree: "distinct_ids ws \<Longrightarrow> t \<in> set ws \<Longrightarrow> u \<in> set ws \<Longrightarrow> n \<in> set (ids (fst t)) \<Longrightarrow> n \<in> set (ids (fst u)) \<Longrightarrow> t = u"
proof (induction ws)
  case (Cons w ws)
  have "set (ids (fst w)) \<inter> set (ids (fst v)) = {}" if "v \<in> set ws" for v
    using Cons.prems(1) that by (auto simp: distinct_ids_def all_ids_def)
  note apart = this
  consider "t = u" | "t = w" "u \<in> set ws" | "t \<in> set ws" "u = w" | "t \<in> set ws" "u \<in> set ws" using Cons.prems(2,3) by auto
  then show ?case
  proof cases
    case 2
    then show ?thesis using apart [of u] Cons.prems(4,5) by blast
  next
    case 3
    then show ?thesis using apart [of t] Cons.prems(4,5) by blast
  next
    case 4
    then show ?thesis using Cons by (simp add: distinct_ids_def)
  qed
qed simp

lemma same_block: "distinct (ids t) \<Longrightarrow> b \<in> set (getDescendants t) \<Longrightarrow> b' \<in> set (getDescendants t) \<Longrightarrow> b_id b = b_id b' \<Longrightarrow> b = b'"
  by (auto simp: ids_def distinct_map dest: inj_onD)

lemma unique_block:
  assumes "distinct_ids ws" "t \<in> set ws" "u \<in> set ws" "b \<in> set (getDescendants (fst t))" "c \<in> set (getDescendants (fst u))" "b_id b = b_id c"
  shows "b = c"
proof -
  have "b_id b \<in> set (ids (fst t))" "b_id b \<in> set (ids (fst u))" using assms id_of_descendant by (metis, metis)
  then have "t = u" using same_tree assms(1-3) by blast
  then show ?thesis using same_block [of "fst t"] distinct_below assms by blast
qed

text \<open>A block on the surface whose number is free of it elsewhere.\<close>

lemma top_block:
  assumes "distinct_ids ws" "no_null ws" "block_at i ws = Some b" "on_surface i ws"
  shows "\<exists>xy. (b, xy) \<in> set ws"
proof -
  obtain u where u: "u \<in> set ws" "b_id (fst u) = i" using assms(4) by (auto simp: on_surface_def list_ex_iff)
  obtain t where t: "t \<in> set ws" "b \<in> set (getDescendants (fst t))" "b_id b = i" using block_at_in [OF assms(3)] by blast
  have "fst u \<noteq> NoBlock" using assms(2) u(1) by (auto simp: no_null_def list_all_iff)
  then have "fst u \<in> set (getDescendants (fst u))" by (cases "fst u") simp_all
  then have "b = fst u" using unique_block [OF assms(1) t(1) u(1) t(2)] t(3) u(2) by simp
  then show ?thesis using u(1) by (metis prod.collapse)
qed

lemma ids_without_top:
  assumes "distinct_ids ws" "no_null ws" "(b, xy) \<in> set ws"
  shows "mset (all_ids (map fst (filter (\<lambda>t. b_id (fst t) \<noteq> b_id b) ws))) + mset (ids b) = mset (all_ids (map fst ws))"
  using assms
proof (induction ws)
  case (Cons w ws)
  have d: "distinct_ids ws" "no_null ws" using Cons.prems(1,2) by (auto simp: distinct_ids_def)
  have w: "fst w \<noteq> NoBlock" using Cons.prems(2) by simp
  show ?case
  proof (cases "w = (b, xy)")
    case True
    have "b_id (fst t) \<noteq> b_id b" if t: "t \<in> set ws" for t
    proof
      assume "b_id (fst t) = b_id b"
      moreover have "fst t \<noteq> NoBlock" using d(2) t by (auto simp: no_null_def list_all_iff)
      ultimately have "b_id b \<in> set (ids (fst t))" using own_id by metis
      then have "b_id b \<in> set (all_ids (map fst ws))" using t by (auto simp: all_ids_def)
      then show False using Cons.prems(1) True own_id w by (auto simp: distinct_ids_def)
    qed
    then have "filter (\<lambda>t. b_id (fst t) \<noteq> b_id b) ws = ws" by simp
    then show ?thesis using True by (simp add: ac_simps)
  next
    case False
    then have b: "(b, xy) \<in> set ws" using Cons.prems(3) by simp
    have "b \<noteq> NoBlock" using b d(2) by (auto simp: no_null_def list_all_iff)
    then have "b_id b \<in> set (all_ids (map fst ws))" using own_id b by (auto simp: all_ids_def intro!: bexI [of _ "(b, xy)"])
    then have "b_id (fst w) \<noteq> b_id b" using Cons.prems(1) own_id [OF w] by (auto simp: distinct_ids_def)
    then show ?thesis using Cons.IH [OF d b] by (simp add: ac_simps)
  qed
qed simp

lemma place_real: "no_null ws \<Longrightarrow> no_null (place par c i x ws)"
proof -
  assume "no_null ws"
  moreover have "swap (plug_in c x) k u = NoBlock \<longleftrightarrow> u = NoBlock" for k x u
    by (cases u) (auto simp: plug_in_def split: conn.split)
  ultimately show ?thesis by (auto simp: place_def no_null_def list_all_iff)
qed

text \<open>Where the other block is not below the one that moves.\<close>

lemma place_sound:
  assumes "ws_sound L ws" "distinct_ids ws" "t \<in> set ws" "par \<in> set (getDescendants (fst t))" "b_id par = conn_block c"
    and "takes L par c (plug_block (is_value par c) x)"
  shows "ws_sound L (place par c i x ws)"
proof -
  let ?f = "plug_in c (plug_block (is_value par c) x)"
  have "fst u \<noteq> NoBlock \<and> sound L (swap ?f (conn_block c) (fst u)) \<and> alike (fst u) (swap ?f (conn_block c) (fst u))"
    if u: "u \<in> set ws" for u
  proof -
    have s: "fst u \<noteq> NoBlock" "sound L (fst u)" using assms(1) u by (auto simp: ws_sound_iff)
    have "sound L (?f b) \<and> alike b (?f b)" if b: "b \<in> set (getDescendants (fst u))" "b_id b = conn_block c" "sound L b" for b
    proof -
      have "b = par" using unique_block [OF assms(2) u assms(3) b(1) assms(4)] b(2) assms(5) by simp
      then show ?thesis using sound_plug_in [OF b(3)] assms(6) plug_in_alike by simp
    qed
    then show ?thesis using sound_swap(1) [OF s(2), of "conn_block c" ?f] s(1) by blast
  qed
  note tree = this
  have "fst v \<noteq> NoBlock \<and> sound L (fst v) \<and> \<not> plugged (b_flags (fst v))" if "v \<in> set (place par c i x ws)" for v
  proof -
    have "fst v \<in> (\<lambda>u. swap ?f (conn_block c) (fst u)) ` set ws"
      using that unfolding place_def case_prod_unfold by force
    then obtain u where u: "u \<in> set ws" "fst v = swap ?f (conn_block c) (fst u)" by (rule imageE) metis
    have "fst v \<noteq> NoBlock" using place_real [of ws par c i x] ws_sound_no_null [OF assms(1)] that
      by (auto simp: no_null_def list_all_iff)
    then show ?thesis using tree [OF u(1)] assms(1) u by (auto simp: ws_sound_iff alike_def)
  qed
  then show ?thesis by (simp add: ws_sound_iff)
qed

lemma mset_exchange:
  fixes a :: "'a multiset"
  assumes "a + p = w + f" and "f + t = p + x"
  shows "a + t = w + x"
proof -
  have "a + t + p = (a + p) + t" by (simp add: ac_simps)
  also have "\<dots> = w + (f + t)" using assms(1) by (simp add: ac_simps)
  also have "\<dots> = w + x + p" using assms(2) by (simp add: ac_simps)
  finally show ?thesis by simp
qed

lemma place_ids:
  assumes "distinct_ids ws" "no_null ws" "(b, xy) \<in> set ws"
    and "t \<in> set ws" "par \<in> set (getDescendants (fst t))" "b_id par = conn_block c" "b_id (fst t) \<noteq> b_id b"
    and "conn_type L par c = Some k" "isSuperior k"
  shows "mset (all_ids (map fst (place par c (b_id b) x ws))) + mset (ids (conn_target par c)) + mset (ids b) =
    mset (all_ids (map fst ws)) + mset (ids x)"
proof -
  let ?ws = "filter (\<lambda>t. b_id (fst t) \<noteq> b_id b) ws" and ?f = "plug_in c (plug_block (is_value par c) x)"
  have real: "par \<noteq> NoBlock" using assms(5) real_descendant by blast
  note without = ids_without_top [OF assms(1-3)]
  then have d: "distinct (all_ids (map fst ?ws))" using assms(1)
    by (metis distinct_append distinct_ids_def mset_append mset_eq_imp_distinct_iff)
  have t: "fst t \<in> set (map fst ?ws)" using assms(4,7) by simp
  have tree: "map fst (place par c (b_id b) x ws) = map (swap ?f (b_id par)) (map fst ?ws)"
    by (simp add: place_def assms(6) case_prod_unfold o_def)
  have placed: "mset (all_ids (map fst (place par c (b_id b) x ws))) + mset (ids par) = mset (all_ids (map fst ?ws)) + mset (ids (?f par))"
    unfolding tree by (rule swap_list [OF ids_swap(1) d]) (use t assms(5) in blast)+
  have "mset (ids (?f par)) + mset (ids (conn_target par c)) = mset (ids par) + mset (ids x)"
    using ids_plug_in [OF assms(8,9) real, of "plug_block (is_value par c) x"] by simp
  from mset_exchange [OF placed this]
  have "mset (all_ids (map fst (place par c (b_id b) x ws))) + mset (ids (conn_target par c)) =
      mset (all_ids (map fst ?ws)) + mset (ids x)" .
  then have "mset (all_ids (map fst (place par c (b_id b) x ws))) + mset (ids (conn_target par c)) + mset (ids b) =
      (mset (all_ids (map fst ?ws)) + mset (ids b)) + mset (ids x)" by (simp add: ac_simps)
  then show ?thesis using without by simp
qed

subsection \<open>What \<open>closest\<close> offers can be connected\<close>

lemma offered:
  assumes "closest_offers L ws l h"
  obtains lb hb x where "block_at (conn_block l) ws = Some lb" "block_at (conn_block h) ws = Some hb"
    "conn_type L lb l = Some x" "conn_type L hb h = Some (OPPOSITE_TYPE x)" "\<not> connected ws lb l"
    "isSuperior (OPPOSITE_TYPE x) \<or> \<not> connected ws hb h" "checkType (conn_check L lb l) (conn_check L hb h)"
    "conn_block h \<notin> set (ids lb)"
  using assms by (auto simp: closest_offers_def ids_def split: option.splits)

lemma opposite_superior [simp]: "isSuperior (OPPOSITE_TYPE x) \<longleftrightarrow> \<not> isSuperior x" "OPPOSITE_TYPE (OPPOSITE_TYPE x) = x"
  by (cases x; simp add: isSuperior_def)+

lemma offered_no_error: "closest_offers L ws l h \<Longrightarrow> connect_error L ws l h = None"
proof -
  assume "closest_offers L ws l h"
  then obtain lb hb x where b: "block_at (conn_block l) ws = Some lb" "block_at (conn_block h) ws = Some hb"
    "conn_type L lb l = Some x" "conn_type L hb h = Some (OPPOSITE_TYPE x)" "\<not> connected ws lb l"
    "isSuperior (OPPOSITE_TYPE x) \<or> \<not> connected ws hb h" "conn_block h \<notin> set (ids lb)"
    by (rule offered)
  have "conn_block l \<in> set (ids lb)" using own_id block_at_in [OF b(1)] by metis
  then have "conn_block l \<noteq> conn_block h" using b(7) by metis
  then show ?thesis using b by (cases x) (auto simp: connect_error_def isSuperior_def)
qed

text \<open>A downwards connection takes a block with the opposite connection and a type that passes the check.\<close>

lemma takes_opposite:
  assumes "conn_type L b c = Some k" "isSuperior k" "conn_type L x e = Some (OPPOSITE_TYPE k)"
    and "checkType (conn_check L b c) (conn_check L x e)" "x \<noteq> NoBlock" "sound L x"
  shows "takes L b c (plug_block (is_value b c) x)"
proof -
  have ty: "b_type (plug_block p x) = b_type x" for p using assms(5) by (cases x) (simp_all add: plug_block_def)
  have up: "k = INPUT_VALUE \<longrightarrow> has_out L (b_type x) \<and> conn_check L x e = out_check L (b_type x)"
      "k = NEXT_STATEMENT \<longrightarrow> has_prev L (b_type x) \<and> \<not> has_out L (b_type x)"
    using assms(3) by (auto simp: conn_type_def conn_check_def split: conn.splits if_splits ikind.splits)
  have "is_value b c \<longleftrightarrow> k = INPUT_VALUE"
    using assms(1,2) by (auto simp: conn_type_def is_value_def isSuperior_def split: conn.splits if_splits ikind.splits)
  then show ?thesis
    using assms ty up checkType_sym by (cases k) (auto simp: takes_def isSuperior_def)
qed

lemma top_alone:
  assumes "distinct_ids ws" "no_null ws" "(b, xy) \<in> set ws" "t \<in> set ws" "c \<in> set (getDescendants (fst t))" "b_id c \<notin> set (ids b)"
  shows "b_id (fst t) \<noteq> b_id b"
proof
  assume same: "b_id (fst t) = b_id b"
  have "fst t \<noteq> NoBlock" "b \<noteq> NoBlock" using assms(2-4) by (auto simp: no_null_def list_all_iff)
  then have "b_id b \<in> set (ids (fst t))" "b_id b \<in> set (ids (fst (b, xy)))" using own_id same by (metis, metis fst_conv)
  then have "t = (b, xy)" using same_tree [OF assms(1,4,3)] by blast
  then show False using assms(5,6) id_of_descendant by auto
qed

text \<open>The block that was in the place.\<close>

lemma target_facts:
  assumes "sound L b" "b \<noteq> NoBlock" "conn_type L b c = Some k" "isSuperior k"
  shows "sound L (conn_target b c) \<and> (conn_target b c \<noteq> NoBlock \<longrightarrow>
    (if is_value b c then has_out L (b_type (conn_target b c)) else has_prev L (b_type (conn_target b c)) \<and> \<not> plugged (b_flags (conn_target b c))))"
proof (cases c)
  case (Next i)
  then show ?thesis using assms(1,2)
    by (cases b; cases "b_next b") (auto simp: conn_target_def is_value_def node_sound_def follows_def)
next
  case (Socket i j)
  then have j: "j < length (b_inputs b)" using assms(3) by (auto simp: conn_type_def split: if_splits)
  then show ?thesis
    using sound_node [OF assms(1,2) j] fits_cases [of L "i_kind (b_inputs b ! j)" "i_target (b_inputs b ! j)"] Socket
    by (auto simp: conn_target_def is_value_def)
qed (use assms in \<open>auto simp: conn_type_def isSuperior_def split: if_splits\<close>)

text \<open>An inferior connection keeps its type and check below the block.\<close>

lemma same_connection:
  "alike b d \<Longrightarrow> d \<noteq> NoBlock \<Longrightarrow> conn_type L b l = Some x \<Longrightarrow> \<not> isSuperior x \<Longrightarrow>
     conn_type L d l = Some x \<and> conn_check L d l = conn_check L b l"
  by (auto simp: alike_def conn_type_def conn_check_def isSuperior_def split: conn.splits if_splits ikind.splits)

definition keeps_blocks :: "loader \<Rightarrow> top list \<Rightarrow> top list \<Rightarrow> bool" where
  "keeps_blocks L ws ws' \<longleftrightarrow> no_null ws' \<and> mset (all_ids (map fst ws')) = mset (all_ids (map fst ws)) \<and>
     (ws_sound L ws \<longrightarrow> ws_sound L ws')"

lemma connect_superior:
  assumes "closest_offers L ws l h" "on_surface (conn_block l) ws" "no_null ws" "distinct_ids ws"
    and "block_at (conn_block l) ws = Some lb" "conn_type L lb l = Some x" "isSuperior x"
  shows "keeps_blocks L ws (connect L pos ws l h)"
proof -
  obtain hb where b: "block_at (conn_block h) ws = Some hb" "conn_type L hb h = Some (OPPOSITE_TYPE x)" "\<not> connected ws lb l"
      "isSuperior (OPPOSITE_TYPE x) \<or> \<not> connected ws hb h" "checkType (conn_check L lb l) (conn_check L hb h)"
      "conn_block h \<notin> set (ids lb)"
    using assms(1,5,6) by (elim offered) simp
  have "on_surface (conn_block h) ws"
    using b(2,4) assms(7) by (auto simp: connected_def conn_type_def isSuperior_def split: conn.splits if_splits ikind.splits)
  then obtain hxy where h: "(hb, hxy) \<in> set ws" using top_block [OF assms(4,3) b(1)] by blast
  obtain lxy where l: "(lb, lxy) \<in> set ws" using top_block [OF assms(4,3,5,2)] by blast
  have n: "b_id hb = conn_block h" "b_id lb = conn_block l" "hb \<noteq> NoBlock" "lb \<noteq> NoBlock"
    using block_at_in [OF b(1)] block_at_in [OF assms(5)] by auto
  have below: "lb \<in> set (getDescendants (fst (lb, lxy)))" using n(4) by (cases lb) simp_all
  have res: "connect L pos ws l h = place lb l (b_id hb) hb ws" using assms(5-7) b(1) n(1) by (simp add: connect_def)
  have "ws_sound L (place lb l (b_id hb) hb ws)" if s: "ws_sound L ws"
  proof -
    have "takes L lb l (plug_block (is_value lb l) hb)"
      using takes_opposite [OF assms(6,7) b(2,5) n(3)] s h by (auto simp: ws_sound_iff)
    then show ?thesis by (rule place_sound [OF s assms(4) l below n(2)])
  qed
  moreover have "b_id lb \<noteq> b_id hb" using b(6) own_id [OF n(4)] n(1) by auto
  then have "mset (all_ids (map fst (place lb l (b_id hb) hb ws))) + mset (ids (conn_target lb l)) + mset (ids hb) =
      mset (all_ids (map fst ws)) + mset (ids hb)"
    using place_ids [OF assms(4,3) h l below n(2) _ assms(6,7)] by simp
  moreover have "conn_target lb l = NoBlock"
    using b(3) assms(6,7) by (auto simp: connected_def conn_type_def isSuperior_def conn_target_def split: conn.splits if_splits)
  ultimately show ?thesis using place_real [OF assms(3)] by (simp add: res keeps_blocks_def)
qed

lemma connect_inferior:
  assumes "closest_offers L ws l h" "on_surface (conn_block l) ws" "no_null ws" "distinct_ids ws"
    and "block_at (conn_block l) ws = Some lb" "conn_type L lb l = Some x" "\<not> isSuperior x"
  shows "keeps_blocks L ws (connect L pos ws l h)"
proof -
  obtain hb where b: "block_at (conn_block h) ws = Some hb" "conn_type L hb h = Some (OPPOSITE_TYPE x)"
      "checkType (conn_check L lb l) (conn_check L hb h)" "conn_block h \<notin> set (ids lb)"
    using assms(1,5,6) by (elim offered) simp
  have up: "isSuperior (OPPOSITE_TYPE x)" using assms(7) by simp
  obtain t where t: "t \<in> set ws" "hb \<in> set (getDescendants (fst t))" "b_id hb = conn_block h" "hb \<noteq> NoBlock"
    using block_at_in [OF b(1)] by blast
  obtain lxy where l: "(lb, lxy) \<in> set ws" using top_block [OF assms(4,3,5,2)] by blast
  have lb: "b_id lb = conn_block l" "lb \<noteq> NoBlock" using block_at_in [OF assms(5)] by auto
  let ?old = "conn_target hb h"
  have apart: "b_id (fst t) \<noteq> b_id lb" using top_alone [OF assms(4,3) l t(1,2)] b(4) t(3) by simp
  note count = place_ids [OF assms(4,3) l t(1-3) apart b(2) up]
  have put: "ws_sound L (place hb h (b_id lb) d ws)" if "ws_sound L ws" "sound L d" "alike lb d" "d \<noteq> NoBlock" for d
  proof -
    have "takes L hb h (plug_block (is_value hb h) d)"
      using takes_opposite [OF b(2) up _ _ that(4,2), of l] b(3) checkType_sym same_connection [OF that(3,4) assms(6,7)] by simp
    then show ?thesis by (rule place_sound [OF that(1) assms(4) t(1-3)])
  qed
  have old: "sound L lb \<and> sound L ?old \<and> (?old \<noteq> NoBlock \<longrightarrow>
      (if is_value hb h then has_out L (b_type ?old) else has_prev L (b_type ?old) \<and> \<not> plugged (b_flags ?old)))" if "ws_sound L ws"
  proof -
    have "sound L (fst t)" "sound L lb" using that t(1) l by (auto simp: ws_sound_iff)
    then show ?thesis using target_facts [OF sound_below(1) [OF _ t(2)] t(4) b(2) up] by blast
  qed
  have res: "connect L pos ws l h = (case healed L (is_value hb h) ?old lb of Some d \<Rightarrow> place hb h (b_id lb) d ws
      | None \<Rightarrow> place hb h (b_id lb) lb ws @ [(plug_block False ?old, pos (b_id ?old))])"
    using assms(5-7) b(1) lb(1) by (simp add: connect_def Let_def split: option.split)
  show ?thesis
  proof (cases "healed L (is_value hb h) ?old lb")
    case None
    then have real: "?old \<noteq> NoBlock" by (auto simp: healed_def)
    have "ws_sound L (connect L pos ws l h)" if w: "ws_sound L ws"
    proof -
      have "ws_sound L (place hb h (b_id lb) lb ws)" "sound L ?old" using put [OF w _ alike_same(1) lb(2)] old [OF w] by simp_all
      then show ?thesis using real by (simp add: res None ws_sound_iff)
    qed
    moreover have "no_null (connect L pos ws l h)" using real place_real [OF assms(3)] by (simp add: res None)
    ultimately show ?thesis using count [of lb] by (simp add: keeps_blocks_def res None ac_simps)
  next
    case (Some d)
    have "ws_sound L (connect L pos ws l h)" if w: "ws_sound L ws"
      using put [OF w] healed_sound [OF Some _ lb(2)] old [OF w] healed_real [OF Some lb(2)] by (simp add: res Some)
    moreover have "no_null (connect L pos ws l h)" using place_real [OF assms(3)] by (simp add: res Some)
    ultimately show ?thesis using count [of d] healed_ids [OF Some] by (simp add: keeps_blocks_def res Some ac_simps)
  qed
qed

lemma connect_keeps:
  assumes "closest_offers L ws l h" "on_surface (conn_block l) ws" "no_null ws" "distinct_ids ws"
  shows "keeps_blocks L ws (connect L pos ws l h)"
proof -
  obtain lb x where "block_at (conn_block l) ws = Some lb" "conn_type L lb l = Some x" using assms(1) by (rule offered)
  then show ?thesis using connect_superior [OF assms] connect_inferior [OF assms] by (cases "isSuperior x") simp_all
qed

end
