(* ===== verification/Dragging.thy ===== *)
theory Dragging
  imports Connections
begin

text \<open>
  Dragging a block with the mouse (\<open>onMouseDown_\<close>, \<open>onMouseMove_\<close> and \<open>onMouseUp_\<close> of
  \<open>Blockly.Block\<close>; \<open>js/mobile.js\<close> has an \<open>onMouseDown_\<close> of its own): the block is selected, comes
  loose when the mouse has moved far enough, follows it, and is connected to what \<open>closest\<close> found, thrown
  away, or left where it is.
\<close>

subsection \<open>The mouse\<close>

text \<open>\<open>dragMode_\<close> 0, 1 and 2, with the block and where it was (\<open>startDragX\<close>, \<open>startDragY\<close>).\<close>

datatype drag = Idle | Pressed nat "int \<times> int" | Dragged nat "int \<times> int"

definition DRAG_RADIUS :: int where
  "DRAG_RADIUS = 5"

text \<open>A block in the workspace is pressed, with the left or right button.\<close>

definition mouseDown :: "env \<Rightarrow> bool \<Rightarrow> nat \<Rightarrow> drag \<times> app \<Rightarrow> drag \<times> app" where
  "mouseDown E right i st = (case st of (g, s) \<Rightarrow>
     (case block_at i (a_ws s) of None \<Rightarrow> (g, s)
      | Some b \<Rightarrow> (if right \<or> \<not> movable (b_flags b) then Idle else Pressed i (position_in E s i), s\<lparr>a_selected := Some i\<rparr>)))"

text \<open>\<open>setParent(null)\<close>; a block on the surface becomes the last one there.\<close>

definition pull_out :: "env \<Rightarrow> app \<Rightarrow> nat \<Rightarrow> top list" where
  "pull_out E s i = (if on_surface i (a_ws s)
     then filter (\<lambda>t. b_id (fst t) \<noteq> i) (a_ws s) @ filter (\<lambda>t. b_id (fst t) = i) (a_ws s)
     else (case block_at i (a_ws s) of None \<Rightarrow> a_ws s
       | Some b \<Rightarrow> unplugged (has_out (loader_of E s) (b_type b)) False (position_in E s) b (a_ws s)))"

definition move_to :: "nat \<Rightarrow> int \<times> int \<Rightarrow> top list \<Rightarrow> top list" where
  "move_to i xy ws = map (\<lambda>(b, q). (b, if b_id b = i then xy else q)) ws"

text \<open>The mouse is \<open>d\<close> away from where it was pressed.\<close>

definition mouseMove :: "env \<Rightarrow> int \<times> int \<Rightarrow> drag \<times> app \<Rightarrow> drag \<times> app" where
  "mouseMove E d st = (case st of (g, s) \<Rightarrow> (case g of
     Idle \<Rightarrow> (g, s)
   | Pressed i p \<Rightarrow>
       if fst d * fst d + snd d * snd d > DRAG_RADIUS * DRAG_RADIUS \<and> block_at i (a_ws s) \<noteq> None
       then (Dragged i p, s\<lparr>a_ws := move_to i (fst p + fst d, snd p + snd d) (pull_out E s i)\<rparr>)
       else (g, s)
   | Dragged i p \<Rightarrow> (g, s\<lparr>a_ws := move_to i (fst p + fst d, snd p + snd d) (a_ws s)\<rparr>)))"

text \<open>
  \<open>near\<close> are the connection of the block and the one found near it (\<open>localConnection_\<close> and
  \<open>highlightedConnection_\<close>), if any; \<open>trash\<close> says that the mouse is over the trash can, which opens for
  blocks that can be deleted.
\<close>

definition highlighted :: "env \<Rightarrow> app \<Rightarrow> nat \<Rightarrow> (conn \<times> conn) option \<Rightarrow> (conn \<times> conn) option" where
  "highlighted E s i near = (case near of None \<Rightarrow> None
     | Some (l, h) \<Rightarrow> if conn_block l = i \<and> closest_offers (loader_of E s) (a_ws s) l h then Some (l, h) else None)"

definition mouseUp :: "env \<Rightarrow> (conn \<times> conn) option \<Rightarrow> bool \<Rightarrow> drag \<times> app \<Rightarrow> exn option \<times> drag \<times> app" where
  "mouseUp E near trash st = (case st of (g, s) \<Rightarrow> (case (g, a_selected s) of
     (Dragged i p, Some k) \<Rightarrow>
       (case highlighted E s i near of
          Some (l, h) \<Rightarrow> (None, Idle, s\<lparr>a_ws := connect (loader_of E s) (position_in E s) (a_ws s) l h\<rparr>)
        | None \<Rightarrow>
            if trash \<and> map_option (\<lambda>b. deletable (b_flags b)) (block_at i (a_ws s)) = Some True
            then (case dispose E False True k s of (e, t) \<Rightarrow> (e, Idle, t))
            else (None, Idle, s))
   | _ \<Rightarrow> (None, Idle, s)))"

inductive drag_step :: "env \<Rightarrow> drag \<times> app \<Rightarrow> drag \<times> app \<Rightarrow> bool" for E where
  down: "drag_step E st (mouseDown E right i st)"
| move: "drag_step E st (mouseMove E d st)"
| up: "mouseUp E near trash st = (e, st') \<Longrightarrow> drag_step E st st'"

subsection \<open>Steps keep the blocks, and how they fit\<close>

lemma keeps_blocks_refl: "no_null ws \<Longrightarrow> keeps_blocks L ws ws"
  by (simp add: keeps_blocks_def)

lemma keeps_blocks_trans: "keeps_blocks L ws ws' \<Longrightarrow> keeps_blocks L ws' ws'' \<Longrightarrow> keeps_blocks L ws ws''"
  by (simp add: keeps_blocks_def)

lemma move_keeps: "no_null ws \<Longrightarrow> keeps_blocks L ws (move_to i xy ws)"
proof -
  have "map fst (move_to i xy ws) = map fst ws" by (simp add: move_to_def case_prod_unfold o_def)
  moreover have "no_null ws = list_all (\<lambda>b. b \<noteq> NoBlock) (map fst ws)" "ws_sound L ws = list_all (\<lambda>b. b \<noteq> NoBlock \<and> sound L b \<and> \<not> plugged (b_flags b)) (map fst ws)" for ws
    by (auto simp: no_null_def ws_sound_iff list_all_iff)
  ultimately show "no_null ws \<Longrightarrow> keeps_blocks L ws (move_to i xy ws)" by (simp add: keeps_blocks_def)
qed

lemma move_surface: "on_surface i (move_to k xy ws) = on_surface i ws"
  by (simp add: on_surface_def move_to_def case_prod_unfold list_ex_iff)

text \<open>Only outputs are plugged in.\<close>

lemma plugged_below:
  "sound L t \<Longrightarrow> (plugged (b_flags t) \<longrightarrow> has_out L (b_type t)) \<Longrightarrow> b \<in> set (getDescendants t) \<Longrightarrow>
     plugged (b_flags b) \<longrightarrow> has_out L (b_type b)"
  and "sound L (i_target x) \<Longrightarrow> (plugged (b_flags (i_target x)) \<longrightarrow> has_out L (b_type (i_target x))) \<Longrightarrow>
     b \<in> set (getDescendants (i_target x)) \<Longrightarrow> plugged (b_flags b) \<longrightarrow> has_out L (b_type b)"
proof (induction t and x)
  case (Block i ty ti mu ins nx fl cm)
  consider "b = Block i ty ti mu ins nx fl cm" | x where "x \<in> set ins" "b \<in> set (getDescendants (i_target x))"
    | "b \<in> set (getDescendants nx)" using Block.prems(3) by (auto simp: descendants_input)
  then show ?case
  proof cases
    case (2 x)
    have "i_target x \<noteq> NoBlock" "fits L (i_kind x) (i_target x)" "sound L (i_target x)" using 2 Block.prems(1) by auto
    then show ?thesis using Block.IH(1) [OF 2(1) _ _ 2(2)] fits_cases by blast
  next
    case 3
    have "\<not> plugged (b_flags nx)" using 3 Block.prems(1) by (cases nx) (auto simp: node_sound_def follows_def)
    then show ?thesis using Block.IH(2) [OF _ _ 3] Block.prems(1) by simp
  qed (use Block.prems(2) in simp)
qed simp_all

text \<open>A block that is taken out leaves a hole that fits.\<close>

lemma sound_unplugged:
  assumes "ws_sound L ws" "b \<in> set (getDescendants (fst t))" "t \<in> set ws" "out = has_out L (b_type b)"
  shows "ws_sound L (unplugged out False pos b ws)"
proof (cases "on_surface (b_id b) ws")
  case True
  then show ?thesis using assms(1) by (simp add: unplugged_def Let_def)
next
  case False
  have cut: "fst u \<noteq> NoBlock \<and> sound L (cut (\<lambda>_. NoBlock) (b_id b) (fst u)) \<and>
      alike (fst u) (cut (\<lambda>_. NoBlock) (b_id b) (fst u))" if u: "u \<in> set ws" for u
  proof -
    have s: "sound L (fst u)" "fst u \<noteq> NoBlock" using assms(1) u by (auto simp: ws_sound_iff)
    have "swap (\<lambda>_. NoBlock) (b_id b) (fst u) = cut (\<lambda>_. NoBlock) (b_id b) (fst u)"
      using False u by (auto simp: swap_def on_surface_def list_ex_iff)
    then show ?thesis using sound_swap(1) [OF s(1), of "b_id b" "\<lambda>_. NoBlock"] s(2) by simp
  qed
  have rest: "ws_sound L (map (\<lambda>(t, xy). (cut (\<lambda>_. NoBlock) (b_id b) t, xy)) ws)"
    using cut assms(1) by (fastforce simp: ws_sound_iff alike_def)
  have b: "sound L b" "b \<noteq> NoBlock" using sound_below(1) [OF _ assms(2)] real_descendant(1) [OF assms(2)] assms(1,3) by (auto simp: ws_sound_iff)
  have "sound L (fst t)" "\<not> plugged (b_flags (fst t))" using assms(1,3) by (auto simp: ws_sound_iff)
  then have "plugged (b_flags b) \<longrightarrow> has_out L (b_type b)" using plugged_below(1) [OF _ _ assms(2)] by blast
  then show ?thesis using rest b False assms(4) by (auto simp: unplugged_def Let_def ws_sound_iff)
qed

lemma filter_parts:
  "mset (all_ids (map fst (filter P ws @ filter (\<lambda>t. \<not> P t) ws))) = mset (all_ids (map fst ws))"
  by (induction ws) (auto simp: ac_simps)

lemma pull_keeps:
  assumes "distinct_ids (a_ws s)" "no_null (a_ws s)" "block_at i (a_ws s) \<noteq> None"
  shows "keeps_blocks (loader_of E s) (a_ws s) (pull_out E s i) \<and> on_surface i (pull_out E s i)"
proof (cases "on_surface i (a_ws s)")
  case True
  then have "pull_out E s i = filter (\<lambda>t. b_id (fst t) \<noteq> i) (a_ws s) @ filter (\<lambda>t. \<not> b_id (fst t) \<noteq> i) (a_ws s)"
    by (simp add: pull_out_def)
  moreover have "set (pull_out E s i) = set (a_ws s)" unfolding calculation by auto
  then have "no_null (pull_out E s i)" "ws_sound L (a_ws s) \<longrightarrow> ws_sound L (pull_out E s i)" "on_surface i (pull_out E s i)" for L
    using assms(2) True by (simp_all add: no_null_def list_all_iff ws_sound_iff on_surface_def list_ex_iff)
  ultimately show ?thesis using filter_parts [of "\<lambda>t. b_id (fst t) \<noteq> i" "a_ws s"] by (simp add: keeps_blocks_def)
next
  case False
  obtain b where b: "block_at i (a_ws s) = Some b" using assms(3) by blast
  then have all: "b \<in> set (getAllBlocks (map fst (a_ws s)))" "b_id b = i" by (auto simp: block_at_def find_Some_iff)
  obtain t where t: "t \<in> set (a_ws s)" "b \<in> set (getDescendants (fst t))" "b \<noteq> NoBlock" using block_at_in [OF b] by blast
  let ?ws = "unplugged (has_out (loader_of E s) (b_type b)) False (position_in E s) b (a_ws s)"
  have res: "pull_out E s i = ?ws" using False b by (simp add: pull_out_def)
  have "on_surface i ?ws" using False all(2) t(3) by (cases b) (auto simp: unplugged_def Let_def on_surface_def plug_block_def)
  moreover have "mset (all_ids (map fst ?ws)) = mset (all_ids (map fst (a_ws s)))"
    by (rule ids_unplugged [OF _ all(1) assms(2)]) (use assms(1) in \<open>simp add: distinct_ids_def\<close>)
  moreover have "ws_sound (loader_of E s) (a_ws s) \<longrightarrow> ws_sound (loader_of E s) ?ws" using sound_unplugged [OF _ t(2,1)] by blast
  ultimately show ?thesis using no_null_unplugged [OF t(3) assms(2)] by (simp add: keeps_blocks_def res)
qed

text \<open>The block that is dragged is on the surface.\<close>

definition held :: "drag \<Rightarrow> top list \<Rightarrow> bool" where
  "held g ws \<longleftrightarrow> (case g of Dragged i p \<Rightarrow> on_surface i ws | _ \<Rightarrow> True)"

definition rearranged :: "env \<Rightarrow> drag \<Rightarrow> app \<Rightarrow> app \<Rightarrow> bool" where
  "rearranged E g s t \<longleftrightarrow> (\<exists>ws sel. t = s\<lparr>a_ws := ws, a_selected := sel\<rparr> \<and> keeps_blocks (loader_of E s) (a_ws s) ws \<and> held g ws)"

lemma rearrangedI: "keeps_blocks (loader_of E s) (a_ws s) ws \<Longrightarrow> held g ws \<Longrightarrow> rearranged E g s (s\<lparr>a_ws := ws\<rparr>)"
  unfolding rearranged_def by (intro exI [of _ ws] exI [of _ "a_selected s"]) simp

lemma rearranged_same: "no_null (a_ws s) \<Longrightarrow> held g (a_ws s) \<Longrightarrow> rearranged E g s s"
  using rearrangedI [OF keeps_blocks_refl, of s g E] by simp

lemma down_does:
  assumes "mouseDown E right i (g, s) = (g', t)" "no_null (a_ws s)" "held g (a_ws s)"
  shows "rearranged E g' s t"
proof (cases "block_at i (a_ws s)")
  case None
  then show ?thesis using assms rearranged_same by (simp add: mouseDown_def)
next
  case (Some b)
  then have t: "t = s\<lparr>a_selected := Some i\<rparr>" "held g' (a_ws s)" using assms(1) by (auto simp: mouseDown_def held_def split: if_splits)
  then show ?thesis
    unfolding rearranged_def using keeps_blocks_refl [OF assms(2)] by (intro exI [of _ "a_ws s"] exI [of _ "Some i"]) simp
qed

lemma move_does:
  assumes "mouseMove E d (g, s) = (g', t)" "distinct_ids (a_ws s)" "no_null (a_ws s)" "held g (a_ws s)"
  shows "rearranged E g' s t"
proof (cases g)
  case Idle
  then show ?thesis using assms rearranged_same by (simp add: mouseMove_def)
next
  case (Pressed i p)
  show ?thesis
  proof (cases "fst d * fst d + snd d * snd d > DRAG_RADIUS * DRAG_RADIUS \<and> block_at i (a_ws s) \<noteq> None")
    case True
    let ?ws = "move_to i (fst p + fst d, snd p + snd d) (pull_out E s i)"
    have "t = s\<lparr>a_ws := ?ws\<rparr>" "g' = Dragged i p" using True Pressed assms(1) by (simp_all add: mouseMove_def)
    moreover have k: "keeps_blocks (loader_of E s) (a_ws s) (pull_out E s i) \<and> on_surface i (pull_out E s i)"
      by (rule pull_keeps [OF assms(2,3)]) (use True in simp)
    then have "keeps_blocks (loader_of E s) (a_ws s) ?ws"
      using keeps_blocks_trans move_keeps by (meson keeps_blocks_def)
    ultimately show ?thesis using k rearrangedI by (simp add: held_def move_surface)
  next
    case False
    then have "g' = g" "t = s" using Pressed assms(1) by (auto simp: mouseMove_def split: if_splits)
    then show ?thesis using rearranged_same assms(3,4) by simp
  qed
next
  case (Dragged i p)
  then show ?thesis using assms move_keeps by (auto simp: mouseMove_def held_def move_surface intro!: rearrangedI)
qed

lemma up_does:
  assumes "mouseUp E near trash (g, s) = (e, g', t)" "distinct_ids (a_ws s)" "no_null (a_ws s)" "held g (a_ws s)"
  shows "rearranged E g' s t \<or> (g' = Idle \<and> (\<exists>k. dispose E False True k s = (e, t)))"
proof -
  have idle: "rearranged E Idle s s" using rearranged_same assms(3) by (simp add: held_def)
  show ?thesis
  proof (cases "\<exists>i p k. g = Dragged i p \<and> a_selected s = Some k")
    case False
    then have "(g', t) = (Idle, s)" using assms(1) by (cases g; cases "a_selected s") (simp_all add: mouseUp_def)
    then show ?thesis using idle by simp
  next
    case True
    then obtain i p k where g: "g = Dragged i p" "a_selected s = Some k" by blast
    show ?thesis
    proof (cases "highlighted E s i near")
      case None
      then show ?thesis using assms(1) g idle by (auto simp: mouseUp_def split: if_splits prod.splits)
    next
      case (Some lh)
      obtain l h where lh: "lh = (l, h)" by force
      then have near: "conn_block l = i" "closest_offers (loader_of E s) (a_ws s) l h"
        using Some by (auto simp: highlighted_def split: option.splits if_splits)
      let ?ws = "connect (loader_of E s) (position_in E s) (a_ws s) l h"
      have "on_surface (conn_block l) (a_ws s)" using near(1) assms(4) g(1) by (simp add: held_def)
      then have "rearranged E Idle s (s\<lparr>a_ws := ?ws\<rparr>)"
        using near connect_keeps [OF _ _ assms(3,2)] by (intro rearrangedI) (simp_all add: held_def)
      then show ?thesis using assms(1) g Some lh by (simp add: mouseUp_def)
    qed
  qed
qed

lemma drag_step_does:
  assumes "drag_step E (g, s) (g', t)" "distinct_ids (a_ws s)" "no_null (a_ws s)" "held g (a_ws s)"
  shows "rearranged E g' s t \<or> (g' = Idle \<and> (\<exists>k e. dispose E False True k s = (e, t)))"
  using assms(1)
proof cases
  case (down right i)
  then show ?thesis using down_does [of E right i g s g' t] assms(3,4) by simp
next
  case (move d)
  then show ?thesis using move_does [of E d g s g' t] assms(2-4) by simp
next
  case (up near trash e)
  then show ?thesis using up_does [OF up assms(2-4)] by blast
qed

subsection \<open>Throwing away\<close>

lemma killTasks_loader: "killTasks E s = (e, t) \<Longrightarrow> loader_of E t = loader_of E s"
  by (auto simp: killTasks_def with_user_def disarm_def ajax_def setTimeout_def happens_def act_simps loader_of_def split: option.splits)

lemma dispose_sound:
  assumes "dispose E False True k s = (e, t)" "ws_sound (loader_of E s) (a_ws s)"
  shows "loader_of E t = loader_of E s \<and> ws_sound (loader_of E s) (a_ws t)"
proof -
  obtain ws where u: "unplug E False k s = (None, s\<lparr>a_ws := ws\<rparr>)" "ws_sound (loader_of E s) ws"
  proof (cases "block_with k s")
    case None
    then show ?thesis using that [of "a_ws s"] assms(2) by (simp add: unplug_def)
  next
    case (Some b)
    then have "block_at k (a_ws s) = Some b" by (simp add: block_with_def block_at_def all_blocks_def)
    then obtain t where "t \<in> set (a_ws s)" "b \<in> set (getDescendants (fst t))" using block_at_in by blast
    then show ?thesis using that sound_unplugged [OF assms(2)] Some by (simp add: unplug_def)
  qed
  obtain e' u' where w: "whens (\<lambda>_. True) (disposeUiEffect E) (s\<lparr>a_ws := ws\<rparr>) = (e', u')" by force
  have "loader_of E (s\<lparr>a_ws := ws\<rparr>) = loader_of E s" by (simp add: loader_of_def)
  then have same: "a_ws u' = ws" "loader_of E u' = loader_of E s"
    using w killTasks_frame [of E _ e' u'] killTasks_loader [of E _ e' u'] by (auto simp: whens_def disposeUiEffect_def split: if_splits)
  show ?thesis
  proof (cases e')
    case (Some x)
    then have "t = u'" using assms(1) u(1) w by (simp add: dispose_def)
    then show ?thesis using same u(2) by simp
  next
    case None
    then have r: "t = put_ws (filter (\<lambda>v. b_id (fst v) \<noteq> k) ws) u'"
      using assms(1) u(1) w same(1) by (auto simp: dispose_def remove_top_def upd_def split: prod.splits option.splits)
    have "a_ws (put_ws vs u') = vs" "loader_of E (put_ws vs u') = loader_of E u'" for vs by (simp_all add: put_ws_def loader_of_def)
    then show ?thesis unfolding r using same(2) u(2) by (auto simp: ws_sound_iff)
  qed
qed

lemma dispose_ids:
  assumes "dispose E False True k s = (e, t)" "distinct_ids (a_ws s)" "no_null (a_ws s)"
  shows "distinct_ids (a_ws t)"
proof -
  have "mset (all_ids (map fst (a_ws t))) \<subseteq># mset (all_ids (map fst (a_ws s)))"
    using dispose_steps [OF assms(1) _ assms(3)] assms(2) by (metis distinct_ids_def)
  then obtain r where "mset (all_ids (map fst (a_ws s))) = mset (all_ids (map fst (a_ws t)) @ r)"
    by (metis ex_mset mset_append mset_subset_eq_exists_conv)
  from mset_eq_imp_distinct_iff [OF this] show ?thesis using assms(2) by (simp add: distinct_ids_def)
qed

subsection \<open>What dragging keeps\<close>

definition arranged_well :: "env \<Rightarrow> drag \<times> app \<Rightarrow> bool" where
  "arranged_well E st \<longleftrightarrow> (case st of (g, s) \<Rightarrow>
     ws_sound (loader_of E s) (a_ws s) \<and> distinct_ids (a_ws s) \<and> held g (a_ws s))"

lemma rearranged_ids: "rearranged E g s t \<Longrightarrow> distinct_ids (a_ws s) \<Longrightarrow> distinct_ids (a_ws t)"
  by (auto simp: rearranged_def keeps_blocks_def distinct_ids_def dest: mset_eq_imp_distinct_iff)

lemma drag_keeps_well: "drag_step E (g, s) (g', t) \<Longrightarrow> arranged_well E (g, s) \<Longrightarrow> arranged_well E (g', t)"
proof -
  assume step: "drag_step E (g, s) (g', t)" and "arranged_well E (g, s)"
  then have well: "ws_sound (loader_of E s) (a_ws s)" "distinct_ids (a_ws s)" "held g (a_ws s)" by (simp_all add: arranged_well_def)
  note real = ws_sound_no_null [OF well(1)]
  consider "rearranged E g' s t" | k e where "g' = Idle" "dispose E False True k s = (e, t)"
    using drag_step_does [OF step well(2) real well(3)] by blast
  then show ?thesis
  proof cases
    case 1
    then have "loader_of E t = loader_of E s" by (auto simp: rearranged_def loader_of_def)
    moreover have "ws_sound (loader_of E s) (a_ws t)" "held g' (a_ws t)" using 1 well(1) by (auto simp: rearranged_def keeps_blocks_def)
    ultimately show ?thesis using rearranged_ids [OF 1 well(2)] by (simp add: arranged_well_def)
  next
    case 2
    then show ?thesis using dispose_sound [OF 2(2) well(1)] dispose_ids [OF 2(2) well(2) real]
      by (simp add: arranged_well_def held_def)
  qed
qed

lemma drags_keep_well: "(drag_step E)\<^sup>*\<^sup>* st st' \<Longrightarrow> arranged_well E st \<Longrightarrow> arranged_well E st'"
  by (induction rule: rtranclp_induct) (auto dest: drag_keeps_well)

text \<open>C7. Types are kept. If every tree of the workspace is one its block types can make, with every block in a
  connection that fits it and every value of a type its socket takes, then it is so after any sequence of mouse
  presses, moves and releases: blocks pulled out, dropped on any connection \<open>closest\<close> may find, with
  the block that was there reattached or left on the surface, or thrown away. No block is doubled, and what was built like this survives being saved as text
  and loaded again.
\<close>

theorem dragging_keeps_types:
  assumes "(drag_step E)\<^sup>*\<^sup>* (Idle, s) (g, t)" and "ws_sound (loader_of E s) (a_ws s)" and "distinct_ids (a_ws s)"
  shows "ws_sound (loader_of E t) (a_ws t) \<and> distinct_ids (a_ws t) \<and>
    map_res (\<lambda>x. domToWorkspace (loader_of E t) V x ([], k)) (textToDom (domToText (workspaceToDom V (a_ws t)))) =
      Inr (None, renumber_tops k (surface_order V (a_ws t)))"
proof -
  have "arranged_well E (g, t)" using drags_keep_well [OF assms(1)] assms(2,3) by (simp add: arranged_well_def held_def)
  then have t: "ws_sound (loader_of E t) (a_ws t)" "distinct_ids (a_ws t)" by (simp_all add: arranged_well_def)
  then have "list_all (top_ok (loader_of E t)) (a_ws t)" by (simp add: ws_sound_def list_all_iff)
  then show ?thesis using t read_written by simp
qed

subsection \<open>A block pulled out, and left\<close>

lemma demo_typed: "typed demo_loader demo_behaviour"
  by code_simp

lemma typed_cong:
  "same_types L L' (getDescendants b) \<Longrightarrow> typed L b = typed L' b"
  and "same_types L L' (getDescendants (i_target x)) \<Longrightarrow> typed L (i_target x) = typed L' (i_target x)"
proof (induction b and x)
  case (Block i ty ti mu ins nx fl cm)
  have kid: "same_types L L' (getDescendants (i_target x))" if "x \<in> set ins" for x
    using Block.prems that by (auto simp: same_types_def list_all_iff descendants_input)
  have "l_proto L ty = l_proto L' ty" using Block.prems by (simp add: same_types_def)
  moreover have "l_proto L (b_type (i_target (ins ! j))) = l_proto L' (b_type (i_target (ins ! j)))"
    if "j < length ins" "i_target (ins ! j) \<noteq> NoBlock" for j
    using kid [of "ins ! j"] that by (cases "i_target (ins ! j)") (auto simp: same_types_def)
  ultimately have "node_typed L ty ins = node_typed L' ty ins"
    by (auto simp: node_typed_def list_all_iff out_check_def socket_check_def)
  moreover have "same_types L L' (getDescendants nx)" using Block.prems by (simp add: same_types_def)
  ultimately show ?case using Block.IH kid by (simp add: typed_ins_all)
qed simp_all

lemma demo_sound: "a_recovered s = [] \<Longrightarrow> ws_sound (loader_of demo_E s) [(demo_behaviour, 20, 30)]"
proof -
  assume r: "a_recovered s = []"
  then have "same_types (loader_of demo_E s) demo_loader (getDescendants demo_behaviour)"
    by (simp add: same_types_def loader_of_def demo_E_def demo_loader_def demo_behaviour_def demo_protos)
  then show ?thesis using typed_cong(1) demo_typed demo_loads [OF r] by (simp add: ws_sound_def)
qed

lemma demo_distinct: "distinct_ids [(demo_behaviour, 20, 30)]"
  by code_simp

definition demo_pulled :: "env \<Rightarrow> app \<Rightarrow> top list" where
  "demo_pulled E s = (case position_in E s 12 of (x, y) \<Rightarrow>
     [(swap (\<lambda>_. NoBlock) 12 demo_behaviour, 20, 30),
      (Block 12 ''logic_boolean'' [(''BOOL'', ''TRUE'')] (0, 0) [Input [] DummyInput NoBlock] NoBlock new_flags None, x + 30, y + 40)])"

lemma demo_block12: "block_at 12 [(demo_behaviour, 20, 30)] =
    Some (Block 12 ''logic_boolean'' [(''BOOL'', ''TRUE'')] (0, 0) [Input [] DummyInput NoBlock] NoBlock (new_flags\<lparr>plugged := True\<rparr>) None)"
  by code_simp

lemma demo_outs: "a_recovered s = [] \<Longrightarrow> has_out (loader_of demo_E s) ''logic_boolean''"
proof -
  assume "a_recovered s = []"
  then have "has_out (loader_of demo_E s) ''logic_boolean'' = has_out demo_loader ''logic_boolean''"
    by (simp add: has_out_def loader_of_def demo_E_def demo_loader_def demo_protos)
  moreover have "has_out demo_loader ''logic_boolean''" by code_simp
  ultimately show ?thesis by simp
qed

lemma demo_pull:
  assumes "a_recovered s = []" "a_ws s = [(demo_behaviour, 20, 30)]"
  shows "mouseMove demo_E (30, 40) (Pressed 12 (position_in demo_E s 12), s) =
      (Dragged 12 (position_in demo_E s 12), s\<lparr>a_ws := demo_pulled demo_E s\<rparr>)"
proof -
  have id: "b_id demo_behaviour = 7" "demo_behaviour \<noteq> NoBlock" by (simp_all add: demo_behaviour_def)
  then have "swap (\<lambda>_. NoBlock) 12 demo_behaviour = cut (\<lambda>_. NoBlock) 12 demo_behaviour" by (simp add: swap_def)
  moreover have "b_id (cut (\<lambda>_. NoBlock) 12 demo_behaviour) = 7" by code_simp
  ultimately have "move_to 12 (fst (position_in demo_E s 12) + 30, snd (position_in demo_E s 12) + 40) (pull_out demo_E s 12) = demo_pulled demo_E s"
    using assms demo_outs [OF assms(1)] id
    by (simp add: pull_out_def on_surface_def demo_block12 unplugged_def Let_def plug_block_def move_to_def demo_pulled_def
        new_flags_def split: prod.split)
  then show ?thesis using assms by (simp add: mouseMove_def demo_block12 DRAG_RADIUS_def)
qed

lemma demo_drag:
  "(drag_step demo_E)\<^sup>*\<^sup>* (Idle, demo_edited)
     (Idle, demo_edited\<lparr>a_selected := Some 12, a_ws := demo_pulled demo_E (demo_edited\<lparr>a_selected := Some 12\<rparr>)\<rparr>)"
proof -
  let ?s = "demo_edited\<lparr>a_selected := Some 12\<rparr>"
  let ?t = "?s\<lparr>a_ws := demo_pulled demo_E ?s\<rparr>"
  have "position_in demo_E ?s 12 = position_in demo_E demo_edited 12" by (simp add: position_in_def)
  then have "mouseDown demo_E False 12 (Idle, demo_edited) = (Pressed 12 (position_in demo_E ?s 12), ?s)"
    by (simp add: mouseDown_def demo_block12 new_flags_def)
  then have 1: "drag_step demo_E (Idle, demo_edited) (Pressed 12 (position_in demo_E ?s 12), ?s)"
    using drag_step.down [of demo_E "(Idle, demo_edited)" False 12] by simp
  have 2: "drag_step demo_E (Pressed 12 (position_in demo_E ?s 12), ?s) (Dragged 12 (position_in demo_E ?s 12), ?t)"
    using drag_step.move [of demo_E "(Pressed 12 (position_in demo_E ?s 12), ?s)" "(30, 40)"] demo_pull [of ?s] by simp
  have 3: "drag_step demo_E (Dragged 12 (position_in demo_E ?s 12), ?t) (Idle, ?t)"
    by (rule drag_step.up [of demo_E None False _ None]) (simp add: mouseUp_def highlighted_def)
  show ?thesis using 1 2 3 by (meson rtranclp.rtrancl_into_rtrancl rtranclp.rtrancl_refl)
qed

theorem dragging_keeps_types_witness:
  "ws_sound (loader_of demo_E demo_edited) (demo_pulled demo_E (demo_edited\<lparr>a_selected := Some 12\<rparr>))"
proof -
  have "ws_sound (loader_of demo_E demo_edited) (a_ws demo_edited)" "distinct_ids (a_ws demo_edited)"
    using demo_sound demo_distinct by simp_all
  from dragging_keeps_types [OF demo_drag this] show ?thesis by (simp add: loader_of_def)
qed

subsection \<open>Dragging is editing\<close>

lemma drag_keeps_reachable:
  assumes "drag_step E (g, s) (g', t)" "reachable E s" "held g (a_ws s)"
  shows "reachable E t \<and> held g' (a_ws t)"
proof -
  have ids: "distinct_ids (a_ws s)" using reachable_ids [OF assms(2)] by (simp add: distinct_ids_def)
  consider "rearranged E g' s t" | k e where "g' = Idle" "dispose E False True k s = (e, t)"
    using drag_step_does [OF assms(1) ids reachable_real [OF assms(2)] assms(3)] by blast
  then show ?thesis
  proof cases
    case 1
    then obtain ws sel where t: "t = s\<lparr>a_ws := ws, a_selected := sel\<rparr>" "keeps_blocks (loader_of E s) (a_ws s) ws" "held g' ws"
      by (auto simp: rearranged_def)
    have "edited_as s t" unfolding t(1) by (rule edited_same) (use t(2) in \<open>simp_all add: keeps_blocks_def\<close>)
    then show ?thesis using assms(2) edited_asD reachable.stepped t by fastforce
  next
    case 2
    then show ?thesis using dispose_reachable [OF assms(2)] by (simp add: held_def)
  qed
qed

lemma drags_keep_reachable:
  assumes "(drag_step E)\<^sup>*\<^sup>* (g, s) (g', t)" "reachable E s" "held g (a_ws s)"
  shows "reachable E t \<and> held g' (a_ws t)"
  using assms by (induction "(g', t)" arbitrary: g' t rule: rtranclp_induct) (auto dest: drag_keeps_reachable)

text \<open>C9. Dragging is covered by the edit step of the page: from a page that can be reached, every sequence of mouse presses,
  moves and releases leads to pages that can be reached, so that what holds on these holds after
  dragging. Nothing \<open>closest\<close> may find makes \<open>connect\<close> throw.
\<close>

theorem dragging_refines_page:
  assumes "reachable E s" and "(drag_step E)\<^sup>*\<^sup>* (Idle, s) (g, t)"
  shows "reachable E t \<and> (\<forall>l h. closest_offers (loader_of E t) (a_ws t) l h \<longrightarrow> connect_error (loader_of E t) (a_ws t) l h = None)"
  using drags_keep_reachable [OF assms(2,1)] offered_no_error by (simp add: held_def)

theorem dragging_refines_page_witness:
  "\<exists>t. (drag_step demo_E)\<^sup>*\<^sup>* (Idle, demo_edited) (Idle, t) \<and> reachable demo_E t \<and> map (b_id \<circ> fst) (a_ws t) = [7, 12]"
proof -
  let ?t = "demo_edited\<lparr>a_selected := Some 12, a_ws := demo_pulled demo_E (demo_edited\<lparr>a_selected := Some 12\<rparr>)\<rparr>"
  have "map (b_id \<circ> fst) (demo_pulled demo_E s) = [7, 12]" for s
    by (simp add: demo_pulled_def demo_behaviour_def split: prod.split)
  moreover have "reachable demo_E ?t" using dragging_refines_page [OF demo_reachable demo_drag] by blast
  ultimately show ?thesis using demo_drag by (intro exI [of _ ?t]) simp
qed

subsection \<open>Dropping into a stack\<close>

text \<open>The blocks one after the other, and whether another can follow the last.\<close>

fun stack_ids :: "block \<Rightarrow> nat list" where
  "stack_ids NoBlock = []"
| "stack_ids (Block i ty ti mu ins nx fl cm) = i # stack_ids nx"

fun open_end :: "loader \<Rightarrow> block \<Rightarrow> bool" where
  "open_end L NoBlock = False"
| "open_end L (Block i ty ti mu ins nx fl cm) \<longleftrightarrow> has_next L ty \<and> (nx = NoBlock \<or> open_end L nx)"

lemma heal_stack_end:
  "if open_end L b then \<exists>b'. heal_stack L o1 b = Some b' \<and> stack_ids b' = stack_ids b @ stack_ids o1 else heal_stack L o1 b = None"
  by (induction L o1 b rule: heal_stack.induct) (auto split: if_splits)

lemma stack_plug_block [simp]: "stack_ids (plug_block p b) = stack_ids b"
  by (cases b) (simp_all add: plug_block_def)

lemma block_at_unique:
  assumes "distinct_ids ws" "t \<in> set ws" "b \<in> set (getDescendants (fst t))"
  shows "block_at (b_id b) ws = Some b"
proof -
  have all: "set (getAllBlocks (map fst ws)) = (\<Union>t \<in> set ws. set (getDescendants (fst t)))"
    using mset_eq_setD [OF mset_getAllBlocks [of "map fst ws"]] by simp
  then have "b \<in> set (getAllBlocks (map fst ws))" using assms(2,3) by blast
  then have "block_at (b_id b) ws \<noteq> None" by (auto simp: block_at_def find_None_iff)
  then obtain c where c: "block_at (b_id b) ws = Some c" by blast
  then have "c = b" using block_at_in [OF c] unique_block [OF assms(1) _ assms(2) _ assms(3)] by auto
  then show ?thesis using c by simp
qed

lemma swap_in:
  "b \<in> set (getDescendants t) \<Longrightarrow> distinct (ids t) \<Longrightarrow> f b \<noteq> NoBlock \<Longrightarrow> f b \<in> set (getDescendants (swap f (b_id b) t))"
  and "b \<in> set (getDescendants (i_target x)) \<Longrightarrow> distinct (ids (i_target x)) \<Longrightarrow> f b \<noteq> NoBlock \<Longrightarrow>
     f b \<in> set (getDescendants (swap f (b_id b) (i_target x)))"
proof (induction t and x)
  case (Block i ty ti mu ins nx fl cm)
  let ?t = "Block i ty ti mu ins nx fl cm"
  have own: "c \<in> set (getDescendants c)" if "c \<noteq> NoBlock" for c using that by (cases c) simp_all
  consider "b = ?t" | x where "x \<in> set ins" "b \<in> set (getDescendants (i_target x))" | "b \<in> set (getDescendants nx)"
    using Block.prems(1) by (auto simp: descendants_input)
  then show ?case
  proof cases
    case 1
    then show ?thesis using own Block.prems(3) by simp
  next
    case (2 x)
    then have d: "distinct (ids (i_target x))" "b_id b \<noteq> i"
      using Block.prems(2) id_of_descendant [OF 2(2)] by (auto simp: all_ids_def distinct_concat_iff)
    then show ?thesis using Block.IH(1) [OF 2 d(1) Block.prems(3)] 2(1) by (auto simp: descendants_input)
  next
    case 3
    then have "distinct (ids nx)" "b_id b \<noteq> i" using Block.prems(2) id_of_descendant [OF 3] by auto
    then show ?thesis using Block.IH(2) [OF 3 _ Block.prems(3)] by simp
  qed
qed simp_all

lemma block_at_place:
  assumes "distinct_ids ws" "t \<in> set ws" "par \<in> set (getDescendants (fst t))" "b_id par = conn_block c" "b_id (fst t) \<noteq> i"
    and "distinct_ids ws'" "set (place par c i x ws) \<subseteq> set ws'"
  shows "block_at (conn_block c) ws' = Some (plug_in c (plug_block (is_value par c) x) par)"
proof -
  let ?f = "plug_in c (plug_block (is_value par c) x)"
  have real: "?f par \<noteq> NoBlock" "b_id (?f par) = b_id par"
    using real_descendant(1) [OF assms(3)] by (cases par; auto simp: plug_in_def split: conn.split)+
  have "(swap ?f (conn_block c) (fst t), snd t) \<in> set (place par c i x ws)"
    using assms(2,5) unfolding place_def case_prod_unfold by force
  then have "(swap ?f (conn_block c) (fst t), snd t) \<in> set ws'" using assms(7) by blast
  moreover have "?f par \<in> set (getDescendants (swap ?f (b_id par) (fst t)))"
    by (rule swap_in(1) [where f = ?f, OF assms(3) distinct_below [OF assms(1,2)] real(1)])
  ultimately have "block_at (b_id (?f par)) ws' = Some (?f par)"
    using block_at_unique [OF assms(6)] assms(4) by (metis fst_conv)
  then show ?thesis using real(2) assms(4) by simp
qed

lemma below_stack: "conn_type L b c = Some NEXT_STATEMENT \<Longrightarrow> b \<noteq> NoBlock \<Longrightarrow> \<not> is_value b c \<and> conn_target (plug_in c x b) c = x"
  by (cases b; cases c) (auto simp: conn_type_def is_value_def conn_target_def plug_in_def split: if_splits ikind.splits)

text \<open>C39. A stack that is dropped into another goes in between: below the place are then the dropped blocks, in their order, and behind
  them those that were there before - or, if nothing can follow the last of the dropped blocks, those that were there stay on the surface.
\<close>

theorem dropped_in_stack:
  assumes "closest_offers L ws (Previous i) h" "on_surface i ws" "no_null ws" "distinct_ids ws"
    and "block_at i ws = Some b" "block_at (conn_block h) ws = Some par"
  shows "\<exists>par'. block_at (conn_block h) (connect L pos ws (Previous i) h) = Some par' \<and>
    (if open_end L b then stack_ids (conn_target par' h) = stack_ids b @ stack_ids (conn_target par h)
     else stack_ids (conn_target par' h) = stack_ids b \<and>
       (conn_target par h \<noteq> NoBlock \<longrightarrow>
          (plug_block False (conn_target par h), pos (b_id (conn_target par h))) \<in> set (connect L pos ws (Previous i) h)))"
proof -
  let ?ws' = "connect L pos ws (Previous i) h" and ?old = "conn_target par h"
  obtain x where x: "conn_type L b (Previous i) = Some x" "conn_type L par h = Some (OPPOSITE_TYPE x)" "conn_block h \<notin> set (ids b)"
    using assms(1,5,6) by (elim offered) simp
  have prev: "x = PREVIOUS_STATEMENT" using x(1) by (auto simp: conn_type_def split: if_splits)
  obtain t where t: "t \<in> set ws" "par \<in> set (getDescendants (fst t))" "b_id par = conn_block h" "par \<noteq> NoBlock"
    using block_at_in [OF assms(6)] by blast
  obtain xy where b: "(b, xy) \<in> set ws" "b_id b = i" using top_block [OF assms(4,3,5,2)] block_at_in [OF assms(5)] by blast
  have apart: "b_id (fst t) \<noteq> i" using top_alone [OF assms(4,3) b(1) t(1,2)] b(2) x(3) t(3) by simp
  have "keeps_blocks L ws ?ws'" using connect_keeps [OF assms(1) _ assms(3,4)] assms(2) by simp
  then have d: "distinct_ids ?ws'"
    using assms(4) by (auto simp: keeps_blocks_def distinct_ids_def dest: mset_eq_imp_distinct_iff)
  note below = below_stack [OF x(2) [unfolded prev OPPOSITE_TYPE.simps] t(4)]
  have res: "?ws' = (case healed L False ?old b of Some d \<Rightarrow> place par h i d ws
      | None \<Rightarrow> place par h i b ws @ [(plug_block False ?old, pos (b_id ?old))])"
    using assms(5,6) x(1) prev below by (simp add: connect_def Let_def isSuperior_def split: option.split)
  note found = block_at_place [OF assms(4) t(1-3) apart d]
  show ?thesis
  proof (cases "healed L False ?old b")
    case None
    then have "?old \<noteq> NoBlock" "\<not> open_end L b" using heal_stack_end [of L b ?old] by (auto simp: healed_def split: if_splits)
    moreover have "set (place par h i b ws) \<subseteq> set ?ws'" by (auto simp: res None)
    ultimately show ?thesis using found [of b] below by (auto simp: res None)
  next
    case (Some c)
    then have "set (place par h i c ws) \<subseteq> set ?ws'" by (simp add: res)
    moreover have "stack_ids c = stack_ids b @ stack_ids ?old" "?old = NoBlock \<or> open_end L b"
      using Some heal_stack_end [of L b ?old] by (auto simp: healed_def split: if_splits)
    ultimately show ?thesis using found [of c] below by auto
  qed
qed

definition demo_if :: block where
  "demo_if = Block 20 ''controls_if'' [] (0, 0) [Input ''IF0'' ValueInput NoBlock, Input ''DO0'' StatementInput NoBlock] NoBlock new_flags None"

definition demo_two :: "top list" where
  "demo_two = [(demo_behaviour, 20, 30), (demo_if, 200, 30)]"

lemma demo_two_ok:
  "closest_offers demo_loader demo_two (Previous 20) (Socket 7 1)" "on_surface 20 demo_two" "no_null demo_two" "distinct_ids demo_two"
  "block_at 20 demo_two = Some demo_if" "block_at 7 demo_two = Some demo_behaviour"
  by code_simp+

theorem dropped_in_stack_witness:
  "\<exists>par'. block_at 7 (connect demo_loader (\<lambda>_. (0, 0)) demo_two (Previous 20) (Socket 7 1)) = Some par' \<and>
     stack_ids (conn_target par' (Socket 7 1)) = [20, 9]"
proof -
  have "open_end demo_loader demo_if" "stack_ids demo_if @ stack_ids (conn_target demo_behaviour (Socket 7 1)) = [20, 9]" by code_simp+
  then show ?thesis
    using dropped_in_stack [OF demo_two_ok(1-5), of demo_behaviour "\<lambda>_. (0, 0)"] demo_two_ok(6) by simp
qed

end
