(* ===== verification/Touch.thy ===== *)
theory Touch
  imports Restore
begin

text \<open>
  The tablet's fixes for touch screens (\<open>js/tablet.js\<close>, \<open>fixConflicts\<close>): the events that Blockly binds
  are bound for touches too, and on the Android browser, which reports a touch twice, a click on an
  icon or on a category of the palette is followed by a pause in which clicks are not heard.
\<close>

subsection \<open>Binding events\<close>

text \<open>
  The listeners of an element, by event and function: the function itself for the event, and for
  the touch that stands for it one that takes the place of the only finger first.
\<close>

datatype listener = Plain nat | Touching nat

definition TOUCH_MAP :: "(string \<times> string) list" where
  "TOUCH_MAP = [(''mousedown'', ''touchstart''), (''mousemove'', ''touchmove''), (''mouseup'', ''touchend'')]"

type_synonym listeners = "(string \<times> listener) list"

definition addEventListener :: "string \<Rightarrow> listener \<Rightarrow> listeners \<Rightarrow> listeners" where
  "addEventListener b f ls = (if (b, f) \<in> set ls then ls else ls @ [(b, f)])"

definition removeEventListener :: "string \<Rightarrow> listener \<Rightarrow> listeners \<Rightarrow> listeners" where
  "removeEventListener b f ls = remove1 (b, f) ls"

definition bindEvent :: "string \<Rightarrow> nat \<Rightarrow> listeners \<Rightarrow> (string \<times> listener) list \<times> listeners" where
  "bindEvent b f ls = (case map_of TOUCH_MAP b of
     None \<Rightarrow> ([(b, Plain f)], addEventListener b (Plain f) ls)
   | Some t \<Rightarrow> ([(b, Plain f), (t, Touching f)], addEventListener t (Touching f) (addEventListener b (Plain f) ls)))"

text \<open>\<open>unbindEvent_\<close> of Blockly takes them away again, last first.\<close>

definition unbindEvent :: "(string \<times> listener) list \<Rightarrow> listeners \<Rightarrow> listeners" where
  "unbindEvent e ls = foldr (\<lambda>(b, f). removeEventListener b f) (rev e) ls"

text \<open>What a listener makes of the place of an event, given the fingers that changed.\<close>

fun event_place :: "listener \<Rightarrow> (int \<times> int) list \<Rightarrow> int \<times> int \<Rightarrow> int \<times> int" where
  "event_place (Touching f) [p] q = p"
| "event_place l ps q = q"

lemma unbind_bind:
  assumes "\<And>b l. (b, l) \<in> set ls \<Longrightarrow> l \<noteq> Plain f \<and> l \<noteq> Touching f"
  shows "unbindEvent (fst (bindEvent b f ls)) (snd (bindEvent b f ls)) = ls"
proof -
  have "(c, Plain f) \<notin> set ls" "(c, Touching f) \<notin> set ls" for c using assms by blast+
  then show ?thesis
    by (auto simp: bindEvent_def unbindEvent_def addEventListener_def removeEventListener_def remove1_append split: option.split)
qed

subsection \<open>Icons and categories\<close>

type_synonym node = "string \<times> string list"

record touch =
  t_onTime :: bool \<comment> \<open>\<open>Yatay.Tablet.onTime\<close>\<close>
  t_timers :: nat \<comment> \<open>timers that set it again\<close>
  t_open :: "nat list" \<comment> \<open>the icons whose bubble is shown\<close>
  t_item :: "node option" \<comment> \<open>\<open>selectedItem_\<close>\<close>
  t_flyout :: "string list option"

text \<open>What a click does to the page, besides the pause.\<close>

datatype shown = Toggled nat | Category "node option"

definition iconClick :: "string \<Rightarrow> nat \<Rightarrow> bool \<Rightarrow> bool \<Rightarrow> touch \<Rightarrow> shown list \<times> touch" where
  "iconClick agent i ed fly s =
     (let toggle = (\<lambda>s. if ed \<and> \<not> fly
            then ([Toggled i], s\<lparr>t_open := (if i \<in> set (t_open s) then removeAll i (t_open s) else i # t_open s)\<rparr>) else ([], s)) in
      if is_android_browser agent then
        (if t_onTime s then (case toggle s of (e, t) \<Rightarrow> (e, t\<lparr>t_onTime := False, t_timers := Suc (t_timers t)\<rparr>)) else ([], s))
      else toggle s)"

definition setSelectedItem :: "string \<Rightarrow> node option \<Rightarrow> touch \<Rightarrow> shown list \<times> touch" where
  "setSelectedItem agent node s =
     (let open_it = (\<lambda>s. s\<lparr>t_item := node,
            t_flyout := (case node of Some (n, b # bs) \<Rightarrow> Some (b # bs) | _ \<Rightarrow> None)\<rparr>) in
      if is_android_browser agent then
        (if \<not> t_onTime s \<or> t_item s = node then ([], s)
         else ([Category node], (open_it s)\<lparr>t_onTime := False, t_timers := Suc (t_timers s)\<rparr>))
      else if t_item s = node then ([], s) else ([Category node], open_it s))"

datatype tevent = IconTouched nat bool bool | CategoryTouched "node option" | PauseOver

fun touch_step :: "string \<Rightarrow> tevent \<Rightarrow> touch \<Rightarrow> shown list \<times> touch" where
  "touch_step agent (IconTouched i ed fly) s = iconClick agent i ed fly s"
| "touch_step agent (CategoryTouched node) s = setSelectedItem agent node s"
| "touch_step agent PauseOver s = ([], if t_timers s = 0 then s else s\<lparr>t_onTime := True, t_timers := t_timers s - 1\<rparr>)"

fun touch_run :: "string \<Rightarrow> tevent list \<Rightarrow> touch \<Rightarrow> shown list \<times> touch" where
  "touch_run agent [] s = ([], s)"
| "touch_run agent (ev # evs) s = (case touch_step agent ev s of (e, t) \<Rightarrow> (case touch_run agent evs t of (e', u) \<Rightarrow> (e @ e', u)))"

text \<open>Outside a pause no timer is pending, and in a pause exactly one.\<close>

definition pausing :: "touch \<Rightarrow> nat" where
  "pausing s = (if t_onTime s then 0 else 1)"

lemma touch_step_pause:
  assumes "is_android_browser agent" "t_timers s = pausing s" "touch_step agent ev s = (e, t)"
  shows "t_timers t = pausing t \<and> length e + pausing s \<le> (if ev = PauseOver then 1 else 0) + pausing t"
  using assms by (cases ev) (auto simp: iconClick_def setSelectedItem_def pausing_def Let_def split: if_splits)

text \<open>C40. On the Android browser one touch has one effect, however often it is reported: between two changes of icons or categories a pause has
  ended, since in any sequence of events there is at most one change more than ends of pauses. And the page does not stay deaf:
  in a pause the timer that ends it is pending, and there is only one.
\<close>

theorem touches_are_throttled:
  assumes "is_android_browser agent" and "t_timers s = pausing s" and "touch_run agent evs s = (e, t)"
  shows "length e \<le> Suc (length (filter (\<lambda>ev. ev = PauseOver) evs)) \<and> t_timers t = (if t_onTime t then 0 else 1)"
proof -
  have "t_timers t = pausing t \<and> length e + pausing s \<le> length (filter (\<lambda>ev. ev = PauseOver) evs) + pausing t"
    using assms
  proof (induction agent evs s arbitrary: e t rule: touch_run.induct)
    case (2 agent ev evs s)
    obtain e1 u e2 where u: "touch_step agent ev s = (e1, u)" "touch_run agent evs u = (e2, t)" "e = e1 @ e2"
      using "2.prems"(3) by (auto split: prod.splits)
    have "t_timers u = pausing u \<and> length e1 + pausing s \<le> (if ev = PauseOver then 1 else 0) + pausing u"
      by (rule touch_step_pause [OF "2.prems"(1,2) u(1)])
    moreover have "t_timers t = pausing t \<and> length e2 + pausing u \<le> length (filter (\<lambda>ev. ev = PauseOver) evs) + pausing t"
      by (rule "2.IH" [OF u(1) [symmetric] "2.prems"(1) _ u(2)]) (use calculation in simp)
    ultimately show ?case using u(3) by (cases "ev = PauseOver") simp_all
  qed simp
  then show ?thesis by (auto simp: pausing_def split: if_splits)
qed

definition demo_touch :: touch where
  "demo_touch = \<lparr>t_onTime = True, t_timers = 0, t_open = [], t_item = None, t_flyout = None\<rparr>"

theorem touches_are_throttled_witness:
  "touch_run ''Mozilla/5.0 Android AppleWebKit'' [IconTouched 3 True False, IconTouched 3 True False, PauseOver, CategoryTouched None,
      CategoryTouched (Some (''A'', [''b'']))] demo_touch =
     ([Toggled 3, Category (Some (''A'', [''b'']))], demo_touch\<lparr>t_onTime := False, t_timers := 1, t_open := [3],
        t_item := Some (''A'', [''b'']), t_flyout := Some [''b'']\<rparr>) \<and>
   length [Toggled 3, Category (Some (''A'', [''b'']))] \<le> Suc 1"
proof -
  let ?evs = "[IconTouched 3 True False, IconTouched 3 True False, PauseOver, CategoryTouched None, CategoryTouched (Some (''A'', [''b'']))]"
  have a: "is_android_browser ''Mozilla/5.0 Android AppleWebKit''" by code_simp
  have s: "t_timers demo_touch = pausing demo_touch" by (simp add: demo_touch_def pausing_def)
  have run: "touch_run ''Mozilla/5.0 Android AppleWebKit'' ?evs demo_touch =
     ([Toggled 3, Category (Some (''A'', [''b'']))], demo_touch\<lparr>t_onTime := False, t_timers := 1, t_open := [3],
        t_item := Some (''A'', [''b'']), t_flyout := Some [''b'']\<rparr>)"
    using a by (simp add: iconClick_def setSelectedItem_def demo_touch_def Let_def)
  show ?thesis using touches_are_throttled [OF a s run] run by simp
qed

end
