(* ===== verification/Spec2Isabelle.thy ===== *)
theory Spec2Isabelle
  imports Prelude Transport Cookies Json Storage Blocks LuaCore LuaGens LuaValues LuaCode LuaProps LuaMeaning
    Messages BlockDefs BlockOps Toolbox XmlText XmlBlocks AppState Behaviours Restore Run Remote
    Language PageInvariant LoadRule UniqueIds Page BehaviourProps RestoreProps SavingProps FileProps
    Buttons RunProps Modes DebugProps TextProps VarScope Editing TestMode
    Connections Dragging Touch
begin

text \<open>
  Yatay lets children program a robot with blocks, in the browser. This development models its front end: the
  JavaScript under \<open>src/Yatay/Toribio/Lumen/tasks/http-server/www\<close>, mainly \<open>apps/yatay\<close>, with the
  parts of Blockly (\<open>blockly_compressed.js\<close>) it is built on. Paths below are relative to \<open>apps/yatay\<close>.

  \<^bold>\<open>The program.\<close> The user builds a behaviour - a tree of blocks - in the Blockly workspace. When it is ready
  (\<open>bxReady\<close>) it leaves the workspace as XML text and joins the list \<open>Yatay.Common.behaviours\<close>; pressing its
  entry brings it back (\<open>bxToWorkspace\<close>). Every change is saved in \<open>localStorage\<close> and on the server
  (\<open>AutoSave\<close>, \<open>saveInBrowser\<close>, \<open>saveTask\<close>). Running loads every behaviour once more, generates Lua code
  for it and posts the code; the server decodes it and hands it to the robot. While it runs the page polls for
  results; in the debug mode the robot reports block numbers, which the page finds again among its blocks. A test mode runs
  single blocks. Files, the server's projects and the browser's storage bring behaviours back, with substitutes for block
  types that are no longer there.

  \<^bold>\<open>Data.\<close> JavaScript strings are HOL strings, \<open>null\<close> and \<open>undefined\<close> are \<^const>\<open>None\<close>,
  exceptions are values (a sum, or \<open>exn option\<close> beside the state reached before it). The page is the record
  \<open>app\<close> (\<open>AppState\<close>): workspace, list, what is shown, handlers, timers, requests, storage, cookies. An
  operation is a function on it (\<open>act\<close>); the events of the page are the step relation \<open>page_step\<close>
  (\<open>Page\<close>). What the page gets from outside - the message tables, \<open>parseFloat\<close>, dates, the size of the
  drawing, the server's answers - is the record \<open>env\<close> or an argument of an event.

  \<^bold>\<open>Theories.\<close>
  \<^item> \<open>Prelude\<close>: JavaScript's string functions, results, numerals, and the collections of rules.
  \<^item> \<open>Transport\<close>, \<open>Cookies\<close>, \<open>Json\<close>, \<open>Storage\<close>: the encodings of \<open>js/common.js\<close> and what the server
    decodes; the cookie jar (an interpretation of the locale \<open>kv_store\<close>); \<open>JSON\<close>; \<open>localStorage\<close>
    with \<open>saveInBrowser\<close> and \<open>discard\<close>. Shown: code reaches the robot unchanged, saving loses no entry in use.
  \<^item> \<open>Blocks\<close>, \<open>BlockDefs\<close>, \<open>BlockOps\<close>, \<open>Toolbox\<close>: trees of blocks; \<open>blocks/*.js\<close> as sequences of
    calls; the mutator of the if block and the variable methods; the palette of \<open>generated/*.js\<close>. Shown: the mutator
    keeps every child, what the palette offers can be built and generated, names stay legal.
  \<^item> \<open>LuaCore\<close>, \<open>LuaGens\<close>, \<open>LuaValues\<close>, \<open>LuaCode\<close>: \<open>generators/lua.js\<close> and
    \<open>generators/lua/*.js\<close>, one definition per generator, over the stores of \<open>js/yatay.js\<close>.
    \<open>LuaProps\<close>, \<open>LuaMeaning\<close>: the generator succeeds on supported blocks and only on these, disabled blocks leave no trace,
    a variable is declared once, comparisons lose their nesting.
  \<^item> \<open>XmlText\<close>, \<open>XmlBlocks\<close>, \<open>LoadRule\<close>, \<open>UniqueIds\<close>: \<open>Blockly.Xml\<close>, as text, as blocks, with the exceptions
    of loading half way. Shown: a workspace survives being written and read; numbers stay unique.
  \<^item> \<open>AppState\<close>, \<open>Behaviours\<close>, \<open>Restore\<close>, \<open>Run\<close>, \<open>Remote\<close>, \<open>Messages\<close>, \<open>Language\<close>: \<open>js/common.js\<close>,
    \<open>js/yatay.js\<close>, \<open>js/mobile.js\<close>, \<open>js/tablet.js\<close>, \<open>languages/*.js\<close> and \<open>../common.js\<close>, handler by
    handler. \<open>Page\<close> composes them with \<open>bodies/*.html\<close>.
  \<^item> \<open>PageInvariant\<close>: a locale for what every operation of the page keeps, and its interpretations (numbers are unique, texts
    parse). \<open>Buttons\<close>: every handler that ends gives its button back. \<open>Modes\<close>, \<open>RunProps\<close>, \<open>DebugProps\<close>,
    \<open>BehaviourProps\<close>, \<open>SavingProps\<close>, \<open>RestoreProps\<close>, \<open>FileProps\<close>, \<open>TextProps\<close>: what the operations do, alone and one after the other.
  \<^item> \<open>VarScope\<close>: the menu of a variable field against the scope of variables. \<open>Editing\<close>, \<open>TestMode\<close>: taking, copying,
    pasting and disposing of blocks, their refinement of the page's edit step, and the limit on blocks.
    \<open>Connections\<close>, \<open>Dragging\<close>: what a dragged block may be connected to, and that dragging keeps blocks, types and reachable pages.
    \<open>Touch\<close>: the fixes for touch screens.

  \<^bold>\<open>Bounds and fuel.\<close> The parsers of JSON and XML take fuel; the length of the text, or twice it, is
  shown to be enough for everything the printers write. \<open>load_retry\<close> (the loop \<open>while (!success)\<close>) takes fuel because it may
  run forever: with unknown types one attempt more than there are blocks is enough (\<open>missing_types_recovered\<close>), and with an unknown field no fuel
  is (\<open>missing_field_hangs\<close>). The search for a free name, for a free place when pasting and for a free socket
  terminate by measures. Everything else is structural.

  \<^bold>\<open>Assumptions.\<close> Characters are code units below 256. A behaviour whose name is a property that every array has
  (such as \<open>push\<close>) is treated like any other by \<open>ExistVariable\<close>; variables with such names are an argument (\<open>g_proto\<close>).
  The children of a block are in the order of its inputs, as after loading. Positions are whole numbers.

  \<^bold>\<open>Not modelled.\<close> Drawing and layout (rendering of blocks, distances between connections, animations, sizes):
  where they matter, as for the connection nearest to a dragged block, the result is an argument. The libraries (jQuery, Bootstrap, CodeMirror, FileSaver, the rest of Blockly and
  Closure), the message tables of Blockly (arguments), the dialogs of the Blockly demos in \<open>../common.js\<close> (their elements are not
  in this program's page), \<open>../slider.js\<close> (not loaded), and the server and robot programs, but for \<open>url_decode\<close>.
\<close>

end
